(* ===== verification/Prelude.thy ===== *)
theory Prelude
  imports Complex_Main "HOL-Library.Char_ord" "HOL-Library.List_Lexorder" "HOL-Library.AList"
    "HOL-Library.Multiset" "HOL-Library.Word"
begin

section \<open>Prelude: the fragment of Go the components share\<close>

text \<open>
  Go values as HOL values. A Go \<open>string\<close> is a byte string, here a \<open>char list\<close>; the order of
  \<open>HOL-Library.List_Lexorder\<close> on it is Go's bytewise \<open><\<close>. The 64-bit integer types \<open>int\<close>,
  \<open>int64\<close> and \<open>uint64\<close> are \<open>64 word\<close>: \<open>+\<close> and \<open>-\<close> wrap as in Go, \<open>sint\<close> reads the signed
  types. A pair \<open>(value, error)\<close> of which exactly one is meaningful is \<open>'a res\<close>, an \<open>error\<close>
  result alone is \<open>go_error option\<close> with \<open>None\<close> for \<open>nil\<close>. A method of a stateful object or of an
  interface is a function on a state \<open>'w\<close> that returns its result with the next state.
  Log calls are left out; contexts are never cancelled in the model.
\<close>

named_theorems go_simps "unfolding rules of the Go fragment"

type_synonym int64 = "64 word"
type_synonym byte = "8 word"
type_synonym time = nat

subsection \<open>Errors\<close>

text \<open>
  The sentinel errors of the packages, one datatype per package, and Go's error values: a
  sentinel, \<open>errors.New\<close>, \<open>fmt.Errorf\<close> without and with a \<open>%w\<close> operand (the format and its
  arguments are kept unrendered, since no code inspects the text), and \<open>errors.Join\<close>.
\<close>

datatype persistence_error = ErrNotFound | ErrConflict | ErrValidation

datatype lxd_error =
  ErrNodeNotFound | ErrInstanceNotFound | ErrUnreachable | ErrMigrationFailed
| ErrClusterAlreadyBootstrapped

datatype provider_error = ErrServerNotFound | ErrInvalidSpec

datatype scheduler_error = ErrNoCapacity

datatype sentinel =
  PersistenceErr persistence_error
| LxdErr lxd_error
| ProviderErr provider_error
| SchedulerErr scheduler_error

datatype go_error =
  Sentinel sentinel
| Errors_New string
| Errorf string "string list"
| Wrapf string "string list" go_error
| Join "go_error list"

type_synonym 'a res = "go_error + 'a"

text \<open>\<open>errors.Is\<close> for a sentinel target: search the tree of wrapped errors.\<close>

fun errors_is :: "go_error \<Rightarrow> sentinel \<Rightarrow> bool" where
  "errors_is (Sentinel s) t = (s = t)"
| "errors_is (Errors_New m) t = False"
| "errors_is (Errorf f as) t = False"
| "errors_is (Wrapf f as e) t = errors_is e t"
| "errors_is (Join es) t = list_ex (\<lambda>e. errors_is e t) es"

text \<open>\<open>errors.Join(errs...)\<close> over non-nil errors: \<open>nil\<close> for no error.\<close>

definition errors_join :: "go_error list \<Rightarrow> go_error option" where
  "errors_join es = (if es = [] then None else Some (Join es))"

lemma errors_join_None [simp]: "errors_join es = None \<longleftrightarrow> es = []"
  by (simp add: errors_join_def)

subsection \<open>Maps as association lists\<close>

text \<open>
  A Go map that the code ranges over is an association list with distinct keys; the list order is
  the order in which the runtime happens to iterate, so what is proved for every list holds for
  every iteration order.
\<close>

lemma map_of_update [simp]: "map_of (AList.update k v m) = (map_of m)(k \<mapsto> v)"
  by (rule AList.update_conv')

lemma distinct_keys_update [simp]:
  "distinct (map fst m) \<Longrightarrow> distinct (map fst (AList.update k v m))"
  by (rule AList.distinct_update)

lemma distinct_keys_delete [simp]:
  "distinct (map fst m) \<Longrightarrow> distinct (map fst (AList.delete k m))"
  by (rule AList.distinct_delete)

lemma set_update_subset: "set (AList.update k v m) \<subseteq> insert (k, v) (set m)"
  by (induction m) auto

lemma set_alist_update:
  "distinct (map fst m) \<Longrightarrow> set (AList.update k v m) = insert (k, v) {p \<in> set m. fst p \<noteq> k}"
  by (induction m) (auto simp: image_iff)

lemma set_alist_delete: "set (AList.delete k m) = {p \<in> set m. fst p \<noteq> k}"
  by (induction m) auto

lemma update_new: "map_of m k = None \<Longrightarrow> AList.update k v m = m @ [(k, v)]"
  by (induction m) (auto split: if_splits)

lemma ran_map_of: "distinct (map fst m) \<Longrightarrow> ran (map_of m) = snd ` set m"
  by (rule ran_distinct)

lemma ran_upd_new: "m k = None \<Longrightarrow> ran (m(k \<mapsto> v)) = insert v (ran m)"
  by (rule ran_map_upd)

lemma ran_upd_subset: "ran (m(k \<mapsto> v)) \<subseteq> insert v (ran m)"
  by (auto simp: ran_def split: if_splits)

lemma ranE: "v \<in> ran m \<Longrightarrow> (\<And>k. m k = Some v \<Longrightarrow> P) \<Longrightarrow> P"
  by (auto simp: ran_def)

text \<open>
  \<open>reorder p xs\<close> is the \<open>p\<close>-th rearrangement of \<open>xs\<close>: the order in which one \<open>range\<close> loop happens
  to visit the entries of a map. Every rearrangement is one of them.
\<close>

fun reorder :: "nat \<Rightarrow> 'a list \<Rightarrow> 'a list" where
  "reorder p [] = []"
| "reorder p (x # xs) =
     (let k = Suc (length xs); ys = reorder (p div k) xs
      in take (p mod k) ys @ x # drop (p mod k) ys)"

lemma mset_reorder [simp]: "mset (reorder p xs) = mset xs"
proof (induction xs arbitrary: p)
  case (Cons x xs)
  let ?ys = "reorder (p div Suc (length xs)) xs"
  have "mset (take i ?ys) + mset (drop i ?ys) = mset xs" for i
    by (metis Cons.IH append_take_drop_id mset_append)
  then show ?case by (simp add: Let_def)
qed simp

lemma set_reorder [simp]: "set (reorder p xs) = set xs"
  by (metis mset_reorder set_mset_mset)

lemma distinct_reorder [simp]: "distinct (reorder p xs) = distinct xs"
  by (metis mset_reorder mset_eq_imp_distinct_iff)

lemma distinct_map_reorder: "distinct (map f (reorder p xs)) = distinct (map f xs)"
  by (metis mset_reorder mset_eq_imp_distinct_iff mset_map)

lemma reorder_surj: "mset ys = mset xs \<Longrightarrow> \<exists>p. reorder p xs = ys"
proof (induction xs arbitrary: ys)
  case (Cons x xs)
  from Cons.prems have "x \<in> set ys" by (metis list.set_intros(1) mset_eq_setD)
  then obtain as bs where ys: "ys = as @ x # bs" by (meson split_list)
  with Cons.prems have m: "mset (as @ bs) = mset xs" by simp
  with Cons.IH obtain p where p: "reorder p xs = as @ bs" by blast
  from m have len: "length as < Suc (length xs)" by (metis le_add1 length_append less_Suc_eq_le size_mset)
  let ?q = "p * Suc (length xs) + length as"
  from len have "?q mod Suc (length xs) = length as" by (metis mod_less mod_mult_self3)
  moreover have "?q div Suc (length xs) = p"
    using len by (metis add.commute add.right_neutral div_less div_mult_self1 mult.commute nat.distinct(1))
  ultimately have "reorder ?q (x # xs) = ys" using p ys by (simp add: Let_def del: mult_Suc_right)
  then show ?case by blast
qed simp

subsection \<open>Loops with an early return\<close>

text \<open>\<open>for _, x := range xs { if err := body(x); err != nil { return err } }\<close>\<close>

fun range_until_error :: "('a \<Rightarrow> 'w \<Rightarrow> go_error option \<times> 'w) \<Rightarrow> 'a list \<Rightarrow> 'w \<Rightarrow> go_error option \<times> 'w" where
  "range_until_error body [] w = (None, w)"
| "range_until_error body (x # xs) w =
     (case body x w of
        (Some err, w') \<Rightarrow> (Some err, w')
      | (None, w') \<Rightarrow> range_until_error body xs w')"

lemma find_member:
  "distinct (map f xs) \<Longrightarrow> x \<in> set xs \<Longrightarrow> f x = y \<Longrightarrow> List.find (\<lambda>x. f x = y) xs = Some x"
  by (induction xs) auto

subsection \<open>Hexadecimal text\<close>

definition hex_digit :: "nat \<Rightarrow> char" where
  "hex_digit d = ''0123456789abcdef'' ! d"

definition hex_byte :: "byte \<Rightarrow> string" where
  "hex_byte b = [hex_digit (unat b div 16), hex_digit (unat b mod 16)]"

text \<open>\<open>fmt.Sprintf\<close> with \<open>%x\<close> (or \<open>%08x\<close>, \<open>%04x\<close>, \<open>%012x\<close> on 4, 2 and 6 bytes) of a byte slice:
  two lower-case digits per byte.\<close>

definition hex_bytes :: "byte list \<Rightarrow> string" where
  "hex_bytes bs = concat (map hex_byte bs)"

lemma length_hex_bytes [simp]: "length (hex_bytes bs) = 2 * length bs"
  by (induction bs) (simp_all add: hex_bytes_def hex_byte_def)

lemma hex_digit_inj: "a < 16 \<Longrightarrow> b < 16 \<Longrightarrow> hex_digit a = hex_digit b \<Longrightarrow> a = b"
proof -
  have "distinct ''0123456789abcdef''" by simp
  moreover assume "a < 16" "b < 16" "hex_digit a = hex_digit b"
  ultimately show "a = b"
    by (simp add: hex_digit_def nth_eq_iff_index_eq)
qed

lemma unat_byte_div: "unat (b :: byte) div 16 < 16"
proof -
  have "unat b < 256" using unsigned_less [where ?'a = nat and w = b] by simp
  then show ?thesis by simp
qed

lemma hex_byte_inj: "hex_byte a = hex_byte b \<Longrightarrow> a = b"
proof -
  assume "hex_byte a = hex_byte b"
  then have "unat a div 16 = unat b div 16" and "unat a mod 16 = unat b mod 16"
    by (auto simp: hex_byte_def intro: hex_digit_inj unat_byte_div)
  then have "unat a = unat b" by (metis div_mult_mod_eq)
  then show "a = b" by (rule unsigned_word_eqI)
qed

lemma hex_bytes_inj: "hex_bytes as = hex_bytes bs \<Longrightarrow> as = bs"
proof (induction as arbitrary: bs)
  case Nil
  then show ?case by (cases bs) (simp_all add: hex_bytes_def hex_byte_def)
next
  case (Cons a as)
  then obtain b bs' where bs: "bs = b # bs'"
    by (cases bs) (simp_all add: hex_bytes_def hex_byte_def)
  with Cons.prems have "hex_byte a = hex_byte b" and "hex_bytes as = hex_bytes bs'"
    by (simp_all add: hex_bytes_def hex_byte_def)
  with Cons.IH bs show ?case by (simp add: hex_byte_inj)
qed

end
