(* ===== verification/Model.thy ===== *)
theory Model
  imports Prelude
begin

section \<open>The domain model (internal/persistence/model)\<close>

text \<open>
  The structs of \<open>model.go\<close> as records, field by field, with a prefix per struct (\<open>c_\<close>, \<open>n_\<close>, \<open>i_\<close>)
  because HOL record fields share one name space. \<open>time.Time\<close> is a natural number, a
  \<open>map[string]any\<close> is \<open>None\<close> for the nil map or \<open>Some\<close> of a partial function into JSON values.
\<close>

datatype json =
  JNull | JBool bool | JNumber rat | JString string | JArray "json list"
| JObject "(string \<times> json) list"

type_synonym json_map = "(string \<Rightarrow> json option) option"

definition NodeStatusProvisioning :: string where "NodeStatusProvisioning = ''provisioning''"
definition NodeStatusOnline :: string where "NodeStatusOnline = ''online''"
definition NodeStatusOffline :: string where "NodeStatusOffline = ''offline''"
definition NodeStatusDraining :: string where "NodeStatusDraining = ''draining''"
definition NodeStatusDeprovisioning :: string where
  "NodeStatusDeprovisioning = ''deprovisioning''"
definition NodeStatusError :: string where "NodeStatusError = ''error''"

lemmas node_status_defs =
  NodeStatusProvisioning_def NodeStatusOnline_def NodeStatusOffline_def NodeStatusDraining_def
  NodeStatusDeprovisioning_def NodeStatusError_def

definition InstanceStatusRunning :: string where "InstanceStatusRunning = ''running''"
definition InstanceStatusStopped :: string where "InstanceStatusStopped = ''stopped''"
definition InstanceStatusFrozen :: string where "InstanceStatusFrozen = ''frozen''"
definition InstanceStatusUnknown :: string where "InstanceStatusUnknown = ''unknown''"

lemmas instance_status_defs =
  InstanceStatusRunning_def InstanceStatusStopped_def InstanceStatusFrozen_def
  InstanceStatusUnknown_def

record cluster =
  c_ID :: string
  c_Name :: string
  c_LXDEndpoint :: string
  c_HyperscalerProvider :: string
  c_HyperscalerConfig :: json_map
  c_ScalingConfig :: json_map
  c_Status :: string
  c_CreatedAt :: time
  c_UpdatedAt :: time

record node =
  n_ID :: string
  n_ClusterID :: string
  n_Name :: string
  n_LXDMemberName :: string
  n_HyperscalerServerID :: string
  n_CPUCores :: int64
  n_MemoryBytes :: int64
  n_DiskBytes :: int64
  n_Status :: string
  n_CreatedAt :: time
  n_UpdatedAt :: time

record inst =
  i_ID :: string
  i_ClusterID :: string
  i_NodeID :: string
  i_Name :: string
  i_InstanceType :: string
  i_Status :: string
  i_CPULimit :: int64
  i_MemoryLimit :: int64
  i_DiskLimit :: int64
  i_Config :: json_map
  i_CreatedAt :: time
  i_UpdatedAt :: time

text \<open>The zero values of the structs, which a composite literal completes.\<close>

definition zero_node :: node where
  "zero_node = \<lparr>n_ID = '''', n_ClusterID = '''', n_Name = '''', n_LXDMemberName = '''',
     n_HyperscalerServerID = '''', n_CPUCores = 0, n_MemoryBytes = 0, n_DiskBytes = 0,
     n_Status = '''', n_CreatedAt = 0, n_UpdatedAt = 0\<rparr>"

definition zero_inst :: inst where
  "zero_inst = \<lparr>i_ID = '''', i_ClusterID = '''', i_NodeID = '''', i_Name = '''',
     i_InstanceType = '''', i_Status = '''', i_CPULimit = 0, i_MemoryLimit = 0, i_DiskLimit = 0,
     i_Config = None, i_CreatedAt = 0, i_UpdatedAt = 0\<rparr>"

definition zero_cluster :: cluster where
  "zero_cluster = \<lparr>c_ID = '''', c_Name = '''', c_LXDEndpoint = '''',
     c_HyperscalerProvider = '''', c_HyperscalerConfig = None, c_ScalingConfig = None,
     c_Status = '''', c_CreatedAt = 0, c_UpdatedAt = 0\<rparr>"

text \<open>A record up to the fields that the store assigns on every write.\<close>

definition node_data :: "node \<Rightarrow> node" where
  "node_data n = n\<lparr>n_CreatedAt := 0, n_UpdatedAt := 0\<rparr>"

definition inst_data :: "inst \<Rightarrow> inst" where
  "inst_data i = i\<lparr>i_CreatedAt := 0, i_UpdatedAt := 0\<rparr>"

definition cluster_data :: "cluster \<Rightarrow> cluster" where
  "cluster_data c = c\<lparr>c_CreatedAt := 0, c_UpdatedAt := 0\<rparr>"

lemma node_data_fields:
  "node_data m = node_data n \<Longrightarrow> n_ID m = n_ID n \<and> n_ClusterID m = n_ClusterID n \<and>
     n_Name m = n_Name n \<and> n_LXDMemberName m = n_LXDMemberName n \<and>
     n_HyperscalerServerID m = n_HyperscalerServerID n \<and> n_CPUCores m = n_CPUCores n \<and>
     n_MemoryBytes m = n_MemoryBytes n \<and> n_DiskBytes m = n_DiskBytes n \<and>
     n_Status m = n_Status n"
  by (cases m; cases n) (simp add: node_data_def)

lemma inst_data_fields:
  "inst_data i = inst_data j \<Longrightarrow> i_ID i = i_ID j \<and> i_ClusterID i = i_ClusterID j \<and>
     i_NodeID i = i_NodeID j \<and> i_Name i = i_Name j \<and> i_InstanceType i = i_InstanceType j \<and>
     i_Status i = i_Status j \<and> i_CPULimit i = i_CPULimit j \<and>
     i_MemoryLimit i = i_MemoryLimit j \<and> i_DiskLimit i = i_DiskLimit j \<and>
     i_Config i = i_Config j"
  by (cases i; cases j) (simp add: inst_data_def)

end
