(* ===== verification/Repository.thy ===== *)
theory Repository
  imports Model
begin

section \<open>The data access boundary (internal/persistence)\<close>

text \<open>
  The repository interfaces of \<open>repository.go\<close>. A Go interface value is a record of its methods,
  each a function on the state \<open>'w\<close> behind it; clients take such a record as an argument, as the
  Go code takes the interface. The locales state what a client may rely on: an abstract table
  (a map from ID to row), an invariant of the state, and how each method changes the table. \<open>rest\<close>
  is the part of the state that the methods leave alone.
\<close>

record 'w cluster_repository =
  ListClusters :: "'w \<Rightarrow> cluster list res \<times> 'w"
  GetCluster :: "string \<Rightarrow> 'w \<Rightarrow> cluster res \<times> 'w"
  CreateCluster :: "cluster \<Rightarrow> 'w \<Rightarrow> cluster res \<times> 'w"
  UpdateCluster :: "cluster \<Rightarrow> 'w \<Rightarrow> cluster res \<times> 'w"
  DeleteCluster :: "string \<Rightarrow> 'w \<Rightarrow> go_error option \<times> 'w"

record 'w node_repository =
  ListNodes :: "string \<Rightarrow> 'w \<Rightarrow> node list res \<times> 'w"
  GetNode :: "string \<Rightarrow> 'w \<Rightarrow> node res \<times> 'w"
  CreateNode :: "node \<Rightarrow> 'w \<Rightarrow> node res \<times> 'w"
  UpdateNode :: "node \<Rightarrow> 'w \<Rightarrow> node res \<times> 'w"
  DeleteNode :: "string \<Rightarrow> 'w \<Rightarrow> go_error option \<times> 'w"

record 'w instance_repository =
  ListInstances :: "string \<Rightarrow> 'w \<Rightarrow> inst list res \<times> 'w"
  GetInstance :: "string \<Rightarrow> 'w \<Rightarrow> inst res \<times> 'w"
  CreateInstance :: "inst \<Rightarrow> 'w \<Rightarrow> inst res \<times> 'w"
  UpdateInstance :: "inst \<Rightarrow> 'w \<Rightarrow> inst res \<times> 'w"
  DeleteInstance :: "string \<Rightarrow> 'w \<Rightarrow> go_error option \<times> 'w"

record 'w bootstrap_locker =
  TryLock :: "'w \<Rightarrow> bool res \<times> 'w"
  Unlock :: "'w \<Rightarrow> go_error option \<times> 'w"

subsection \<open>The contracts\<close>

locale cluster_repo =
  fixes R :: "'w cluster_repository"
    and clusters :: "'w \<Rightarrow> string \<Rightarrow> cluster option"
    and inv :: "'w \<Rightarrow> bool"
    and rest :: "'w \<Rightarrow> 'r"
  assumes cluster_key: "inv w \<Longrightarrow> clusters w k = Some c \<Longrightarrow> c_ID c = k"
    and cluster_name: "inv w \<Longrightarrow> clusters w k = Some c \<Longrightarrow> clusters w k' = Some c' \<Longrightarrow>
          c_Name c = c_Name c' \<Longrightarrow> k = k'"
    and list_frame: "inv w \<Longrightarrow> ListClusters R w = (r, w') \<Longrightarrow>
          inv w' \<and> rest w' = rest w \<and> clusters w' = clusters w"
    and list_ok: "inv w \<Longrightarrow> ListClusters R w = (Inr cs, w') \<Longrightarrow>
          set cs = ran (clusters w) \<and> distinct (map c_ID cs)"
    and get_frame: "inv w \<Longrightarrow> GetCluster R k w = (rg, w') \<Longrightarrow>
          inv w' \<and> rest w' = rest w \<and> clusters w' = clusters w"
    and get_ok: "inv w \<Longrightarrow> GetCluster R k w = (Inr c, w') \<Longrightarrow> clusters w k = Some c"
    and create_ok: "inv w \<Longrightarrow> CreateCluster R c w = (Inr c', w') \<Longrightarrow>
          inv w' \<and> rest w' = rest w \<and> clusters w (c_ID c') = None \<and>
          clusters w' = (clusters w)(c_ID c' \<mapsto> c') \<and>
          cluster_data c' = cluster_data (c\<lparr>c_ID := c_ID c'\<rparr>)"
    and create_err: "inv w \<Longrightarrow> CreateCluster R c w = (Inl e, w') \<Longrightarrow>
          inv w' \<and> rest w' = rest w \<and> clusters w' = clusters w"
    and update_ok: "inv w \<Longrightarrow> UpdateCluster R c w = (Inr c', w') \<Longrightarrow>
          inv w' \<and> rest w' = rest w \<and> clusters w' = (clusters w)(c_ID c \<mapsto> c') \<and>
          cluster_data c' = cluster_data c \<and>
          (\<exists>old. clusters w (c_ID c) = Some old \<and> c_CreatedAt c' = c_CreatedAt old)"
    and update_err: "inv w \<Longrightarrow> UpdateCluster R c w = (Inl e, w') \<Longrightarrow>
          inv w' \<and> rest w' = rest w \<and> clusters w' = clusters w"
    and delete_ok: "inv w \<Longrightarrow> DeleteCluster R k w = (None, w') \<Longrightarrow>
          inv w' \<and> rest w' = rest w \<and> clusters w k \<noteq> None \<and> clusters w' = (clusters w)(k := None)"
    and delete_err: "inv w \<Longrightarrow> DeleteCluster R k w = (Some e, w') \<Longrightarrow>
          inv w' \<and> rest w' = rest w \<and> clusters w' = clusters w"

locale node_repo =
  fixes R :: "'w node_repository"
    and nodes :: "'w \<Rightarrow> string \<Rightarrow> node option"
    and inv :: "'w \<Rightarrow> bool"
    and rest :: "'w \<Rightarrow> 'r"
  assumes node_key: "inv w \<Longrightarrow> nodes w k = Some n \<Longrightarrow> n_ID n = k"
    and node_name: "inv w \<Longrightarrow> nodes w k = Some n \<Longrightarrow> nodes w k' = Some n' \<Longrightarrow>
          n_ClusterID n = n_ClusterID n' \<Longrightarrow> n_Name n = n_Name n' \<Longrightarrow> k = k'"
    and list_frame: "inv w \<Longrightarrow> ListNodes R c w = (r, w') \<Longrightarrow>
          inv w' \<and> rest w' = rest w \<and> nodes w' = nodes w"
    and list_ok: "inv w \<Longrightarrow> ListNodes R c w = (Inr ns, w') \<Longrightarrow>
          set ns = {n \<in> ran (nodes w). n_ClusterID n = c} \<and> distinct (map n_ID ns)"
    and create_ok: "inv w \<Longrightarrow> CreateNode R n w = (Inr n', w') \<Longrightarrow>
          inv w' \<and> rest w' = rest w \<and> nodes w (n_ID n') = None \<and>
          nodes w' = (nodes w)(n_ID n' \<mapsto> n') \<and> node_data n' = node_data (n\<lparr>n_ID := n_ID n'\<rparr>)"
    and create_err: "inv w \<Longrightarrow> CreateNode R n w = (Inl e, w') \<Longrightarrow>
          inv w' \<and> rest w' = rest w \<and> nodes w' = nodes w"
    and update_ok: "inv w \<Longrightarrow> UpdateNode R n w = (Inr n', w') \<Longrightarrow>
          inv w' \<and> rest w' = rest w \<and> nodes w' = (nodes w)(n_ID n \<mapsto> n') \<and>
          node_data n' = node_data n \<and>
          (\<exists>old. nodes w (n_ID n) = Some old \<and> n_CreatedAt n' = n_CreatedAt old)"
    and update_err: "inv w \<Longrightarrow> UpdateNode R n w = (Inl e, w') \<Longrightarrow>
          inv w' \<and> rest w' = rest w \<and> nodes w' = nodes w"

text \<open>A repository that is always reachable and has no constraints on the values of a row: listing never
  fails, and an update fails only for a missing row or a taken name.\<close>

locale lenient_node_repo = node_repo +
  assumes update_total: "inv w \<Longrightarrow> nodes w (n_ID n) \<noteq> None \<Longrightarrow>
      (\<And>k m. nodes w k = Some m \<Longrightarrow> n_ClusterID m = n_ClusterID n \<Longrightarrow> n_Name m = n_Name n \<Longrightarrow>
         k = n_ID n) \<Longrightarrow> \<exists>n' w'. UpdateNode R n w = (Inr n', w')"
    and list_total: "inv w \<Longrightarrow> \<exists>ns w'. ListNodes R c w = (Inr ns, w')"

locale instance_repo =
  fixes R :: "'w instance_repository"
    and insts :: "'w \<Rightarrow> string \<Rightarrow> inst option"
    and inv :: "'w \<Rightarrow> bool"
    and rest :: "'w \<Rightarrow> 'r"
  assumes inst_key: "inv w \<Longrightarrow> insts w k = Some i \<Longrightarrow> i_ID i = k"
    and inst_name: "inv w \<Longrightarrow> insts w k = Some i \<Longrightarrow> insts w k' = Some i' \<Longrightarrow>
          i_ClusterID i = i_ClusterID i' \<Longrightarrow> i_Name i = i_Name i' \<Longrightarrow> k = k'"
    and list_frame: "inv w \<Longrightarrow> ListInstances R c w = (r, w') \<Longrightarrow>
          inv w' \<and> rest w' = rest w \<and> insts w' = insts w"
    and list_ok: "inv w \<Longrightarrow> ListInstances R c w = (Inr is, w') \<Longrightarrow>
          set is = {i \<in> ran (insts w). i_ClusterID i = c} \<and> distinct (map i_ID is)"
    and create_ok: "inv w \<Longrightarrow> CreateInstance R i w = (Inr i', w') \<Longrightarrow>
          inv w' \<and> rest w' = rest w \<and> insts w (i_ID i') = None \<and>
          insts w' = (insts w)(i_ID i' \<mapsto> i') \<and> inst_data i' = inst_data (i\<lparr>i_ID := i_ID i'\<rparr>)"
    and create_err: "inv w \<Longrightarrow> CreateInstance R i w = (Inl e, w') \<Longrightarrow>
          inv w' \<and> rest w' = rest w \<and> insts w' = insts w"
    and update_ok: "inv w \<Longrightarrow> UpdateInstance R i w = (Inr i', w') \<Longrightarrow>
          inv w' \<and> rest w' = rest w \<and> insts w' = (insts w)(i_ID i \<mapsto> i') \<and>
          inst_data i' = inst_data i \<and>
          (\<exists>old. insts w (i_ID i) = Some old \<and> i_CreatedAt i' = i_CreatedAt old)"
    and update_err: "inv w \<Longrightarrow> UpdateInstance R i w = (Inl e, w') \<Longrightarrow>
          inv w' \<and> rest w' = rest w \<and> insts w' = insts w"

locale lenient_instance_repo = instance_repo +
  assumes update_total: "inv w \<Longrightarrow> insts w (i_ID i) \<noteq> None \<Longrightarrow>
      (\<And>k j. insts w k = Some j \<Longrightarrow> i_ClusterID j = i_ClusterID i \<Longrightarrow> i_Name j = i_Name i \<Longrightarrow>
         k = i_ID i) \<Longrightarrow> \<exists>i' w'. UpdateInstance R i w = (Inr i', w')"
    and list_total: "inv w \<Longrightarrow> \<exists>is w'. ListInstances R c w = (Inr is, w')"

text \<open>The lock: at most one holder; \<open>held\<close> tells whether someone holds it.\<close>

locale locker =
  fixes L :: "'w bootstrap_locker"
    and held :: "'w \<Rightarrow> bool"
    and rest :: "'w \<Rightarrow> 'r"
  assumes try_true: "TryLock L w = (Inr True, w') \<Longrightarrow> \<not> held w \<and> held w' \<and> rest w' = rest w"
    and try_false: "TryLock L w = (Inr False, w') \<Longrightarrow> held w \<and> held w' \<and> rest w' = rest w"
    and try_err: "TryLock L w = (Inl e, w') \<Longrightarrow> held w' = held w \<and> rest w' = rest w"
    and unlock_ok: "Unlock L w = (None, w') \<Longrightarrow> \<not> held w' \<and> rest w' = rest w"
    and unlock_err: "Unlock L w = (Some e, w') \<Longrightarrow> rest w' = rest w"

text \<open>
  Several managers contend for one lock through objects of their own. \<open>holds k\<close> tells that manager \<open>k\<close> may believe
  to hold it. One shared object is the special case of a \<open>locker\<close>.
\<close>

locale lockers =
  fixes L :: "nat \<Rightarrow> 'w bootstrap_locker"
    and holds :: "nat \<Rightarrow> 'w \<Rightarrow> bool"
    and inv :: "'w \<Rightarrow> bool"
    and rest :: "'w \<Rightarrow> 'r"
  assumes try_true: "inv w \<Longrightarrow> TryLock (L k) w = (Inr True, w') \<Longrightarrow>
          inv w' \<and> rest w' = rest w \<and> (\<forall>j. \<not> holds j w) \<and> holds k w'"
    and try_not: "inv w \<Longrightarrow> TryLock (L k) w = (r, w') \<Longrightarrow> r \<noteq> Inr True \<Longrightarrow>
          inv w' \<and> rest w' = rest w \<and> (\<forall>j. holds j w' = holds j w)"
    and unlock: "inv w \<Longrightarrow> Unlock (L k) w = (u, w') \<Longrightarrow> inv w' \<and> rest w' = rest w"

sublocale locker \<subseteq> shared: lockers "\<lambda>_. L" "\<lambda>_. held" "\<lambda>_. True" rest
proof (unfold_locales, goal_cases)
  case (1 w k w')
  then show ?case using try_true [of w w'] by simp
next
  case (2 w k r w')
  show ?case
  proof (cases r)
    case (Inl e)
    with 2 try_err [of w e w'] show ?thesis by simp
  next
    case (Inr b)
    with 2 try_false [of w w'] show ?thesis by (cases b) simp_all
  qed
next
  case (3 w k u w')
  then show ?case using unlock_ok [of w w'] unlock_err [of w _ w'] by (cases u) auto
qed

end
