(* ===== verification/Memory_Store.thy ===== *)
theory Memory_Store
  imports Repository
begin

unbundle bit_operations_syntax

section \<open>The in-memory repositories (internal/persistence/memory)\<close>

text \<open>
  The stores of \<open>memory.go\<close> and the lock of \<open>lock.go\<close> on one state record \<open>mem\<close>: the three row maps,
  the lock flag and the operating system's clock and random source. A method holds its store's
  mutex from start to end, so it is one atomic step here. The record can be extended, and every
  method works on the extension too (a world with more components).
\<close>

subsection \<open>Clock and random source\<close>

text \<open>Reading the clock or the random source advances \<open>env_tick\<close>; \<open>env_rand\<close> is \<open>None\<close> where
  \<open>rand.Read\<close> fails and otherwise gives the bytes it delivers.\<close>

record env =
  env_tick :: nat
  env_time :: "nat \<Rightarrow> time"
  env_rand :: "nat \<Rightarrow> (nat \<Rightarrow> byte) option"

definition time_now :: "env \<Rightarrow> time \<times> env" where
  "time_now e = (env_time e (env_tick e), e\<lparr>env_tick := Suc (env_tick e)\<rparr>)"

definition rand_read :: "nat \<Rightarrow> env \<Rightarrow> byte list res \<times> env" where
  "rand_read k e =
     (case env_rand e (env_tick e) of
        None \<Rightarrow> Inl (Errors_New ''rand: read failed'')
      | Some f \<Rightarrow> Inr (map f [0..<k]),
      e\<lparr>env_tick := Suc (env_tick e)\<rparr>)"

text \<open>The UUID text of 16 random bytes, with the version and variant bits set.\<close>

definition uuid_text :: "byte list \<Rightarrow> string" where
  "uuid_text bs =
     (let b = bs[6 := (bs ! 6 AND 0x0f) OR 0x40];
          b = b[8 := (b ! 8 AND 0x3f) OR 0x80]
      in hex_bytes (take 4 b) @ ''-'' @ hex_bytes (take 2 (drop 4 b)) @ ''-'' @
         hex_bytes (take 2 (drop 6 b)) @ ''-'' @ hex_bytes (take 2 (drop 8 b)) @ ''-'' @
         hex_bytes (drop 10 b))"

definition newUUID :: "env \<Rightarrow> string res \<times> env" where
  "newUUID e =
     (case rand_read 16 e of
        (Inl err, e') \<Rightarrow> (Inl (Wrapf ''memory: generate UUID: %w'' [] err), e')
      | (Inr b, e') \<Rightarrow> (Inr (uuid_text b), e'))"

subsection \<open>The state\<close>

text \<open>A Go map of rows is an association list whose order stands for the order in which the map is ranged over: a
  listing has the rows in this order, everything else depends on the map only. \<open>mem_step\<close> lets the order change between calls.\<close>

record mem =
  mem_clusters :: "(string \<times> cluster) list"
  mem_nodes :: "(string \<times> node) list"
  mem_insts :: "(string \<times> inst) list"
  mem_locked :: bool
  mem_env :: env

definition conflict_error :: "string \<Rightarrow> string list \<Rightarrow> go_error" where
  "conflict_error f as = Wrapf f as (Sentinel (PersistenceErr ErrConflict))"

definition not_found_error :: go_error where
  "not_found_error = Sentinel (PersistenceErr ErrNotFound)"

subsection \<open>ClusterStore\<close>

definition ClusterStore_ListClusters :: "'z mem_scheme \<Rightarrow> cluster list res \<times> 'z mem_scheme" where
  "ClusterStore_ListClusters s = (Inr (map snd (mem_clusters s)), s)"

definition ClusterStore_GetCluster :: "string \<Rightarrow> 'z mem_scheme \<Rightarrow> cluster res \<times> 'z mem_scheme" where
  "ClusterStore_GetCluster i s =
     (case map_of (mem_clusters s) i of None \<Rightarrow> Inl not_found_error | Some c \<Rightarrow> Inr c, s)"

definition ClusterStore_CreateCluster ::
    "cluster \<Rightarrow> 'z mem_scheme \<Rightarrow> cluster res \<times> 'z mem_scheme" where
  "ClusterStore_CreateCluster c s =
     (if list_ex (\<lambda>(_, existing). c_Name existing = c_Name c) (mem_clusters s)
      then (Inl (conflict_error ''%w: cluster name %q already exists'' [c_Name c]), s)
      else
        let (now, e1) = time_now (mem_env s) in
        case newUUID e1 of
          (Inl err, e2) \<Rightarrow> (Inl err, s\<lparr>mem_env := e2\<rparr>)
        | (Inr uid, e2) \<Rightarrow>
            let stored = c\<lparr>c_ID := uid, c_CreatedAt := now, c_UpdatedAt := now\<rparr>
            in (Inr stored,
                s\<lparr>mem_clusters := AList.update (c_ID stored) stored (mem_clusters s),
                  mem_env := e2\<rparr>))"

definition ClusterStore_UpdateCluster ::
    "cluster \<Rightarrow> 'z mem_scheme \<Rightarrow> cluster res \<times> 'z mem_scheme" where
  "ClusterStore_UpdateCluster c s =
     (case map_of (mem_clusters s) (c_ID c) of
        None \<Rightarrow> (Inl not_found_error, s)
      | Some existing \<Rightarrow>
          if list_ex (\<lambda>(_, row). c_ID row \<noteq> c_ID c \<and> c_Name row = c_Name c) (mem_clusters s)
          then (Inl (conflict_error ''%w: cluster name %q already exists'' [c_Name c]), s)
          else
            let (now, e1) = time_now (mem_env s);
                stored = c\<lparr>c_CreatedAt := c_CreatedAt existing, c_UpdatedAt := now\<rparr>
            in (Inr stored,
                s\<lparr>mem_clusters := AList.update (c_ID stored) stored (mem_clusters s),
                  mem_env := e1\<rparr>))"

definition ClusterStore_DeleteCluster ::
    "string \<Rightarrow> 'z mem_scheme \<Rightarrow> go_error option \<times> 'z mem_scheme" where
  "ClusterStore_DeleteCluster i s =
     (case map_of (mem_clusters s) i of
        None \<Rightarrow> (Some not_found_error, s)
      | Some _ \<Rightarrow> (None, s\<lparr>mem_clusters := AList.delete i (mem_clusters s)\<rparr>))"

subsection \<open>NodeStore\<close>

definition NodeStore_ListNodes :: "string \<Rightarrow> 'z mem_scheme \<Rightarrow> node list res \<times> 'z mem_scheme" where
  "NodeStore_ListNodes clusterID s =
     (Inr (filter (\<lambda>n. n_ClusterID n = clusterID) (map snd (mem_nodes s))), s)"

definition NodeStore_GetNode :: "string \<Rightarrow> 'z mem_scheme \<Rightarrow> node res \<times> 'z mem_scheme" where
  "NodeStore_GetNode i s =
     (case map_of (mem_nodes s) i of None \<Rightarrow> Inl not_found_error | Some n \<Rightarrow> Inr n, s)"

definition NodeStore_CreateNode :: "node \<Rightarrow> 'z mem_scheme \<Rightarrow> node res \<times> 'z mem_scheme" where
  "NodeStore_CreateNode n s =
     (if list_ex (\<lambda>(_, existing). n_ClusterID existing = n_ClusterID n \<and> n_Name existing = n_Name n)
           (mem_nodes s)
      then (Inl (conflict_error ''%w: node name %q already exists in cluster %s''
                   [n_Name n, n_ClusterID n]), s)
      else
        let (now, e1) = time_now (mem_env s) in
        case newUUID e1 of
          (Inl err, e2) \<Rightarrow> (Inl err, s\<lparr>mem_env := e2\<rparr>)
        | (Inr uid, e2) \<Rightarrow>
            let stored = n\<lparr>n_ID := uid, n_CreatedAt := now, n_UpdatedAt := now\<rparr>
            in (Inr stored,
                s\<lparr>mem_nodes := AList.update (n_ID stored) stored (mem_nodes s), mem_env := e2\<rparr>))"

definition NodeStore_UpdateNode :: "node \<Rightarrow> 'z mem_scheme \<Rightarrow> node res \<times> 'z mem_scheme" where
  "NodeStore_UpdateNode n s =
     (case map_of (mem_nodes s) (n_ID n) of
        None \<Rightarrow> (Inl not_found_error, s)
      | Some existing \<Rightarrow>
          if list_ex (\<lambda>(_, row). n_ID row \<noteq> n_ID n \<and> n_ClusterID row = n_ClusterID n \<and>
                       n_Name row = n_Name n) (mem_nodes s)
          then (Inl (conflict_error ''%w: node name %q already exists in cluster %s''
                       [n_Name n, n_ClusterID n]), s)
          else
            let (now, e1) = time_now (mem_env s);
                stored = n\<lparr>n_CreatedAt := n_CreatedAt existing, n_UpdatedAt := now\<rparr>
            in (Inr stored,
                s\<lparr>mem_nodes := AList.update (n_ID stored) stored (mem_nodes s), mem_env := e1\<rparr>))"

definition NodeStore_DeleteNode :: "string \<Rightarrow> 'z mem_scheme \<Rightarrow> go_error option \<times> 'z mem_scheme" where
  "NodeStore_DeleteNode i s =
     (case map_of (mem_nodes s) i of
        None \<Rightarrow> (Some not_found_error, s)
      | Some _ \<Rightarrow> (None, s\<lparr>mem_nodes := AList.delete i (mem_nodes s)\<rparr>))"

subsection \<open>InstanceStore\<close>

definition InstanceStore_ListInstances ::
    "string \<Rightarrow> 'z mem_scheme \<Rightarrow> inst list res \<times> 'z mem_scheme" where
  "InstanceStore_ListInstances clusterID s =
     (Inr (filter (\<lambda>i. i_ClusterID i = clusterID) (map snd (mem_insts s))), s)"

definition InstanceStore_GetInstance :: "string \<Rightarrow> 'z mem_scheme \<Rightarrow> inst res \<times> 'z mem_scheme" where
  "InstanceStore_GetInstance k s =
     (case map_of (mem_insts s) k of None \<Rightarrow> Inl not_found_error | Some i \<Rightarrow> Inr i, s)"

definition InstanceStore_CreateInstance :: "inst \<Rightarrow> 'z mem_scheme \<Rightarrow> inst res \<times> 'z mem_scheme" where
  "InstanceStore_CreateInstance i s =
     (if list_ex (\<lambda>(_, existing). i_ClusterID existing = i_ClusterID i \<and> i_Name existing = i_Name i)
           (mem_insts s)
      then (Inl (conflict_error ''%w: instance name %q already exists in cluster %s''
                   [i_Name i, i_ClusterID i]), s)
      else
        let (now, e1) = time_now (mem_env s) in
        case newUUID e1 of
          (Inl err, e2) \<Rightarrow> (Inl err, s\<lparr>mem_env := e2\<rparr>)
        | (Inr uid, e2) \<Rightarrow>
            let stored = i\<lparr>i_ID := uid, i_CreatedAt := now, i_UpdatedAt := now\<rparr>
            in (Inr stored,
                s\<lparr>mem_insts := AList.update (i_ID stored) stored (mem_insts s), mem_env := e2\<rparr>))"

definition InstanceStore_UpdateInstance :: "inst \<Rightarrow> 'z mem_scheme \<Rightarrow> inst res \<times> 'z mem_scheme" where
  "InstanceStore_UpdateInstance i s =
     (case map_of (mem_insts s) (i_ID i) of
        None \<Rightarrow> (Inl not_found_error, s)
      | Some existing \<Rightarrow>
          if list_ex (\<lambda>(_, row). i_ID row \<noteq> i_ID i \<and> i_ClusterID row = i_ClusterID i \<and>
                       i_Name row = i_Name i) (mem_insts s)
          then (Inl (conflict_error ''%w: instance name %q already exists in cluster %s''
                       [i_Name i, i_ClusterID i]), s)
          else
            let (now, e1) = time_now (mem_env s);
                stored = i\<lparr>i_CreatedAt := i_CreatedAt existing, i_UpdatedAt := now\<rparr>
            in (Inr stored,
                s\<lparr>mem_insts := AList.update (i_ID stored) stored (mem_insts s), mem_env := e1\<rparr>))"

definition InstanceStore_DeleteInstance ::
    "string \<Rightarrow> 'z mem_scheme \<Rightarrow> go_error option \<times> 'z mem_scheme" where
  "InstanceStore_DeleteInstance k s =
     (case map_of (mem_insts s) k of
        None \<Rightarrow> (Some not_found_error, s)
      | Some _ \<Rightarrow> (None, s\<lparr>mem_insts := AList.delete k (mem_insts s)\<rparr>))"

subsection \<open>Lock\<close>

definition Lock_TryLock :: "'z mem_scheme \<Rightarrow> bool res \<times> 'z mem_scheme" where
  "Lock_TryLock s = (if mem_locked s then (Inr False, s) else (Inr True, s\<lparr>mem_locked := True\<rparr>))"

definition Lock_Unlock :: "'z mem_scheme \<Rightarrow> go_error option \<times> 'z mem_scheme" where
  "Lock_Unlock s = (None, s\<lparr>mem_locked := False\<rparr>)"

subsection \<open>The interface values\<close>

definition memory_clusters :: "'z mem_scheme cluster_repository" where
  "memory_clusters = \<lparr>ListClusters = ClusterStore_ListClusters, GetCluster = ClusterStore_GetCluster,
     CreateCluster = ClusterStore_CreateCluster, UpdateCluster = ClusterStore_UpdateCluster,
     DeleteCluster = ClusterStore_DeleteCluster\<rparr>"

definition memory_nodes :: "'z mem_scheme node_repository" where
  "memory_nodes = \<lparr>ListNodes = NodeStore_ListNodes, GetNode = NodeStore_GetNode,
     CreateNode = NodeStore_CreateNode, UpdateNode = NodeStore_UpdateNode,
     DeleteNode = NodeStore_DeleteNode\<rparr>"

definition memory_instances :: "'z mem_scheme instance_repository" where
  "memory_instances = \<lparr>ListInstances = InstanceStore_ListInstances,
     GetInstance = InstanceStore_GetInstance, CreateInstance = InstanceStore_CreateInstance,
     UpdateInstance = InstanceStore_UpdateInstance, DeleteInstance = InstanceStore_DeleteInstance\<rparr>"

definition memory_lock :: "'z mem_scheme bootstrap_locker" where
  "memory_lock = \<lparr>TryLock = Lock_TryLock, Unlock = Lock_Unlock\<rparr>"

section \<open>The tables and their invariant\<close>

text \<open>
  A row map is well formed when its keys are distinct, each row is filed under its own ID, and no
  two rows agree on the unique key (the name, or cluster and name). The random source is fresh when
  every UUID it will still deliver is unused and differs from every later one; where it delivers
  nothing (\<open>None\<close>) nothing is asked.
\<close>

definition rows_wf :: "('a \<Rightarrow> string) \<Rightarrow> ('a \<Rightarrow> 'k) \<Rightarrow> (string \<times> 'a) list \<Rightarrow> bool" where
  "rows_wf rid ukey rows \<longleftrightarrow>
     distinct (map fst rows) \<and> (\<forall>(k, v) \<in> set rows. rid v = k) \<and>
     (\<forall>(k, v) \<in> set rows. \<forall>(k', v') \<in> set rows. ukey v = ukey v' \<longrightarrow> k = k')"

definition node_ukey :: "node \<Rightarrow> string \<times> string" where
  "node_ukey n = (n_ClusterID n, n_Name n)"

definition inst_ukey :: "inst \<Rightarrow> string \<times> string" where
  "inst_ukey i = (i_ClusterID i, i_Name i)"

definition used_ids :: "'z mem_scheme \<Rightarrow> string set" where
  "used_ids s = fst ` set (mem_clusters s) \<union> fst ` set (mem_nodes s) \<union> fst ` set (mem_insts s)"

definition uuid_at :: "env \<Rightarrow> nat \<Rightarrow> string option" where
  "uuid_at e t = map_option (\<lambda>f. uuid_text (map f [0..<16])) (env_rand e t)"

definition fresh_supply :: "'z mem_scheme \<Rightarrow> bool" where
  "fresh_supply s \<longleftrightarrow>
     (\<forall>i u. env_tick (mem_env s) \<le> i \<longrightarrow> uuid_at (mem_env s) i = Some u \<longrightarrow>
        u \<notin> used_ids s \<and> (\<forall>j > i. uuid_at (mem_env s) j \<noteq> Some u))"

definition mem_inv :: "'z mem_scheme \<Rightarrow> bool" where
  "mem_inv s \<longleftrightarrow>
     rows_wf c_ID c_Name (mem_clusters s) \<and> rows_wf n_ID node_ukey (mem_nodes s) \<and>
     rows_wf i_ID inst_ukey (mem_insts s) \<and> fresh_supply s"

lemma rows_wf_Nil [simp]: "rows_wf rid ukey []"
  by (simp add: rows_wf_def)

lemma rows_wf_distinct: "rows_wf rid ukey rows \<Longrightarrow> distinct (map fst rows)"
  by (simp add: rows_wf_def)

lemma rows_wf_key: "rows_wf rid ukey rows \<Longrightarrow> map_of rows k = Some v \<Longrightarrow> rid v = k"
  by (auto simp: rows_wf_def dest!: map_of_SomeD)

lemma rows_wf_unique:
  "rows_wf rid ukey rows \<Longrightarrow> map_of rows k = Some v \<Longrightarrow> map_of rows k' = Some v' \<Longrightarrow>
     ukey v = ukey v' \<Longrightarrow> k = k'"
  by (fastforce simp: rows_wf_def dest!: map_of_SomeD)

lemma rows_wf_set:
  "rows_wf rid ukey rows \<Longrightarrow> (k, v) \<in> set rows \<longleftrightarrow> map_of rows k = Some v"
  by (simp add: rows_wf_def)

lemma rows_wf_update:
  assumes "rows_wf rid ukey rows" and "rid v = k"
    and "\<And>k' v'. (k', v') \<in> set rows \<Longrightarrow> ukey v' = ukey v \<Longrightarrow> k' = k"
  shows "rows_wf rid ukey (AList.update k v rows)"
proof -
  have upd: "p \<in> set (AList.update k v rows) \<longleftrightarrow> p = (k, v) \<or> p \<in> set rows \<and> fst p \<noteq> k" for p
    using assms(1) by (auto simp: rows_wf_def set_alist_update)
  have old: "k1 = k2" if "(k1, v1) \<in> set rows" "(k2, v2) \<in> set rows" "ukey v1 = ukey v2"
    for k1 v1 k2 v2
    using assms(1) that unfolding rows_wf_def by blast
  have "k1 = k2" if "(k1, v1) \<in> set (AList.update k v rows)"
    "(k2, v2) \<in> set (AList.update k v rows)" "ukey v1 = ukey v2" for k1 v1 k2 v2
    using that assms(3) old unfolding upd by (metis prod.inject)
  moreover have "rid v' = k'" if "(k', v') \<in> set (AList.update k v rows)" for k' v'
    using that assms(1,2) by (auto simp: upd rows_wf_def)
  moreover have "distinct (map fst (AList.update k v rows))"
    using assms(1) by (simp add: rows_wf_def)
  ultimately show ?thesis unfolding rows_wf_def by (intro conjI ballI) (auto split: prod.splits)
qed

lemma rows_wf_delete: "rows_wf rid ukey rows \<Longrightarrow> rows_wf rid ukey (AList.delete k rows)"
  by (auto simp: rows_wf_def set_alist_delete)

lemma rows_wf_ids: "rows_wf rid ukey rows \<Longrightarrow> map rid (map snd rows) = map fst rows"
  by (auto simp: rows_wf_def)

lemma rows_wf_values:
  assumes "rows_wf rid ukey rows"
  shows "set (filter P (map snd rows)) = {v \<in> ran (map_of rows). P v}"
    and "distinct (map rid (filter P (map snd rows)))"
proof -
  show "set (filter P (map snd rows)) = {v \<in> ran (map_of rows). P v}"
    using rows_wf_distinct [OF assms] by (auto simp: ran_map_of)
  have "distinct (map rid (map snd rows))"
    using assms by (simp only: rows_wf_ids rows_wf_distinct)
  then show "distinct (map rid (filter P (map snd rows)))" by (rule distinct_map_filter)
qed

subsection \<open>Clock and random source\<close>

lemma time_now_simps [simp]:
  "fst (time_now e) = env_time e (env_tick e)"
  "snd (time_now e) = e\<lparr>env_tick := Suc (env_tick e)\<rparr>"
  by (simp_all add: time_now_def)

lemma uuid_at_tick [simp]: "uuid_at (e\<lparr>env_tick := t\<rparr>) = uuid_at e"
  by (simp add: uuid_at_def fun_eq_iff)

lemma newUUID_eq:
  "newUUID e =
     (case uuid_at e (env_tick e) of
        None \<Rightarrow> Inl (Wrapf ''memory: generate UUID: %w'' [] (Errors_New ''rand: read failed''))
      | Some u \<Rightarrow> Inr u, e\<lparr>env_tick := Suc (env_tick e)\<rparr>)"
  by (simp add: newUUID_def rand_read_def uuid_at_def split: option.splits)

lemma fresh_supply_step:
  assumes "fresh_supply s" and "uuid_at (mem_env t) = uuid_at (mem_env s)"
    and "env_tick (mem_env s) \<le> env_tick (mem_env t)"
    and "\<And>u. u \<in> used_ids t \<Longrightarrow> u \<in> used_ids s \<or>
           (\<exists>i \<ge> env_tick (mem_env s). i < env_tick (mem_env t) \<and> uuid_at (mem_env s) i = Some u)"
  shows "fresh_supply t"
  unfolding fresh_supply_def assms(2)
proof (intro allI impI conjI)
  fix i u
  assume i: "env_tick (mem_env t) \<le> i" "uuid_at (mem_env s) i = Some u"
  with assms(1,3) have f: "u \<notin> used_ids s" "\<forall>j > i. uuid_at (mem_env s) j \<noteq> Some u"
    unfolding fresh_supply_def by (meson order_trans)+
  show "uuid_at (mem_env s) j \<noteq> Some u" if "i < j" for j using f that by blast
  show "u \<notin> used_ids t"
  proof
    assume "u \<in> used_ids t"
    with f(1) assms(4) obtain j where j: "env_tick (mem_env s) \<le> j" "j < env_tick (mem_env t)"
      "uuid_at (mem_env s) j = Some u" by blast
    with assms(1) i show False unfolding fresh_supply_def by (metis order_less_le_trans)
  qed
qed

lemma fresh_supply_unused:
  "fresh_supply s \<Longrightarrow> env_tick (mem_env s) \<le> i \<Longrightarrow> uuid_at (mem_env s) i = Some u \<Longrightarrow> u \<notin> used_ids s"
  by (auto simp: fresh_supply_def)

section \<open>What each method does to the state\<close>

lemma Cluster_Create_Inr:
  assumes "ClusterStore_CreateCluster x s = (Inr y, s')"
  obtains u where "uuid_at (mem_env s) (Suc (env_tick (mem_env s))) = Some u"
    and "y = x\<lparr>c_ID := u, c_CreatedAt := env_time (mem_env s) (env_tick (mem_env s)),
                c_UpdatedAt := env_time (mem_env s) (env_tick (mem_env s))\<rparr>"
    and "s' = s\<lparr>mem_clusters := AList.update u y (mem_clusters s),
                mem_env := (mem_env s)\<lparr>env_tick := Suc (Suc (env_tick (mem_env s)))\<rparr>\<rparr>"
    and "\<And>k v. (k, v) \<in> set (mem_clusters s) \<Longrightarrow> c_Name v \<noteq> c_Name x"
  using assms
  by (auto simp: ClusterStore_CreateCluster_def time_now_def newUUID_eq Let_def list_ex_iff 
      split: if_splits option.splits)

lemma Cluster_Create_Inl:
  "ClusterStore_CreateCluster x s = (Inl e, s') \<Longrightarrow>
     s' = s \<or> s' = s\<lparr>mem_env := (mem_env s)\<lparr>env_tick := Suc (Suc (env_tick (mem_env s)))\<rparr>\<rparr>"
  by (auto simp: ClusterStore_CreateCluster_def time_now_def newUUID_eq Let_def split: if_splits option.splits)

lemma Cluster_Update_Inr:
  assumes "ClusterStore_UpdateCluster x s = (Inr y, s')"
  obtains old where "map_of (mem_clusters s) (c_ID x) = Some old"
    and "y = x\<lparr>c_CreatedAt := c_CreatedAt old,
                c_UpdatedAt := env_time (mem_env s) (env_tick (mem_env s))\<rparr>"
    and "s' = s\<lparr>mem_clusters := AList.update (c_ID x) y (mem_clusters s),
                mem_env := (mem_env s)\<lparr>env_tick := Suc (env_tick (mem_env s))\<rparr>\<rparr>"
    and "\<And>k v. (k, v) \<in> set (mem_clusters s) \<Longrightarrow> c_Name v = c_Name x \<Longrightarrow> c_ID v = c_ID x"
  using assms
  by (auto simp: ClusterStore_UpdateCluster_def time_now_def Let_def list_ex_iff 
      split: if_splits option.splits)

lemma Cluster_Update_Inl: "ClusterStore_UpdateCluster x s = (Inl e, s') \<Longrightarrow> s' = s"
  by (auto simp: ClusterStore_UpdateCluster_def time_now_def Let_def split: if_splits option.splits)

lemma Node_Create_Inr:
  assumes "NodeStore_CreateNode x s = (Inr y, s')"
  obtains u where "uuid_at (mem_env s) (Suc (env_tick (mem_env s))) = Some u"
    and "y = x\<lparr>n_ID := u, n_CreatedAt := env_time (mem_env s) (env_tick (mem_env s)),
                n_UpdatedAt := env_time (mem_env s) (env_tick (mem_env s))\<rparr>"
    and "s' = s\<lparr>mem_nodes := AList.update u y (mem_nodes s),
                mem_env := (mem_env s)\<lparr>env_tick := Suc (Suc (env_tick (mem_env s)))\<rparr>\<rparr>"
    and "\<And>k v. (k, v) \<in> set (mem_nodes s) \<Longrightarrow> node_ukey v \<noteq> node_ukey x"
  using assms
  by (auto simp: NodeStore_CreateNode_def time_now_def newUUID_eq Let_def list_ex_iff node_ukey_def
      split: if_splits option.splits)

lemma Node_Create_Inl:
  "NodeStore_CreateNode x s = (Inl e, s') \<Longrightarrow>
     s' = s \<or> s' = s\<lparr>mem_env := (mem_env s)\<lparr>env_tick := Suc (Suc (env_tick (mem_env s)))\<rparr>\<rparr>"
  by (auto simp: NodeStore_CreateNode_def time_now_def newUUID_eq Let_def split: if_splits option.splits)

lemma Node_Update_Inr:
  assumes "NodeStore_UpdateNode x s = (Inr y, s')"
  obtains old where "map_of (mem_nodes s) (n_ID x) = Some old"
    and "y = x\<lparr>n_CreatedAt := n_CreatedAt old,
                n_UpdatedAt := env_time (mem_env s) (env_tick (mem_env s))\<rparr>"
    and "s' = s\<lparr>mem_nodes := AList.update (n_ID x) y (mem_nodes s),
                mem_env := (mem_env s)\<lparr>env_tick := Suc (env_tick (mem_env s))\<rparr>\<rparr>"
    and "\<And>k v. (k, v) \<in> set (mem_nodes s) \<Longrightarrow> node_ukey v = node_ukey x \<Longrightarrow> n_ID v = n_ID x"
  using assms
  by (auto simp: NodeStore_UpdateNode_def time_now_def Let_def list_ex_iff node_ukey_def
      split: if_splits option.splits)

lemma Node_Update_Inl: "NodeStore_UpdateNode x s = (Inl e, s') \<Longrightarrow> s' = s"
  by (auto simp: NodeStore_UpdateNode_def time_now_def Let_def split: if_splits option.splits)

lemma Instance_Create_Inr:
  assumes "InstanceStore_CreateInstance x s = (Inr y, s')"
  obtains u where "uuid_at (mem_env s) (Suc (env_tick (mem_env s))) = Some u"
    and "y = x\<lparr>i_ID := u, i_CreatedAt := env_time (mem_env s) (env_tick (mem_env s)),
                i_UpdatedAt := env_time (mem_env s) (env_tick (mem_env s))\<rparr>"
    and "s' = s\<lparr>mem_insts := AList.update u y (mem_insts s),
                mem_env := (mem_env s)\<lparr>env_tick := Suc (Suc (env_tick (mem_env s)))\<rparr>\<rparr>"
    and "\<And>k v. (k, v) \<in> set (mem_insts s) \<Longrightarrow> inst_ukey v \<noteq> inst_ukey x"
  using assms
  by (auto simp: InstanceStore_CreateInstance_def time_now_def newUUID_eq Let_def list_ex_iff inst_ukey_def
      split: if_splits option.splits)

lemma Instance_Create_Inl:
  "InstanceStore_CreateInstance x s = (Inl e, s') \<Longrightarrow>
     s' = s \<or> s' = s\<lparr>mem_env := (mem_env s)\<lparr>env_tick := Suc (Suc (env_tick (mem_env s)))\<rparr>\<rparr>"
  by (auto simp: InstanceStore_CreateInstance_def time_now_def newUUID_eq Let_def split: if_splits option.splits)

lemma Instance_Update_Inr:
  assumes "InstanceStore_UpdateInstance x s = (Inr y, s')"
  obtains old where "map_of (mem_insts s) (i_ID x) = Some old"
    and "y = x\<lparr>i_CreatedAt := i_CreatedAt old,
                i_UpdatedAt := env_time (mem_env s) (env_tick (mem_env s))\<rparr>"
    and "s' = s\<lparr>mem_insts := AList.update (i_ID x) y (mem_insts s),
                mem_env := (mem_env s)\<lparr>env_tick := Suc (env_tick (mem_env s))\<rparr>\<rparr>"
    and "\<And>k v. (k, v) \<in> set (mem_insts s) \<Longrightarrow> inst_ukey v = inst_ukey x \<Longrightarrow> i_ID v = i_ID x"
  using assms
  by (auto simp: InstanceStore_UpdateInstance_def time_now_def Let_def list_ex_iff inst_ukey_def
      split: if_splits option.splits)

lemma Instance_Update_Inl: "InstanceStore_UpdateInstance x s = (Inl e, s') \<Longrightarrow> s' = s"
  by (auto simp: InstanceStore_UpdateInstance_def time_now_def Let_def split: if_splits option.splits)

section \<open>Every method keeps the invariant\<close>

lemmas mem_inv_parts = mem_inv_def used_ids_def

lemma mem_inv_env:
  assumes "mem_inv s" and "env_tick (mem_env s) \<le> t"
  shows "mem_inv (s\<lparr>mem_env := (mem_env s)\<lparr>env_tick := t\<rparr>\<rparr>)"
proof -
  have "fresh_supply (s\<lparr>mem_env := (mem_env s)\<lparr>env_tick := t\<rparr>\<rparr>)"
    using assms by - (rule fresh_supply_step [of s], simp_all add: mem_inv_parts)
  with assms(1) show ?thesis by (simp add: mem_inv_def)
qed

lemma Cluster_Create_err_inv: "mem_inv s \<Longrightarrow> ClusterStore_CreateCluster x s = (Inl e, s') \<Longrightarrow> mem_inv s'"
  by (drule Cluster_Create_Inl, elim disjE) (simp_all add: mem_inv_env)

lemma Node_Create_err_inv: "mem_inv s \<Longrightarrow> NodeStore_CreateNode x s = (Inl e, s') \<Longrightarrow> mem_inv s'"
  by (drule Node_Create_Inl, elim disjE) (simp_all add: mem_inv_env)

lemma Instance_Create_err_inv: "mem_inv s \<Longrightarrow> InstanceStore_CreateInstance x s = (Inl e, s') \<Longrightarrow> mem_inv s'"
  by (drule Instance_Create_Inl, elim disjE) (simp_all add: mem_inv_env)

lemma Cluster_Create_inv:
  assumes "mem_inv s" and "ClusterStore_CreateCluster x s = (Inr y, s')"
  shows "mem_inv s'" and "map_of (mem_clusters s) (c_ID y) = None"
proof -
  from assms(2) obtain u where u: "uuid_at (mem_env s) (Suc (env_tick (mem_env s))) = Some u"
    and y: "y = x\<lparr>c_ID := u, c_CreatedAt := env_time (mem_env s) (env_tick (mem_env s)),
                  c_UpdatedAt := env_time (mem_env s) (env_tick (mem_env s))\<rparr>"
    and s': "s' = s\<lparr>mem_clusters := AList.update u y (mem_clusters s),
               mem_env := (mem_env s)\<lparr>env_tick := Suc (Suc (env_tick (mem_env s)))\<rparr>\<rparr>"
    and new: "\<And>k v. (k, v) \<in> set (mem_clusters s) \<Longrightarrow> c_Name v \<noteq> c_Name x"
    by (rule Cluster_Create_Inr) blast
  have "fresh_supply s'"
    using assms(1) u by - (rule fresh_supply_step [of s],
      auto simp: mem_inv_parts s' dom_update intro: exI [of _ "Suc (env_tick (mem_env s))"])
  moreover have "rows_wf c_ID c_Name (mem_clusters s')"
    using assms(1) new by (auto simp: mem_inv_def s' y intro!: rows_wf_update)
  ultimately show "mem_inv s'" using assms(1) by (simp add: mem_inv_def s')
  have "u \<notin> used_ids s"
    using assms(1) u by - (rule fresh_supply_unused [of s], auto simp: mem_inv_def)
  then show "map_of (mem_clusters s) (c_ID y) = None"
    by (simp add: used_ids_def y map_of_eq_None_iff)
qed

lemma Cluster_Update_inv:
  assumes "mem_inv s" and "ClusterStore_UpdateCluster x s = (Inr y, s')"
  shows "mem_inv s'"
proof -
  from assms(2) obtain old where old: "map_of (mem_clusters s) (c_ID x) = Some old"
    and y: "y = x\<lparr>c_CreatedAt := c_CreatedAt old,
                  c_UpdatedAt := env_time (mem_env s) (env_tick (mem_env s))\<rparr>"
    and s': "s' = s\<lparr>mem_clusters := AList.update (c_ID x) y (mem_clusters s),
               mem_env := (mem_env s)\<lparr>env_tick := Suc (env_tick (mem_env s))\<rparr>\<rparr>"
    and new: "\<And>k v. (k, v) \<in> set (mem_clusters s) \<Longrightarrow> c_Name v = c_Name x \<Longrightarrow> c_ID v = c_ID x"
    by (rule Cluster_Update_Inr) blast
  from old have "c_ID x \<in> fst ` set (mem_clusters s)" by (force dest: map_of_SomeD)
  then have "fresh_supply s'"
    using assms(1) by - (rule fresh_supply_step [of s], auto simp: mem_inv_parts s' dom_update)
  moreover have "c_ID v = k" if "(k, v) \<in> set (mem_clusters s)" for k v
    using assms(1) that by (auto simp: mem_inv_def rows_wf_def)
  with new have "rows_wf c_ID c_Name (mem_clusters s')"
    using assms(1) by (auto simp: mem_inv_def s' y intro!: rows_wf_update)
  ultimately show ?thesis using assms(1) by (simp add: mem_inv_def s')
qed

lemma Cluster_Delete_inv:
  assumes "mem_inv s" and "ClusterStore_DeleteCluster k s = (r, s')"
  shows "mem_inv s'"
proof -
  have "fresh_supply (s\<lparr>mem_clusters := AList.delete k (mem_clusters s)\<rparr>)"
    using assms(1) by - (rule fresh_supply_step [of s], auto simp: mem_inv_parts set_alist_delete)
  with assms show ?thesis
    by (auto simp: ClusterStore_DeleteCluster_def mem_inv_def rows_wf_delete split: option.splits)
qed

lemma Node_Create_inv:
  assumes "mem_inv s" and "NodeStore_CreateNode x s = (Inr y, s')"
  shows "mem_inv s'" and "map_of (mem_nodes s) (n_ID y) = None"
proof -
  from assms(2) obtain u where u: "uuid_at (mem_env s) (Suc (env_tick (mem_env s))) = Some u"
    and y: "y = x\<lparr>n_ID := u, n_CreatedAt := env_time (mem_env s) (env_tick (mem_env s)),
                  n_UpdatedAt := env_time (mem_env s) (env_tick (mem_env s))\<rparr>"
    and s': "s' = s\<lparr>mem_nodes := AList.update u y (mem_nodes s),
               mem_env := (mem_env s)\<lparr>env_tick := Suc (Suc (env_tick (mem_env s)))\<rparr>\<rparr>"
    and new: "\<And>k v. (k, v) \<in> set (mem_nodes s) \<Longrightarrow> node_ukey v \<noteq> node_ukey x"
    by (rule Node_Create_Inr) blast
  have "fresh_supply s'"
    using assms(1) u by - (rule fresh_supply_step [of s],
      auto simp: mem_inv_parts s' dom_update intro: exI [of _ "Suc (env_tick (mem_env s))"])
  moreover have "rows_wf n_ID node_ukey (mem_nodes s')"
    using assms(1) new by (auto simp: mem_inv_def s' y node_ukey_def intro!: rows_wf_update)
  ultimately show "mem_inv s'" using assms(1) by (simp add: mem_inv_def s')
  have "u \<notin> used_ids s"
    using assms(1) u by - (rule fresh_supply_unused [of s], auto simp: mem_inv_def)
  then show "map_of (mem_nodes s) (n_ID y) = None"
    by (simp add: used_ids_def y map_of_eq_None_iff)
qed

lemma Node_Update_inv:
  assumes "mem_inv s" and "NodeStore_UpdateNode x s = (Inr y, s')"
  shows "mem_inv s'"
proof -
  from assms(2) obtain old where old: "map_of (mem_nodes s) (n_ID x) = Some old"
    and y: "y = x\<lparr>n_CreatedAt := n_CreatedAt old,
                  n_UpdatedAt := env_time (mem_env s) (env_tick (mem_env s))\<rparr>"
    and s': "s' = s\<lparr>mem_nodes := AList.update (n_ID x) y (mem_nodes s),
               mem_env := (mem_env s)\<lparr>env_tick := Suc (env_tick (mem_env s))\<rparr>\<rparr>"
    and new: "\<And>k v. (k, v) \<in> set (mem_nodes s) \<Longrightarrow> node_ukey v = node_ukey x \<Longrightarrow> n_ID v = n_ID x"
    by (rule Node_Update_Inr) blast
  from old have "n_ID x \<in> fst ` set (mem_nodes s)" by (force dest: map_of_SomeD)
  then have "fresh_supply s'"
    using assms(1) by - (rule fresh_supply_step [of s], auto simp: mem_inv_parts s' dom_update)
  moreover have "n_ID v = k" if "(k, v) \<in> set (mem_nodes s)" for k v
    using assms(1) that by (auto simp: mem_inv_def rows_wf_def)
  with new have "rows_wf n_ID node_ukey (mem_nodes s')"
    using assms(1) by (auto simp: mem_inv_def s' y node_ukey_def intro!: rows_wf_update)
  ultimately show ?thesis using assms(1) by (simp add: mem_inv_def s')
qed

lemma Node_Delete_inv:
  assumes "mem_inv s" and "NodeStore_DeleteNode k s = (r, s')"
  shows "mem_inv s'"
proof -
  have "fresh_supply (s\<lparr>mem_nodes := AList.delete k (mem_nodes s)\<rparr>)"
    using assms(1) by - (rule fresh_supply_step [of s], auto simp: mem_inv_parts set_alist_delete)
  with assms show ?thesis
    by (auto simp: NodeStore_DeleteNode_def mem_inv_def rows_wf_delete split: option.splits)
qed

lemma Instance_Create_inv:
  assumes "mem_inv s" and "InstanceStore_CreateInstance x s = (Inr y, s')"
  shows "mem_inv s'" and "map_of (mem_insts s) (i_ID y) = None"
proof -
  from assms(2) obtain u where u: "uuid_at (mem_env s) (Suc (env_tick (mem_env s))) = Some u"
    and y: "y = x\<lparr>i_ID := u, i_CreatedAt := env_time (mem_env s) (env_tick (mem_env s)),
                  i_UpdatedAt := env_time (mem_env s) (env_tick (mem_env s))\<rparr>"
    and s': "s' = s\<lparr>mem_insts := AList.update u y (mem_insts s),
               mem_env := (mem_env s)\<lparr>env_tick := Suc (Suc (env_tick (mem_env s)))\<rparr>\<rparr>"
    and new: "\<And>k v. (k, v) \<in> set (mem_insts s) \<Longrightarrow> inst_ukey v \<noteq> inst_ukey x"
    by (rule Instance_Create_Inr) blast
  have "fresh_supply s'"
    using assms(1) u by - (rule fresh_supply_step [of s],
      auto simp: mem_inv_parts s' dom_update intro: exI [of _ "Suc (env_tick (mem_env s))"])
  moreover have "rows_wf i_ID inst_ukey (mem_insts s')"
    using assms(1) new by (auto simp: mem_inv_def s' y inst_ukey_def intro!: rows_wf_update)
  ultimately show "mem_inv s'" using assms(1) by (simp add: mem_inv_def s')
  have "u \<notin> used_ids s"
    using assms(1) u by - (rule fresh_supply_unused [of s], auto simp: mem_inv_def)
  then show "map_of (mem_insts s) (i_ID y) = None"
    by (simp add: used_ids_def y map_of_eq_None_iff)
qed

lemma Instance_Update_inv:
  assumes "mem_inv s" and "InstanceStore_UpdateInstance x s = (Inr y, s')"
  shows "mem_inv s'"
proof -
  from assms(2) obtain old where old: "map_of (mem_insts s) (i_ID x) = Some old"
    and y: "y = x\<lparr>i_CreatedAt := i_CreatedAt old,
                  i_UpdatedAt := env_time (mem_env s) (env_tick (mem_env s))\<rparr>"
    and s': "s' = s\<lparr>mem_insts := AList.update (i_ID x) y (mem_insts s),
               mem_env := (mem_env s)\<lparr>env_tick := Suc (env_tick (mem_env s))\<rparr>\<rparr>"
    and new: "\<And>k v. (k, v) \<in> set (mem_insts s) \<Longrightarrow> inst_ukey v = inst_ukey x \<Longrightarrow> i_ID v = i_ID x"
    by (rule Instance_Update_Inr) blast
  from old have "i_ID x \<in> fst ` set (mem_insts s)" by (force dest: map_of_SomeD)
  then have "fresh_supply s'"
    using assms(1) by - (rule fresh_supply_step [of s], auto simp: mem_inv_parts s' dom_update)
  moreover have "i_ID v = k" if "(k, v) \<in> set (mem_insts s)" for k v
    using assms(1) that by (auto simp: mem_inv_def rows_wf_def)
  with new have "rows_wf i_ID inst_ukey (mem_insts s')"
    using assms(1) by (auto simp: mem_inv_def s' y inst_ukey_def intro!: rows_wf_update)
  ultimately show ?thesis using assms(1) by (simp add: mem_inv_def s')
qed

lemma Instance_Delete_inv:
  assumes "mem_inv s" and "InstanceStore_DeleteInstance k s = (r, s')"
  shows "mem_inv s'"
proof -
  have "fresh_supply (s\<lparr>mem_insts := AList.delete k (mem_insts s)\<rparr>)"
    using assms(1) by - (rule fresh_supply_step [of s], auto simp: mem_inv_parts set_alist_delete)
  with assms show ?thesis
    by (auto simp: InstanceStore_DeleteInstance_def mem_inv_def rows_wf_delete split: option.splits)
qed

section \<open>The stores provide the contracts\<close>

lemmas memory_interfaces =
  memory_clusters_def memory_nodes_def memory_instances_def memory_lock_def

interpretation mem_cluster: cluster_repo memory_clusters "\<lambda>s. map_of (mem_clusters s)" mem_inv
  "\<lambda>s. (mem_nodes s, mem_insts s, mem_locked s, mem.more s)"
proof (unfold_locales, goal_cases)
  case (1 w k c)
  then show ?case by (auto simp: mem_inv_def dest: rows_wf_key)
next
  case (2 w k c k' c')
  then show ?case by (auto simp: mem_inv_def dest: rows_wf_unique)
next
  case (3 w r w')
  then show ?case by (auto simp: memory_interfaces ClusterStore_ListClusters_def)
next
  case (4 w cs w')
  then have "rows_wf c_ID c_Name (mem_clusters w)" by (simp add: mem_inv_def)
  from rows_wf_values [OF this, of "\<lambda>_. True"] 4 show ?case
    by (auto simp: memory_interfaces ClusterStore_ListClusters_def)
next
  case (5 w k rg w')
  then show ?case by (auto simp: memory_interfaces ClusterStore_GetCluster_def)
next
  case (6 w k c w')
  then show ?case
    by (auto simp: memory_interfaces ClusterStore_GetCluster_def split: option.splits)
next
  case (7 w c c' w')
  then have "ClusterStore_CreateCluster c w = (Inr c', w')" by (simp add: memory_interfaces)
  with Cluster_Create_inv [OF 7(1) this] show ?case
    by (auto elim!: Cluster_Create_Inr simp: cluster_data_def)
next
  case (8 w c e w')
  then have "ClusterStore_CreateCluster c w = (Inl e, w')" by (simp add: memory_interfaces)
  from Cluster_Create_Inl [OF this] 8(1) show ?case by (auto intro: mem_inv_env)
next
  case (9 w c c' w')
  then have "ClusterStore_UpdateCluster c w = (Inr c', w')" by (simp add: memory_interfaces)
  with Cluster_Update_inv [OF 9(1) this] show ?case
    by (auto elim!: Cluster_Update_Inr simp: cluster_data_def)
next
  case (10 w c e w')
  then have "ClusterStore_UpdateCluster c w = (Inl e, w')" by (simp add: memory_interfaces)
  from Cluster_Update_Inl [OF this] 10(1) show ?case by simp
next
  case (11 w k w')
  then have "ClusterStore_DeleteCluster k w = (None, w')" by (simp add: memory_interfaces)
  with Cluster_Delete_inv [OF 11(1) this] show ?case
    by (auto simp: ClusterStore_DeleteCluster_def delete_conv' split: option.splits)
next
  case (12 w k e w')
  then have "ClusterStore_DeleteCluster k w = (Some e, w')" by (simp add: memory_interfaces)
  with Cluster_Delete_inv [OF 12(1) this] show ?case
    by (auto simp: ClusterStore_DeleteCluster_def split: option.splits)
qed

interpretation mem_node: lenient_node_repo memory_nodes "\<lambda>s. map_of (mem_nodes s)" mem_inv
  "\<lambda>s. (mem_clusters s, mem_insts s, mem_locked s, mem.more s)"
proof (unfold_locales, goal_cases)
  case (1 w k n)
  then show ?case by (auto simp: mem_inv_def dest: rows_wf_key)
next
  case (2 w k n k' n')
  then show ?case by (auto simp: mem_inv_def node_ukey_def dest: rows_wf_unique)
next
  case (3 w c r w')
  then show ?case by (auto simp: memory_interfaces NodeStore_ListNodes_def)
next
  case (4 w c ns w')
  then have "rows_wf n_ID node_ukey (mem_nodes w)" by (simp add: mem_inv_def)
  from rows_wf_values [OF this, of "\<lambda>n. n_ClusterID n = c"] 4 show ?case
    by (auto simp: memory_interfaces NodeStore_ListNodes_def)
next
  case (5 w n n' w')
  then have "NodeStore_CreateNode n w = (Inr n', w')" by (simp add: memory_interfaces)
  with Node_Create_inv [OF 5(1) this] show ?case
    by (auto elim!: Node_Create_Inr simp: node_data_def)
next
  case (6 w n e w')
  then have "NodeStore_CreateNode n w = (Inl e, w')" by (simp add: memory_interfaces)
  from Node_Create_Inl [OF this] 6(1) show ?case by (auto intro: mem_inv_env)
next
  case (7 w n n' w')
  then have "NodeStore_UpdateNode n w = (Inr n', w')" by (simp add: memory_interfaces)
  with Node_Update_inv [OF 7(1) this] show ?case
    by (auto elim!: Node_Update_Inr simp: node_data_def)
next
  case (8 w n e w')
  then have "NodeStore_UpdateNode n w = (Inl e, w')" by (simp add: memory_interfaces)
  from Node_Update_Inl [OF this] 8(1) show ?case by simp
next
  case (9 w n)
  have "n_ID m = k" if "(k, m) \<in> set (mem_nodes w)" for k m
    using 9(1) that by (auto simp: mem_inv_def rows_wf_def)
  with 9 show ?case
    by (auto simp: memory_interfaces NodeStore_UpdateNode_def time_now_def Let_def list_ex_iff
        mem_inv_def rows_wf_set)
qed (simp add: memory_interfaces NodeStore_ListNodes_def)

interpretation mem_instance: lenient_instance_repo memory_instances "\<lambda>s. map_of (mem_insts s)"
  mem_inv "\<lambda>s. (mem_clusters s, mem_nodes s, mem_locked s, mem.more s)"
proof (unfold_locales, goal_cases)
  case (1 w k i)
  then show ?case by (auto simp: mem_inv_def dest: rows_wf_key)
next
  case (2 w k i k' i')
  then show ?case by (auto simp: mem_inv_def inst_ukey_def dest: rows_wf_unique)
next
  case (3 w c r w')
  then show ?case by (auto simp: memory_interfaces InstanceStore_ListInstances_def)
next
  case (4 w c "is" w')
  then have "rows_wf i_ID inst_ukey (mem_insts w)" by (simp add: mem_inv_def)
  from rows_wf_values [OF this, of "\<lambda>i. i_ClusterID i = c"] 4 show ?case
    by (auto simp: memory_interfaces InstanceStore_ListInstances_def)
next
  case (5 w i i' w')
  then have "InstanceStore_CreateInstance i w = (Inr i', w')" by (simp add: memory_interfaces)
  with Instance_Create_inv [OF 5(1) this] show ?case
    by (auto elim!: Instance_Create_Inr simp: inst_data_def)
next
  case (6 w i e w')
  then have "InstanceStore_CreateInstance i w = (Inl e, w')" by (simp add: memory_interfaces)
  from Instance_Create_Inl [OF this] 6(1) show ?case by (auto intro: mem_inv_env)
next
  case (7 w i i' w')
  then have "InstanceStore_UpdateInstance i w = (Inr i', w')" by (simp add: memory_interfaces)
  with Instance_Update_inv [OF 7(1) this] show ?case
    by (auto elim!: Instance_Update_Inr simp: inst_data_def)
next
  case (8 w i e w')
  then have "InstanceStore_UpdateInstance i w = (Inl e, w')" by (simp add: memory_interfaces)
  from Instance_Update_Inl [OF this] 8(1) show ?case by simp
next
  case (9 w i)
  have "i_ID j = k" if "(k, j) \<in> set (mem_insts w)" for k j
    using 9(1) that by (auto simp: mem_inv_def rows_wf_def)
  with 9 show ?case
    by (auto simp: memory_interfaces InstanceStore_UpdateInstance_def time_now_def Let_def list_ex_iff
        mem_inv_def rows_wf_set)
qed (simp add: memory_interfaces InstanceStore_ListInstances_def)

interpretation mem_lock: locker memory_lock mem_locked
  "\<lambda>s. (mem_clusters s, mem_nodes s, mem_insts s, mem_env s, mem.more s)"
  by unfold_locales (auto simp: memory_interfaces Lock_TryLock_def Lock_Unlock_def split: if_splits)

section \<open>Properties\<close>

subsection \<open>UUIDs\<close>

lemma high_nibble: "unat (b :: byte) div 16 = unat (drop_bit 4 b)"
  by (simp add: drop_bit_eq_div unat_div)

lemma version_nibble: "hex_byte ((b AND 0x0f) OR 0x40) ! 0 = CHR ''4''"
proof -
  have "drop_bit 4 ((b AND 0x0f) OR 0x40 :: byte) = 4"
    by (simp add: drop_bit_or drop_bit_and)
  then show ?thesis by (simp add: hex_byte_def high_nibble hex_digit_def)
qed

lemma variant_nibble: "hex_byte ((b AND 0x3f) OR 0x80) ! 0 \<in> set ''89ab''"
proof -
  have "(drop_bit 4 b AND 3 :: byte) = take_bit 2 (drop_bit 4 b)"
    by (simp add: take_bit_eq_mask mask_eq_exp_minus_1)
  then have "unat (drop_bit 4 b AND 3 :: byte) < 4"
    by (simp add: unsigned_take_bit_eq take_bit_nat_def)
  then have "drop_bit 4 b AND 3 \<in> {0, 1, 2, 3 :: byte}"
    by (auto simp: word_unat_eq_iff)
  moreover have "drop_bit 4 ((b AND 0x3f) OR 0x80 :: byte) = (drop_bit 4 b AND 3) OR 8"
    by (simp add: drop_bit_or drop_bit_and)
  ultimately have "drop_bit 4 ((b AND 0x3f) OR 0x80 :: byte) \<in> {8, 9, 10, 11}"
    by auto
  then show ?thesis by (auto simp: hex_byte_def high_nibble hex_digit_def)
qed

lemma hex_digit_in: "d < 16 \<Longrightarrow> hex_digit d \<in> set ''0123456789abcdef''"
  unfolding hex_digit_def by (rule nth_mem) simp

lemma hex_nibbles:
  "hex_digit (unat (b :: byte) div 16) \<in> set ''0123456789abcdef''"
  "hex_digit (unat b mod 16) \<in> set ''0123456789abcdef''"
  by (rule hex_digit_in, simp add: unat_byte_div)+

lemma hex_not_dash [simp]:
  "hex_digit (unat (b :: byte) div 16) \<noteq> CHR ''-''" "hex_digit (unat b mod 16) \<noteq> CHR ''-''"
  using hex_nibbles [of b] by auto

lemma set_hex_bytes: "set (hex_bytes bs) \<subseteq> set ''0123456789abcdef''"
  using hex_nibbles by (fastforce simp: hex_bytes_def hex_byte_def)

lemma upt_16: "[0..<16] = [0, 1, 2, 3, 4, 5, 6, 7, 8, 9, 10, 11, 12, 13, 14, 15]"
  by (simp add: upt_rec numeral_eq_Suc)

lemma uuid_text_groups:
  assumes "length bs = 16"
  shows "uuid_text bs =
    hex_bytes [bs ! 0, bs ! 1, bs ! 2, bs ! 3] @ ''-'' @ hex_bytes [bs ! 4, bs ! 5] @ ''-'' @
    hex_bytes [(bs ! 6 AND 0x0f) OR 0x40, bs ! 7] @ ''-'' @
    hex_bytes [(bs ! 8 AND 0x3f) OR 0x80, bs ! 9] @ ''-'' @
    hex_bytes [bs ! 10, bs ! 11, bs ! 12, bs ! 13, bs ! 14, bs ! 15]"
proof -
  have "bs = map ((!) bs) [0..<16]" using assms by (metis map_nth)
  also have "\<dots> = [bs ! 0, bs ! 1, bs ! 2, bs ! 3, bs ! 4, bs ! 5, bs ! 6, bs ! 7, bs ! 8,
      bs ! 9, bs ! 10, bs ! 11, bs ! 12, bs ! 13, bs ! 14, bs ! 15]" (is "_ = ?bs")
    by (simp add: upt_16)
  finally have bs: "bs = ?bs" .
  have "uuid_text ?bs =
    hex_bytes [bs ! 0, bs ! 1, bs ! 2, bs ! 3] @ ''-'' @ hex_bytes [bs ! 4, bs ! 5] @ ''-'' @
    hex_bytes [(bs ! 6 AND 0x0f) OR 0x40, bs ! 7] @ ''-'' @
    hex_bytes [(bs ! 8 AND 0x3f) OR 0x80, bs ! 9] @ ''-'' @
    hex_bytes [bs ! 10, bs ! 11, bs ! 12, bs ! 13, bs ! 14, bs ! 15]"
    by (simp add: uuid_text_def)
  with bs show ?thesis by simp
qed

lemma newUUID_bytes:
  "newUUID e = (Inr u, e') \<Longrightarrow>
     \<exists>bs. length bs = 16 \<and> rand_read 16 e = (Inr bs, e') \<and> u = uuid_text bs"
  by (auto simp: newUUID_def rand_read_def split: sum.splits option.splits)

text \<open>\<open>newUUID\<close> yields a version-4 UUID (RFC 4122): 36 characters, hyphens exactly at the
  positions 8, 13, 18 and 23, lower-case hexadecimal digits elsewhere, the version digit 4 and a
  variant digit among 8, 9, a and b.\<close>

theorem newUUID_v4:
  assumes "newUUID e = (Inr u, e')"
  shows "length u = 36 \<and> filter (\<lambda>i. u ! i = CHR ''-'') [0..<36] = [8, 13, 18, 23] \<and>
     set u \<subseteq> set ''0123456789abcdef-'' \<and> u ! 14 = CHR ''4'' \<and> u ! 19 \<in> set ''89ab''"
proof -
  from newUUID_bytes [OF assms] obtain bs where bs: "length bs = 16" "u = uuid_text bs" by blast
  note u = bs(2) [unfolded uuid_text_groups [OF bs(1)]]
  have "length u = 36" by (simp add: u)
  moreover have "filter (\<lambda>i. u ! i = CHR ''-'') [0..<36] = [8, 13, 18, 23]"
    by (simp add: u upt_rec hex_bytes_def hex_byte_def del: length_hex_bytes)
  moreover have "set u \<subseteq> set ''0123456789abcdef-''"
    unfolding u using set_hex_bytes by fastforce
  moreover have "u ! 14 = CHR ''4''" "u ! 19 \<in> set ''89ab''"
    using version_nibble variant_nibble by (simp_all add: u hex_bytes_def hex_byte_def)
  ultimately show ?thesis by blast
qed

definition ex_env :: env where
  "ex_env = \<lparr>env_tick = 0, env_time = (\<lambda>t. t), env_rand = (\<lambda>_. Some (\<lambda>i. of_nat (17 * i)))\<rparr>"

theorem newUUID_v4_witness:
  "\<exists>u e'. newUUID ex_env = (Inr u, e') \<and> length u = 36 \<and> u ! 14 = CHR ''4''"
proof -
  obtain u e' where u: "newUUID ex_env = (Inr u, e')"
    by (simp add: newUUID_def rand_read_def ex_env_def)
  with newUUID_v4 [OF u] show ?thesis by blast
qed

text \<open>\<open>newUUID\<close> loses nothing of the random bytes but the six bits it overwrites: two equal
  UUIDs come from byte sequences that agree everywhere else.\<close>

theorem newUUID_injective:
  assumes "newUUID e = (Inr u, e1)" and "newUUID f = (Inr u, f1)"
  shows "\<exists>bs cs. rand_read 16 e = (Inr bs, e1) \<and> rand_read 16 f = (Inr cs, f1) \<and>
     bs[6 := bs ! 6 AND 0x0f, 8 := bs ! 8 AND 0x3f] = cs[6 := cs ! 6 AND 0x0f, 8 := cs ! 8 AND 0x3f]"
proof -
  from newUUID_bytes [OF assms(1)] newUUID_bytes [OF assms(2)] obtain bs cs
    where b: "length bs = 16" "rand_read 16 e = (Inr bs, e1)" "u = uuid_text bs"
      and c: "length cs = 16" "rand_read 16 f = (Inr cs, f1)" "u = uuid_text cs" by blast
  have g: "hex_bytes [bs ! 0, bs ! 1, bs ! 2, bs ! 3] = hex_bytes [cs ! 0, cs ! 1, cs ! 2, cs ! 3]"
    "hex_bytes [bs ! 4, bs ! 5] = hex_bytes [cs ! 4, cs ! 5]"
    "hex_bytes [(bs ! 6 AND 0x0f) OR 0x40, bs ! 7] = hex_bytes [(cs ! 6 AND 0x0f) OR 0x40, cs ! 7]"
    "hex_bytes [(bs ! 8 AND 0x3f) OR 0x80, bs ! 9] = hex_bytes [(cs ! 8 AND 0x3f) OR 0x80, cs ! 9]"
    "hex_bytes [bs ! 10, bs ! 11, bs ! 12, bs ! 13, bs ! 14, bs ! 15] =
     hex_bytes [cs ! 10, cs ! 11, cs ! 12, cs ! 13, cs ! 14, cs ! 15]"
    using b(3) c(3) by (simp_all add: uuid_text_groups b(1) c(1) append_eq_append_conv)
  note e = g [THEN hex_bytes_inj]
  have m: "a AND 0x0f = b AND 0x0f" if "(a AND 0x0f) OR 0x40 = (b AND 0x0f) OR (0x40 :: byte)" for a b
  proof -
    from that have "((a AND 0x0f) OR 0x40) AND 0x0f = ((b AND 0x0f) OR 0x40) AND 0x0f" by simp
    then show ?thesis by (simp add: bit.conj_disj_distrib2 and.assoc)
  qed
  have n: "a AND 0x3f = b AND 0x3f" if "(a AND 0x3f) OR 0x80 = (b AND 0x3f) OR (0x80 :: byte)" for a b
  proof -
    from that have "((a AND 0x3f) OR 0x80) AND 0x3f = ((b AND 0x3f) OR 0x80) AND 0x3f" by simp
    then show ?thesis by (simp add: bit.conj_disj_distrib2 and.assoc)
  qed
  have "bs[6 := bs ! 6 AND 0x0f, 8 := bs ! 8 AND 0x3f] ! i =
        cs[6 := cs ! 6 AND 0x0f, 8 := cs ! 8 AND 0x3f] ! i" if "i < 16" for i
  proof -
    from that have "i \<in> set [0..<16]" by simp
    then show ?thesis using e m n b(1) c(1)
      by (simp add: upt_16 nth_list_update) (elim disjE; simp)
  qed
  with b c show ?thesis by (auto intro!: nth_equalityI)
qed

definition ex_env' :: env where
  "ex_env' = ex_env\<lparr>env_rand := (\<lambda>_. Some (\<lambda>i. if i = 6 then 0x06 else of_nat (17 * i)))\<rparr>"

theorem newUUID_injective_witness:
  "\<exists>u e1 f1 bs cs. newUUID ex_env = (Inr u, e1) \<and> newUUID ex_env' = (Inr u, f1) \<and>
     rand_read 16 ex_env = (Inr bs, e1) \<and> rand_read 16 ex_env' = (Inr cs, f1) \<and>
     bs[6 := bs ! 6 AND 0x0f, 8 := bs ! 8 AND 0x3f] = cs[6 := cs ! 6 AND 0x0f, 8 := cs ! 8 AND 0x3f]"
proof -
  obtain u e1 where u: "newUUID ex_env = (Inr u, e1)"
    by (simp add: newUUID_def rand_read_def ex_env_def)
  moreover have "uuid_text (map (\<lambda>i. if i = 6 then 0x06 else of_nat (17 * i)) [0..<16]) =
      uuid_text (map (\<lambda>i. of_nat (17 * i)) [0..<16])"
    by (simp add: uuid_text_def upt_16)
  ultimately obtain f1 where "newUUID ex_env' = (Inr u, f1)"
    by (simp add: newUUID_def rand_read_def ex_env_def ex_env'_def)
  with u newUUID_injective [OF u this] show ?thesis by blast
qed

subsection \<open>The constraints of the tables in every reachable state\<close>

text \<open>
  One call of a method of any of the three stores or of the lock. A Go map has no order of its own: before any call the
  rows may stand in another order, which is the order in which the call will range over them.
\<close>

inductive mem_step :: "'z mem_scheme \<Rightarrow> 'z mem_scheme \<Rightarrow> bool" where
  "mem_step s (snd (ClusterStore_ListClusters s))"
| "mem_step s (snd (ClusterStore_GetCluster k s))"
| "mem_step s (snd (ClusterStore_CreateCluster c s))"
| "mem_step s (snd (ClusterStore_UpdateCluster c s))"
| "mem_step s (snd (ClusterStore_DeleteCluster k s))"
| "mem_step s (snd (NodeStore_ListNodes k s))"
| "mem_step s (snd (NodeStore_GetNode k s))"
| "mem_step s (snd (NodeStore_CreateNode n s))"
| "mem_step s (snd (NodeStore_UpdateNode n s))"
| "mem_step s (snd (NodeStore_DeleteNode k s))"
| "mem_step s (snd (InstanceStore_ListInstances k s))"
| "mem_step s (snd (InstanceStore_GetInstance k s))"
| "mem_step s (snd (InstanceStore_CreateInstance i s))"
| "mem_step s (snd (InstanceStore_UpdateInstance i s))"
| "mem_step s (snd (InstanceStore_DeleteInstance k s))"
| "mem_step s (snd (Lock_TryLock s))"
| "mem_step s (snd (Lock_Unlock s))"
| "mset cs = mset (mem_clusters s) \<Longrightarrow> mem_step s (s\<lparr>mem_clusters := cs\<rparr>)"
| "mset ns = mset (mem_nodes s) \<Longrightarrow> mem_step s (s\<lparr>mem_nodes := ns\<rparr>)"
| "mset xs = mset (mem_insts s) \<Longrightarrow> mem_step s (s\<lparr>mem_insts := xs\<rparr>)"

lemma rows_wf_reordered:
  assumes "mset rows' = mset rows"
  shows "rows_wf rid ukey rows' \<longleftrightarrow> rows_wf rid ukey rows"
proof -
  have "mset (map fst rows') = mset (map fst rows)" by (simp add: assms)
  from mset_eq_imp_distinct_iff [OF this] mset_eq_setD [OF assms] show ?thesis by (simp add: rows_wf_def)
qed

text \<open>The order of the rows matters to the order of a listing only: a lookup finds the same row.\<close>

lemma map_of_reordered:
  assumes "mset rows' = mset rows" and "rows_wf rid ukey rows"
  shows "map_of rows' = map_of rows"
proof -
  from assms(2) rows_wf_reordered [OF assms(1), of rid ukey] have "distinct (map fst rows')" "distinct (map fst rows)"
    by (simp_all add: rows_wf_def)
  then show ?thesis using map_of_inject_set mset_eq_setD [OF assms(1)] by blast
qed

lemma mem_inv_reordered:
  "mset cs = mset (mem_clusters s) \<Longrightarrow> mem_inv (s\<lparr>mem_clusters := cs\<rparr>) = mem_inv s"
  "mset ns = mset (mem_nodes s) \<Longrightarrow> mem_inv (s\<lparr>mem_nodes := ns\<rparr>) = mem_inv s"
  "mset xs = mset (mem_insts s) \<Longrightarrow> mem_inv (s\<lparr>mem_insts := xs\<rparr>) = mem_inv s"
proof -
  have "mem_inv (s\<lparr>mem_clusters := cs\<rparr>) = mem_inv s" if p: "mset cs = mset (mem_clusters s)"
    using rows_wf_reordered [OF p, of c_ID c_Name] mset_eq_setD [OF p] by (simp add: mem_inv_def fresh_supply_def used_ids_def)
  moreover have "mem_inv (s\<lparr>mem_nodes := ns\<rparr>) = mem_inv s" if p: "mset ns = mset (mem_nodes s)"
    using rows_wf_reordered [OF p, of n_ID node_ukey] mset_eq_setD [OF p] by (simp add: mem_inv_def fresh_supply_def used_ids_def)
  moreover have "mem_inv (s\<lparr>mem_insts := xs\<rparr>) = mem_inv s" if p: "mset xs = mset (mem_insts s)"
    using rows_wf_reordered [OF p, of i_ID inst_ukey] mset_eq_setD [OF p] by (simp add: mem_inv_def fresh_supply_def used_ids_def)
  ultimately show "mset cs = mset (mem_clusters s) \<Longrightarrow> mem_inv (s\<lparr>mem_clusters := cs\<rparr>) = mem_inv s"
    "mset ns = mset (mem_nodes s) \<Longrightarrow> mem_inv (s\<lparr>mem_nodes := ns\<rparr>) = mem_inv s"
    "mset xs = mset (mem_insts s) \<Longrightarrow> mem_inv (s\<lparr>mem_insts := xs\<rparr>) = mem_inv s" by blast+
qed

lemma mem_inv_locked: "mem_inv (s\<lparr>mem_locked := b\<rparr>) \<longleftrightarrow> mem_inv s"
  by (simp add: mem_inv_def fresh_supply_def used_ids_def)

lemma mem_step_inv: "mem_step s t \<Longrightarrow> mem_inv s \<Longrightarrow> mem_inv t"
proof (induction rule: mem_step.induct)
  case (3 s c)
  then show ?case
    by (cases "ClusterStore_CreateCluster c s"; cases "fst (ClusterStore_CreateCluster c s)")
      (auto dest: Cluster_Create_inv Cluster_Create_err_inv)
next
  case (4 s c)
  then show ?case
    by (cases "ClusterStore_UpdateCluster c s"; cases "fst (ClusterStore_UpdateCluster c s)")
      (auto dest: Cluster_Update_inv Cluster_Update_Inl)
next
  case (5 s k)
  then show ?case by (cases "ClusterStore_DeleteCluster k s") (auto dest: Cluster_Delete_inv)
next
  case (8 s n)
  then show ?case
    by (cases "NodeStore_CreateNode n s"; cases "fst (NodeStore_CreateNode n s)")
      (auto dest: Node_Create_inv Node_Create_err_inv)
next
  case (9 s n)
  then show ?case
    by (cases "NodeStore_UpdateNode n s"; cases "fst (NodeStore_UpdateNode n s)")
      (auto dest: Node_Update_inv Node_Update_Inl)
next
  case (10 s k)
  then show ?case by (cases "NodeStore_DeleteNode k s") (auto dest: Node_Delete_inv)
next
  case (13 s i)
  then show ?case
    by (cases "InstanceStore_CreateInstance i s"; cases "fst (InstanceStore_CreateInstance i s)")
      (auto dest: Instance_Create_inv Instance_Create_err_inv)
next
  case (14 s i)
  then show ?case
    by (cases "InstanceStore_UpdateInstance i s"; cases "fst (InstanceStore_UpdateInstance i s)")
      (auto dest: Instance_Update_inv Instance_Update_Inl)
next
  case (15 s k)
  then show ?case by (cases "InstanceStore_DeleteInstance k s") (auto dest: Instance_Delete_inv)
qed (simp_all add: ClusterStore_ListClusters_def ClusterStore_GetCluster_def NodeStore_ListNodes_def
    NodeStore_GetNode_def InstanceStore_ListInstances_def InstanceStore_GetInstance_def
    Lock_TryLock_def Lock_Unlock_def mem_inv_locked mem_inv_reordered)

lemma mem_reachable_inv: "mem_step\<^sup>*\<^sup>* s t \<Longrightarrow> mem_inv s \<Longrightarrow> mem_inv t"
  by (induction rule: rtranclp_induct) (auto intro: mem_step_inv)

text \<open>The stores as \<open>New*Store\<close> make them: no rows, the lock free.\<close>

definition mem_init :: "env \<Rightarrow> mem" where
  "mem_init e = \<lparr>mem_clusters = [], mem_nodes = [], mem_insts = [], mem_locked = False, mem_env = e\<rparr>"

text \<open>The UUIDs that a random source delivers from now on are pairwise distinct.\<close>

definition distinct_uuids :: "env \<Rightarrow> bool" where
  "distinct_uuids e \<longleftrightarrow> (\<forall>i j u. env_tick e \<le> i \<longrightarrow> i < j \<longrightarrow> uuid_at e i = Some u \<longrightarrow>
     uuid_at e j \<noteq> Some u)"

lemma mem_inv_init: "distinct_uuids e \<Longrightarrow> mem_inv (mem_init e)"
  by (simp add: mem_inv_def mem_init_def fresh_supply_def used_ids_def distinct_uuids_def)

text \<open>C27. Whatever sequence of store calls a program makes from empty stores, and in whatever order the maps are
  ranged over, the tables satisfy the constraints of the schema: each row is filed under its own ID, cluster names are unique, and node
  and instance names are unique within their cluster.\<close>

theorem memory_tables_consistent:
  assumes "mem_step\<^sup>*\<^sup>* (mem_init e) s" and "distinct_uuids e"
  shows "(\<forall>k c. map_of (mem_clusters s) k = Some c \<longrightarrow> c_ID c = k) \<and>
     (\<forall>k n. map_of (mem_nodes s) k = Some n \<longrightarrow> n_ID n = k) \<and>
     (\<forall>k i. map_of (mem_insts s) k = Some i \<longrightarrow> i_ID i = k) \<and>
     inj_on c_Name (ran (map_of (mem_clusters s))) \<and>
     inj_on node_ukey (ran (map_of (mem_nodes s))) \<and>
     inj_on inst_ukey (ran (map_of (mem_insts s)))"
proof -
  have inj: "inj_on uk (ran (map_of rows))" if "rows_wf rid uk rows" for rid uk and rows :: "(_ \<times> _) list"
    using that by (fastforce simp: inj_on_def elim!: ranE dest: rows_wf_unique)
  have "mem_inv s" using assms by (blast intro: mem_reachable_inv mem_inv_init)
  then show ?thesis by (auto simp: mem_inv_def dest: rows_wf_key intro: inj)
qed

text \<open>A source whose \<open>t\<close>-th read starts with the byte \<open>t\<close> and which fails from the 200th read on.\<close>

definition ex_supply :: env where
  "ex_supply = \<lparr>env_tick = 0, env_time = (\<lambda>t. t),
     env_rand = (\<lambda>t. if t < 200 then Some (\<lambda>i. if i = 0 then of_nat t else 0) else None)\<rparr>"

lemma ex_supply_uuid:
  "uuid_at ex_supply t = Some u \<Longrightarrow> t < 200 \<and> take 2 u = hex_byte (of_nat t)"
  by (auto simp: uuid_at_def ex_supply_def uuid_text_groups upt_16 hex_bytes_def hex_byte_def
      split: if_splits)

lemma ex_supply_distinct: "distinct_uuids ex_supply"
  unfolding distinct_uuids_def
proof (intro allI impI notI)
  fix i j u
  assume "i < j" "uuid_at ex_supply i = Some u" "uuid_at ex_supply j = Some u"
  moreover from this(2,3) [THEN ex_supply_uuid]
  have "hex_byte (of_nat i) = hex_byte (of_nat j)" "i < 200" "j < 200" by simp_all
  ultimately show False
    by (auto dest!: hex_byte_inj simp: word_unat_eq_iff unat_of_nat)
qed

theorem memory_tables_consistent_witness:
  "\<exists>s n. mem_step\<^sup>*\<^sup>* (mem_init ex_supply) s \<and> map snd (mem_nodes s) = [n] \<and> n_Name n = ''n1'' \<and>
     map_of (mem_nodes s) (n_ID n) = Some n \<and> inj_on node_ukey (ran (map_of (mem_nodes s)))"
proof -
  let ?s = "snd (NodeStore_CreateNode (zero_node\<lparr>n_Name := ''n1''\<rparr>) (mem_init ex_supply))"
  have r: "mem_step\<^sup>*\<^sup>* (mem_init ex_supply) ?s" by (rule r_into_rtranclp, rule mem_step.intros)
  obtain k n where n: "mem_nodes ?s = [(k, n)]" "n_Name n = ''n1''" "n_ID n = k"
    by (auto simp: NodeStore_CreateNode_def mem_init_def time_now_def newUUID_eq uuid_at_def
        ex_supply_def zero_node_def Let_def)
  with r memory_tables_consistent [OF r ex_supply_distinct] show ?thesis by auto
qed

subsection \<open>Create, update, delete\<close>

text \<open>A successful \<open>CreateNode\<close> files the node under an ID that was free: \<open>GetNode\<close> of that ID
  now returns it, all other IDs and the other clusters' listings are as before, the data apart from
  ID and timestamps is the caller's, and creating the same name again is an \<open>ErrConflict\<close>.\<close>

theorem node_create_get:
  assumes "mem_inv s" and "NodeStore_CreateNode n s = (Inr n', s')"
  shows "fst (NodeStore_GetNode (n_ID n') s) = Inl not_found_error \<and>
     (\<forall>k. fst (NodeStore_GetNode k s') =
        (if k = n_ID n' then Inr n' else fst (NodeStore_GetNode k s))) \<and>
     fst (NodeStore_ListNodes c s') =
       Inr (filter (\<lambda>m. n_ClusterID m = c) (map snd (mem_nodes s) @ [n'])) \<and>
     n\<lparr>n_ID := n_ID n', n_CreatedAt := n_CreatedAt n', n_UpdatedAt := n_UpdatedAt n'\<rparr> = n' \<and>
     n_CreatedAt n' = n_UpdatedAt n' \<and>
     (\<exists>e. NodeStore_CreateNode n s' = (Inl e, s') \<and> errors_is e (PersistenceErr ErrConflict))"
proof -
  from assms(2) obtain u where y: "n' = n\<lparr>n_ID := u,
        n_CreatedAt := env_time (mem_env s) (env_tick (mem_env s)),
        n_UpdatedAt := env_time (mem_env s) (env_tick (mem_env s))\<rparr>"
    and s': "s' = s\<lparr>mem_nodes := AList.update u n' (mem_nodes s),
               mem_env := (mem_env s)\<lparr>env_tick := Suc (Suc (env_tick (mem_env s)))\<rparr>\<rparr>"
    by (rule Node_Create_Inr) blast
  from Node_Create_inv(2) [OF assms] have new: "map_of (mem_nodes s) u = None" by (simp add: y)

then have rows: "mem_nodes s' = mem_nodes s @ [(u, n')]"
    by (simp add: s' update_new)
  have f: "n_ID n' = u" "n_ClusterID n' = n_ClusterID n" "n_Name n' = n_Name n"
    "n_CreatedAt n' = n_UpdatedAt n'"
    "n\<lparr>n_ID := u, n_CreatedAt := n_UpdatedAt n', n_UpdatedAt := n_UpdatedAt n'\<rparr> = n'"
    by (simp_all add: y)
  show ?thesis using new
    by (auto simp: f NodeStore_GetNode_def NodeStore_ListNodes_def rows NodeStore_CreateNode_def
        conflict_error_def map_add_def split: option.split)
qed

theorem node_create_get_witness:
  "\<exists>n' s'. NodeStore_CreateNode (zero_node\<lparr>n_Name := ''n1''\<rparr>) (mem_init ex_supply) = (Inr n', s') \<and>
     fst (NodeStore_GetNode (n_ID n') s') = Inr n'"
proof -
  obtain n' s' where
    c: "NodeStore_CreateNode (zero_node\<lparr>n_Name := ''n1''\<rparr>) (mem_init ex_supply) = (Inr n', s')"
    by (simp add: NodeStore_CreateNode_def mem_init_def time_now_def newUUID_eq uuid_at_def
        ex_supply_def zero_node_def Let_def)
  from node_create_get [OF mem_inv_init [OF ex_supply_distinct] c] c show ?thesis by auto
qed

text \<open>\<open>UpdateNode\<close> on every branch: a missing ID is \<open>ErrNotFound\<close>, a name that another node of
  the same cluster has is \<open>ErrConflict\<close>, both without any effect; otherwise exactly the row of that ID
  changes, to the caller's data with the old creation time.\<close>

theorem node_update_outcome:
  assumes "mem_inv s" and "NodeStore_UpdateNode n s = (r, s')"
  shows "(case map_of (mem_nodes s) (n_ID n) of
       None \<Rightarrow> r = Inl not_found_error \<and> s' = s
     | Some old \<Rightarrow>
         if \<exists>k m. map_of (mem_nodes s) k = Some m \<and> k \<noteq> n_ID n \<and> node_ukey m = node_ukey n
         then (\<exists>e. r = Inl e \<and> errors_is e (PersistenceErr ErrConflict)) \<and> s' = s
         else \<exists>n'. r = Inr n' \<and> n' = n\<lparr>n_CreatedAt := n_CreatedAt old, n_UpdatedAt := n_UpdatedAt n'\<rparr> \<and>
           map_of (mem_nodes s') = (map_of (mem_nodes s))(n_ID n \<mapsto> n') \<and>
           mem_clusters s' = mem_clusters s \<and> mem_insts s' = mem_insts s)"
proof (cases "map_of (mem_nodes s) (n_ID n)")
  case None
  with assms(2) show ?thesis by (auto simp: NodeStore_UpdateNode_def)
next
  case (Some old)
  have taken: "list_ex (\<lambda>(_, row). n_ID row \<noteq> n_ID n \<and> n_ClusterID row = n_ClusterID n \<and>
      n_Name row = n_Name n) (mem_nodes s) \<longleftrightarrow>
    (\<exists>k m. map_of (mem_nodes s) k = Some m \<and> k \<noteq> n_ID n \<and> node_ukey m = node_ukey n)"
    using assms(1) by (fastforce simp: list_ex_iff mem_inv_def rows_wf_set node_ukey_def
        dest: rows_wf_key)
  show ?thesis
  proof (cases "\<exists>k m. map_of (mem_nodes s) k = Some m \<and> k \<noteq> n_ID n \<and> node_ukey m = node_ukey n")
    case True
    with taken Some assms(2) show ?thesis
      by (auto simp: NodeStore_UpdateNode_def conflict_error_def)
  next
    case False
    with taken Some assms(2) show ?thesis
      by (auto simp: NodeStore_UpdateNode_def time_now_def Let_def)
  qed
qed

definition ex_mem :: mem where
  "ex_mem = (mem_init ex_supply)\<lparr>mem_nodes :=
     [(''a'', zero_node\<lparr>n_ID := ''a'', n_Name := ''n1'', n_CreatedAt := 7\<rparr>),
      (''b'', zero_node\<lparr>n_ID := ''b'', n_Name := ''n2'', n_CreatedAt := 8\<rparr>)]\<rparr>"

lemma ex_supply_long: "uuid_at ex_supply i = Some u \<Longrightarrow> length u = 36"
  by (auto simp: uuid_at_def uuid_text_groups)

lemma ex_mem_inv: "mem_inv ex_mem"
  using ex_supply_distinct
  by (fastforce simp: ex_mem_def mem_init_def mem_inv_def fresh_supply_def used_ids_def
      distinct_uuids_def rows_wf_def zero_node_def node_ukey_def dest: ex_supply_long)

theorem node_update_outcome_witness:
  "(\<exists>e s'. NodeStore_UpdateNode (zero_node\<lparr>n_ID := ''b'', n_Name := ''n1''\<rparr>) ex_mem = (Inl e, s') \<and>
      errors_is e (PersistenceErr ErrConflict) \<and> s' = ex_mem)"
proof -
  obtain r s' where
    u: "NodeStore_UpdateNode (zero_node\<lparr>n_ID := ''b'', n_Name := ''n1''\<rparr>) ex_mem = (r, s')"
    by (cases "NodeStore_UpdateNode (zero_node\<lparr>n_ID := ''b'', n_Name := ''n1''\<rparr>) ex_mem")
  have "\<exists>k m. map_of (mem_nodes ex_mem) k = Some m \<and> k \<noteq> ''b'' \<and> node_ukey m = ('''', ''n1'')"
    by (rule exI [of _ "''a''"]) (simp add: ex_mem_def zero_node_def node_ukey_def)
  with node_update_outcome [OF ex_mem_inv u] u show ?thesis
    by (auto simp: ex_mem_def mem_init_def zero_node_def node_ukey_def split: if_splits)
qed

end
