(* ===== verification/Lxd.thy ===== *)
theory Lxd
  imports Model
begin

section \<open>The LXD client boundary (internal/lxd)\<close>

text \<open>
  The result and configuration types of \<open>types.go\<close> as records, and the \<open>Client\<close> interface of
  \<open>client.go\<close> as a record of its methods on a state \<open>'w\<close>. A pointer result that is non-nil exactly
  when the error is nil is a plain value in \<open>'a res\<close>.
\<close>

record NodeInfo =
  ni_Name :: string
  ni_URL :: string
  ni_Status :: string
  ni_Message :: string
  ni_Architecture :: string
  ni_Description :: string
  ni_Roles :: "string list"

record CPUResources =
  CPU_Total :: "64 word"

record MemoryResources =
  Memory_Total :: "64 word"
  Memory_Used :: "64 word"

record DiskResources =
  Disk_Total :: "64 word"
  Disk_Used :: "64 word"

record NodeResources =
  nr_CPU :: CPUResources
  nr_Memory :: MemoryResources
  nr_Disk :: DiskResources

text \<open>The config of an instance, a \<open>map[string]string\<close> or nil.\<close>

type_synonym string_map = "(string \<Rightarrow> string option) option"

record InstanceInfo =
  ii_Name :: string
  ii_Status :: string
  ii_InstanceType :: string
  ii_Location :: string
  ii_Description :: string
  ii_Config :: string_map

record ClusterStatus =
  cs_Enabled :: bool
  cs_ServerName :: string
  cs_ClusterAddress :: string

record StoragePoolConfig =
  sp_Name :: string
  sp_Driver :: string

record ClusterInitConfig =
  ic_ServerName :: string
  ic_ClusterName :: string
  ic_ListenAddress :: string
  ic_StoragePool :: StoragePoolConfig
  ic_TrustToken :: string

record ClusterJoinConfig =
  jc_ServerName :: string
  jc_ClusterAddress :: string
  jc_ClusterCertificate :: string
  jc_TrustToken :: string
  jc_StoragePool :: StoragePoolConfig

record 'w lxd_client =
  Client_GetClusterMembers :: "'w \<Rightarrow> NodeInfo list res \<times> 'w"
  Client_GetClusterMember :: "string \<Rightarrow> 'w \<Rightarrow> NodeInfo res \<times> 'w"
  Client_GetNodeResources :: "string \<Rightarrow> 'w \<Rightarrow> NodeResources res \<times> 'w"
  Client_ListInstances :: "'w \<Rightarrow> InstanceInfo list res \<times> 'w"
  Client_GetInstance :: "string \<Rightarrow> 'w \<Rightarrow> InstanceInfo res \<times> 'w"
  Client_MoveInstance :: "string \<Rightarrow> string \<Rightarrow> 'w \<Rightarrow> go_error option \<times> 'w"
  Client_GetClusterStatus :: "'w \<Rightarrow> ClusterStatus res \<times> 'w"
  Client_GetClusterCertificate :: "'w \<Rightarrow> string res \<times> 'w"
  Client_InitCluster :: "ClusterInitConfig \<Rightarrow> 'w \<Rightarrow> go_error option \<times> 'w"
  Client_JoinCluster :: "ClusterJoinConfig \<Rightarrow> 'w \<Rightarrow> go_error option \<times> 'w"

text \<open>
  What the inventory code relies on: the read methods do not touch the part \<open>view\<close> of the state that
  the caller keeps (its repositories).
\<close>

locale lxd_reader =
  fixes C :: "'w lxd_client"
    and view :: "'w \<Rightarrow> 'v"
  assumes members_frame: "Client_GetClusterMembers C w = (rm, w') \<Longrightarrow> view w' = view w"
    and resources_frame: "Client_GetNodeResources C k w = (rr, w') \<Longrightarrow> view w' = view w"
    and instances_frame: "Client_ListInstances C w = (ri, w') \<Longrightarrow> view w' = view w"

text \<open>
  What the bootstrap code relies on: \<open>inv\<close> is kept, no method touches \<open>other\<close> (the other node), a node is
  clustered or not, and it becomes clustered by a successful \<open>InitCluster\<close> or \<open>JoinCluster\<close> only, which
  a clustered node refuses with \<open>ErrClusterAlreadyBootstrapped\<close>.
\<close>

locale lxd_clustering =
  fixes C :: "'w lxd_client"
    and clustered :: "'w \<Rightarrow> bool"
    and inv :: "'w \<Rightarrow> bool"
    and other :: "'w \<Rightarrow> 'o"
  assumes status_frame: "inv w \<Longrightarrow> Client_GetClusterStatus C w = (rs, w') \<Longrightarrow>
        inv w' \<and> clustered w' = clustered w \<and> other w' = other w"
    and status_ok: "inv w \<Longrightarrow> Client_GetClusterStatus C w = (Inr st, w') \<Longrightarrow> cs_Enabled st = clustered w"
    and certificate_frame: "inv w \<Longrightarrow> Client_GetClusterCertificate C w = (rc, w') \<Longrightarrow>
        inv w' \<and> clustered w' = clustered w \<and> other w' = other w"
    and members_frame: "inv w \<Longrightarrow> Client_GetClusterMembers C w = (rm, w') \<Longrightarrow>
        inv w' \<and> clustered w' = clustered w \<and> other w' = other w"
    and init_frame: "inv w \<Longrightarrow> Client_InitCluster C ic w = (re, w') \<Longrightarrow> inv w' \<and> other w' = other w"
    and init_ok: "inv w \<Longrightarrow> Client_InitCluster C ic w = (None, w') \<Longrightarrow> \<not> clustered w \<and> clustered w'"
    and init_err: "inv w \<Longrightarrow> Client_InitCluster C ic w = (Some e, w') \<Longrightarrow> clustered w' = clustered w"
    and init_already: "inv w \<Longrightarrow> Client_InitCluster C ic w = (Some e, w') \<Longrightarrow>
        errors_is e (LxdErr ErrClusterAlreadyBootstrapped) \<Longrightarrow> clustered w"
    and join_frame: "inv w \<Longrightarrow> Client_JoinCluster C jc w = (re, w') \<Longrightarrow> inv w' \<and> other w' = other w"
    and join_ok: "inv w \<Longrightarrow> Client_JoinCluster C jc w = (None, w') \<Longrightarrow> \<not> clustered w \<and> clustered w'"
    and join_err: "inv w \<Longrightarrow> Client_JoinCluster C jc w = (Some e, w') \<Longrightarrow> clustered w' = clustered w"
    and join_already: "inv w \<Longrightarrow> Client_JoinCluster C jc w = (Some e, w') \<Longrightarrow>
        errors_is e (LxdErr ErrClusterAlreadyBootstrapped) \<Longrightarrow> clustered w"

end
