(* ===== verification/Lxd_Fake.thy ===== *)
theory Lxd_Fake
  imports Lxd
begin

section \<open>The in-memory LXD (internal/lxd/fake)\<close>

text \<open>
  The state of \<open>fake.Fake\<close> and its methods. The maps that a method ranges over are association lists, whose
  order stands for the order of the range.
  A method holds the mutex from start to end, so it is one atomic step. The seeding methods return
  the state only.
\<close>

record MoveRecord =
  mr_InstanceName :: string
  mr_TargetNode :: string

record Fake =
  f_nodes :: "(string \<times> NodeInfo) list"
  f_resources :: "(string \<times> NodeResources) list"
  f_instances :: "(string \<times> InstanceInfo) list"
  f_clustered :: bool
  f_clusterStatus :: "ClusterStatus option"
  f_certificate :: string
  f_InitError :: "go_error option"
  f_JoinError :: "go_error option"
  f_MoveError :: "go_error option"
  f_Moves :: "MoveRecord list"
  f_InitCalls :: "ClusterInitConfig list"
  f_JoinCalls :: "ClusterJoinConfig list"

definition New :: Fake where
  "New = \<lparr>f_nodes = [], f_resources = [], f_instances = [], f_clustered = False,
     f_clusterStatus = None, f_certificate = '''', f_InitError = None, f_JoinError = None,
     f_MoveError = None, f_Moves = [], f_InitCalls = [], f_JoinCalls = []\<rparr>"

subsection \<open>Seeding\<close>

definition SetClustered :: "bool \<Rightarrow> Fake \<Rightarrow> Fake" where
  "SetClustered enabled f = f\<lparr>f_clustered := enabled\<rparr>"

definition SetClusterStatus :: "ClusterStatus \<Rightarrow> Fake \<Rightarrow> Fake" where
  "SetClusterStatus s f = f\<lparr>f_clusterStatus := Some s, f_clustered := cs_Enabled s\<rparr>"

definition SetClusterCertificate :: "string \<Rightarrow> Fake \<Rightarrow> Fake" where
  "SetClusterCertificate pem f = f\<lparr>f_certificate := pem\<rparr>"

definition AddNode :: "NodeInfo \<Rightarrow> Fake \<Rightarrow> Fake" where
  "AddNode n f = f\<lparr>f_nodes := AList.update (ni_Name n) n (f_nodes f)\<rparr>"

definition SetNodeResources :: "string \<Rightarrow> NodeResources \<Rightarrow> Fake \<Rightarrow> Fake" where
  "SetNodeResources nodeName r f = f\<lparr>f_resources := AList.update nodeName r (f_resources f)\<rparr>"

definition AddInstance :: "InstanceInfo \<Rightarrow> Fake \<Rightarrow> Fake" where
  "AddInstance i f = f\<lparr>f_instances := AList.update (ii_Name i) i (f_instances f)\<rparr>"

definition RemoveNode :: "string \<Rightarrow> Fake \<Rightarrow> Fake" where
  "RemoveNode name f =
     f\<lparr>f_nodes := AList.delete name (f_nodes f), f_resources := AList.delete name (f_resources f)\<rparr>"

definition RemoveInstance :: "string \<Rightarrow> Fake \<Rightarrow> Fake" where
  "RemoveInstance name f = f\<lparr>f_instances := AList.delete name (f_instances f)\<rparr>"

subsection \<open>The client methods\<close>

definition Fake_GetClusterMembers :: "Fake \<Rightarrow> NodeInfo list res \<times> Fake" where
  "Fake_GetClusterMembers f = (Inr (map snd (f_nodes f)), f)"

definition Fake_GetClusterMember :: "string \<Rightarrow> Fake \<Rightarrow> NodeInfo res \<times> Fake" where
  "Fake_GetClusterMember name f =
     (case map_of (f_nodes f) name of
        None \<Rightarrow> Inl (Wrapf ''fake lxd: get cluster member %q: %w'' [name]
                  (Sentinel (LxdErr ErrNodeNotFound)))
      | Some n \<Rightarrow> Inr n, f)"

definition Fake_GetNodeResources :: "string \<Rightarrow> Fake \<Rightarrow> NodeResources res \<times> Fake" where
  "Fake_GetNodeResources nodeName f =
     (case map_of (f_resources f) nodeName of
        None \<Rightarrow> Inl (Wrapf ''fake lxd: get node resources %q: %w'' [nodeName]
                  (Sentinel (LxdErr ErrNodeNotFound)))
      | Some r \<Rightarrow> Inr r, f)"

definition Fake_ListInstances :: "Fake \<Rightarrow> InstanceInfo list res \<times> Fake" where
  "Fake_ListInstances f = (Inr (map snd (f_instances f)), f)"

definition Fake_GetInstance :: "string \<Rightarrow> Fake \<Rightarrow> InstanceInfo res \<times> Fake" where
  "Fake_GetInstance name f =
     (case map_of (f_instances f) name of
        None \<Rightarrow> Inl (Wrapf ''fake lxd: get instance %q: %w'' [name]
                  (Sentinel (LxdErr ErrInstanceNotFound)))
      | Some i \<Rightarrow> Inr i, f)"

definition Fake_MoveInstance :: "string \<Rightarrow> string \<Rightarrow> Fake \<Rightarrow> go_error option \<times> Fake" where
  "Fake_MoveInstance instanceName targetNode f0 =
     (let f = f0\<lparr>f_Moves := f_Moves f0 @
            [\<lparr>mr_InstanceName = instanceName, mr_TargetNode = targetNode\<rparr>]\<rparr>
      in case f_MoveError f of
           Some e \<Rightarrow> (Some e, f)
         | None \<Rightarrow>
             (case map_of (f_instances f) instanceName of
                None \<Rightarrow> (Some (Wrapf ''fake lxd: move instance %q: %w'' [instanceName]
                          (Sentinel (LxdErr ErrInstanceNotFound))), f)
              | Some i \<Rightarrow>
                  (case map_of (f_nodes f) targetNode of
                     None \<Rightarrow> (Some (Wrapf ''fake lxd: move instance %q: target %q: %w''
                               [instanceName, targetNode] (Sentinel (LxdErr ErrNodeNotFound))), f)
                   | Some _ \<Rightarrow>
                       (None, f\<lparr>f_instances := AList.update instanceName (i\<lparr>ii_Location := targetNode\<rparr>)
                          (f_instances f)\<rparr>))))"

definition Fake_GetClusterStatus :: "Fake \<Rightarrow> ClusterStatus res \<times> Fake" where
  "Fake_GetClusterStatus f =
     (case f_clusterStatus f of
        Some s \<Rightarrow> (Inr s, f)
      | None \<Rightarrow> (Inr \<lparr>cs_Enabled = f_clustered f, cs_ServerName = '''', cs_ClusterAddress = ''''\<rparr>, f))"

definition Fake_GetClusterCertificate :: "Fake \<Rightarrow> string res \<times> Fake" where
  "Fake_GetClusterCertificate f =
     (if f_certificate f = ''''
      then (Inl (Errorf ''fake lxd: get cluster certificate: no certificate seeded'' []), f)
      else (Inr (f_certificate f), f))"

text \<open>The part of \<open>InitCluster\<close> and \<open>JoinCluster\<close> that marks the node clustered.\<close>

definition mark_clustered :: "string \<Rightarrow> Fake \<Rightarrow> Fake" where
  "mark_clustered serverName f =
     (let st = (case f_clusterStatus f of
                  None \<Rightarrow> \<lparr>cs_Enabled = False, cs_ServerName = '''', cs_ClusterAddress = ''''\<rparr>
                | Some s \<Rightarrow> s)
      in f\<lparr>f_clustered := True,
           f_clusterStatus := Some (st\<lparr>cs_Enabled := True, cs_ServerName := serverName\<rparr>)\<rparr>)"

definition Fake_InitCluster :: "ClusterInitConfig \<Rightarrow> Fake \<Rightarrow> go_error option \<times> Fake" where
  "Fake_InitCluster cfg f0 =
     (let f = f0\<lparr>f_InitCalls := f_InitCalls f0 @ [cfg]\<rparr>
      in case f_InitError f of
           Some e \<Rightarrow> (Some e, f)
         | None \<Rightarrow>
             if f_clustered f
             then (Some (Wrapf ''fake lxd: init cluster: %w'' []
                     (Sentinel (LxdErr ErrClusterAlreadyBootstrapped))), f)
             else (None, mark_clustered (ic_ServerName cfg) f))"

definition Fake_JoinCluster :: "ClusterJoinConfig \<Rightarrow> Fake \<Rightarrow> go_error option \<times> Fake" where
  "Fake_JoinCluster cfg f0 =
     (let f = f0\<lparr>f_JoinCalls := f_JoinCalls f0 @ [cfg]\<rparr>
      in case f_JoinError f of
           Some e \<Rightarrow> (Some e, f)
         | None \<Rightarrow>
             if f_clustered f
             then (Some (Wrapf ''fake lxd: join cluster: %w'' []
                     (Sentinel (LxdErr ErrClusterAlreadyBootstrapped))), f)
             else (None, mark_clustered (jc_ServerName cfg) f))"

lemmas fake_simps =
  Fake_GetClusterMembers_def Fake_GetClusterMember_def Fake_GetNodeResources_def
  Fake_ListInstances_def Fake_GetInstance_def Fake_MoveInstance_def Fake_GetClusterStatus_def
  Fake_GetClusterCertificate_def Fake_InitCluster_def Fake_JoinCluster_def mark_clustered_def

subsection \<open>A fake inside a larger state\<close>

text \<open>The client interface of the fake that \<open>sel\<close> reads from a state \<open>'w\<close> and \<open>put\<close> writes back.\<close>

definition lift_fake :: "('w \<Rightarrow> Fake) \<Rightarrow> (Fake \<Rightarrow> 'w \<Rightarrow> 'w) \<Rightarrow> (Fake \<Rightarrow> 'a \<times> Fake) \<Rightarrow> 'w \<Rightarrow> 'a \<times> 'w" where
  "lift_fake sel put m w = (case m (sel w) of (r, f) \<Rightarrow> (r, put f w))"

definition fake_client :: "('w \<Rightarrow> Fake) \<Rightarrow> (Fake \<Rightarrow> 'w \<Rightarrow> 'w) \<Rightarrow> 'w lxd_client" where
  "fake_client sel put = \<lparr>
     Client_GetClusterMembers = lift_fake sel put Fake_GetClusterMembers,
     Client_GetClusterMember = (\<lambda>k. lift_fake sel put (Fake_GetClusterMember k)),
     Client_GetNodeResources = (\<lambda>k. lift_fake sel put (Fake_GetNodeResources k)),
     Client_ListInstances = lift_fake sel put Fake_ListInstances,
     Client_GetInstance = (\<lambda>k. lift_fake sel put (Fake_GetInstance k)),
     Client_MoveInstance = (\<lambda>i t. lift_fake sel put (Fake_MoveInstance i t)),
     Client_GetClusterStatus = lift_fake sel put Fake_GetClusterStatus,
     Client_GetClusterCertificate = lift_fake sel put Fake_GetClusterCertificate,
     Client_InitCluster = (\<lambda>cfg. lift_fake sel put (Fake_InitCluster cfg)),
     Client_JoinCluster = (\<lambda>cfg. lift_fake sel put (Fake_JoinCluster cfg))\<rparr>"

text \<open>
  The two places that record the clustering state agree. \<open>SetClustered\<close> after \<open>SetClusterStatus\<close>
  breaks this; the client methods keep it.
\<close>

definition fake_ok :: "Fake \<Rightarrow> bool" where
  "fake_ok f \<longleftrightarrow> (case f_clusterStatus f of None \<Rightarrow> True | Some s \<Rightarrow> cs_Enabled s = f_clustered f)"

lemma fake_ok_New: "fake_ok New"
  by (simp add: fake_ok_def New_def)

lemma fake_ok_methods:
  "fake_ok f \<Longrightarrow> fake_ok (snd (Fake_GetClusterMembers f))"
  "fake_ok f \<Longrightarrow> fake_ok (snd (Fake_GetNodeResources k f))"
  "fake_ok f \<Longrightarrow> fake_ok (snd (Fake_ListInstances f))"
  "fake_ok f \<Longrightarrow> fake_ok (snd (Fake_MoveInstance k t f))"
  "fake_ok f \<Longrightarrow> fake_ok (snd (Fake_GetClusterStatus f))"
  "fake_ok f \<Longrightarrow> fake_ok (snd (Fake_GetClusterCertificate f))"
  "fake_ok f \<Longrightarrow> fake_ok (snd (Fake_InitCluster ic f))"
  "fake_ok f \<Longrightarrow> fake_ok (snd (Fake_JoinCluster jc f))"
  by (auto simp: fake_ok_def fake_simps Let_def split: option.splits)

end
