(* ===== verification/Reconcile.thy ===== *)
theory Reconcile
  imports Prelude
begin

section \<open>Reconciling a table with an observed list\<close>

text \<open>
  The two inventory syncs share one scheme: index the rows of a cluster by a key, update or create a
  row for every observed item (the first error ends the run), then mark the rows whose key was not
  observed. This theory states the scheme over any row type, with what the syncs rely on as locales,
  and proves what a run does to the table.
\<close>

definition index_rows :: "('r \<Rightarrow> string) \<Rightarrow> 'r list \<Rightarrow> (string \<times> 'r) list" where
  "index_rows rkey existing = fold (\<lambda>r. AList.update (rkey r) r) existing []"

text \<open>Update the row of a known item, create a row for a new one. The error messages differ.\<close>

definition upsert_item ::
    "('r \<Rightarrow> 'w \<Rightarrow> 'r res \<times> 'w) \<Rightarrow> ('r \<Rightarrow> 'w \<Rightarrow> 'r res \<times> 'w) \<Rightarrow>
     (string \<Rightarrow> go_error \<Rightarrow> go_error) \<Rightarrow> (string \<Rightarrow> go_error \<Rightarrow> go_error) \<Rightarrow>
     ('m \<Rightarrow> string) \<Rightarrow> ('r \<Rightarrow> 'm \<Rightarrow> 'r) \<Rightarrow> ('m \<Rightarrow> 'r) \<Rightarrow> (string \<times> 'r) list \<Rightarrow> 'm \<Rightarrow> 'w \<Rightarrow>
     go_error option \<times> 'w" where
  "upsert_item update create uerr cerr ikey track fresh known m w =
     (case map_of known (ikey m) of
        Some db \<Rightarrow>
          (case update (track db m) w of
             (Inl err, w') \<Rightarrow> (Some (uerr (ikey m) err), w')
           | (Inr _, w') \<Rightarrow> (None, w'))
      | None \<Rightarrow>
          (case create (fresh m) w of
             (Inl err, w') \<Rightarrow> (Some (cerr (ikey m) err), w')
           | (Inr _, w') \<Rightarrow> (None, w')))"

text \<open>Mark the rows that were not seen; a failure is logged only.\<close>

fun mark_lost ::
    "('r \<Rightarrow> 'w \<Rightarrow> 'r res \<times> 'w) \<Rightarrow> ('r \<Rightarrow> 'r) \<Rightarrow> string list \<Rightarrow> (string \<times> 'r) list \<Rightarrow> 'w \<Rightarrow> 'w" where
  "mark_lost update lose seenNames [] w = w"
| "mark_lost update lose seenNames ((x, r) # entries) w =
     (if x \<in> set seenNames then mark_lost update lose seenNames entries w
      else mark_lost update lose seenNames entries (snd (update (lose r) w)))"

text \<open>The index.\<close>

lemma index_rows_fold:
  "map_of (fold (\<lambda>r. AList.update (f r) r) rs m) x =
     (case map_of (rev (map (\<lambda>r. (f r, r)) rs)) x of None \<Rightarrow> map_of m x | Some r \<Rightarrow> Some r)"
  by (induction rs arbitrary: m) (auto simp: map_add_def split: option.splits)

lemma index_rows_distinct: "distinct (map fst (index_rows f rs))"
proof -
  have "distinct (map fst m) \<Longrightarrow> distinct (map fst (fold (\<lambda>r. AList.update (f r) r) rs m))" for m
    by (induction rs arbitrary: m) simp_all
  then show ?thesis by (simp add: index_rows_def)
qed

lemma index_rows_lookup: "map_of (index_rows f rs) x = map_of (rev (map (\<lambda>r. (f r, r)) rs)) x"
  by (simp add: index_rows_def index_rows_fold split: option.split)

lemma index_rows_Some: "map_of (index_rows f rs) x = Some r \<Longrightarrow> r \<in> set rs \<and> f r = x"
  unfolding index_rows_lookup by (drule map_of_SomeD) auto

lemma index_rows_None: "map_of (index_rows f rs) x = None \<longleftrightarrow> x \<notin> f ` set rs"
  unfolding index_rows_lookup by (simp add: map_of_eq_None_iff image_image)

lemma index_rows_sole:
  assumes "r \<in> set rs" and "\<And>s. s \<in> set rs \<Longrightarrow> f s = f r \<Longrightarrow> s = r"
  shows "map_of (index_rows f rs) (f r) = Some r"
proof -
  from assms(1) have "map_of (index_rows f rs) (f r) \<noteq> None" by (simp add: index_rows_None)
  then obtain s where s: "map_of (index_rows f rs) (f r) = Some s" by blast
  with index_rows_Some [OF s] assms(2) show ?thesis by auto
qed

text \<open>The rows that no entry of the index for a given list of keys refers to.\<close>

definition untouched :: "('r \<Rightarrow> string) \<Rightarrow> (string \<times> 'r) list \<Rightarrow> string list \<Rightarrow> string \<Rightarrow> bool" where
  "untouched rid known names k \<longleftrightarrow> (\<forall>x \<in> set names. \<forall>db. map_of known x = Some db \<longrightarrow> rid db \<noteq> k)"

section \<open>The interface\<close>

text \<open>
  \<open>row_store\<close>: a table of rows, keyed by \<open>rid\<close> and with unique names per cluster, its update and
  create operations; \<open>data\<close> is a row without its timestamps, \<open>set_id\<close> stores an ID in a row.
\<close>

locale row_store =
  fixes tbl :: "'w \<Rightarrow> string \<Rightarrow> 'r option"
    and inv :: "'w \<Rightarrow> bool"
    and update :: "'r \<Rightarrow> 'w \<Rightarrow> 'r res \<times> 'w"
    and create :: "'r \<Rightarrow> 'w \<Rightarrow> 'r res \<times> 'w"
    and rid rcl rname :: "'r \<Rightarrow> string"
    and data :: "'r \<Rightarrow> 'r"
    and created :: "'r \<Rightarrow> time"
    and set_id :: "string \<Rightarrow> 'r \<Rightarrow> 'r"
  assumes row_key: "inv w \<Longrightarrow> tbl w k = Some r \<Longrightarrow> rid r = k"
    and row_name: "inv w \<Longrightarrow> tbl w k = Some r \<Longrightarrow> tbl w k' = Some r' \<Longrightarrow>
          rcl r = rcl r' \<Longrightarrow> rname r = rname r' \<Longrightarrow> k = k'"
    and row_create_ok: "inv w \<Longrightarrow> create r w = (Inr r', w') \<Longrightarrow> inv w' \<and> tbl w (rid r') = None \<and>
          tbl w' = (tbl w)(rid r' \<mapsto> r') \<and> data r' = data (set_id (rid r') r)"
    and row_create_err: "inv w \<Longrightarrow> create r w = (Inl e, w') \<Longrightarrow> inv w' \<and> tbl w' = tbl w"
    and row_update_ok: "inv w \<Longrightarrow> update r w = (Inr r', w') \<Longrightarrow> inv w' \<and>
          tbl w' = (tbl w)(rid r \<mapsto> r') \<and> data r' = data r \<and>
          (\<exists>old. tbl w (rid r) = Some old \<and> created r' = created old)"
    and row_update_err: "inv w \<Longrightarrow> update r w = (Inl e, w') \<Longrightarrow> inv w' \<and> tbl w' = tbl w"

text \<open>
  \<open>reconciler\<close>: the rows of the cluster \<open>c\<close> are matched with items by \<open>rkey\<close> and \<open>ikey\<close>. \<open>track\<close>
  applies an item to its row, \<open>fresh\<close> makes the row of a new item, \<open>lose\<close> marks a row; none of them
  changes \<open>ident\<close>, which determines a row's ID, cluster, name, key and creation time.
\<close>

locale reconciler = row_store +
  fixes c :: string
    and rkey :: "'b \<Rightarrow> string"
    and ident :: "'b \<Rightarrow> 'i"
    and ikey :: "'m \<Rightarrow> string"
    and track :: "'b \<Rightarrow> 'm \<Rightarrow> 'b"
    and fresh :: "'m \<Rightarrow> 'b"
    and lose :: "'b \<Rightarrow> 'b"
    and uerr cerr :: "string \<Rightarrow> go_error \<Rightarrow> go_error"
  assumes ident_fields: "ident a = ident b \<Longrightarrow>
          rid a = rid b \<and> rcl a = rcl b \<and> rname a = rname b \<and> rkey a = rkey b \<and> created a = created b"
    and data_fields: "data a = data b \<Longrightarrow> rid a = rid b \<and> rcl a = rcl b \<and> rname a = rname b \<and> rkey a = rkey b"
    and ident_of_data: "data a = data b \<Longrightarrow> created a = created r \<Longrightarrow> ident b = ident r \<Longrightarrow> ident a = ident r"
    and track_ident: "ident (track r m) = ident r"
    and lose_ident: "ident (lose r) = ident r"
    and fresh_fields: "rcl (set_id k (fresh m)) = c \<and> rkey (set_id k (fresh m)) = ikey m \<and>
          rname (set_id k (fresh m)) = ikey m"
    and track_data: "data a = data b \<Longrightarrow> data (track a m) = data (track b m)"
    and lose_data: "data a = data b \<Longrightarrow> data (lose a) = data (lose b)"
    and track_idem: "track (track r m) m = track r m"
    and lose_idem: "lose (lose r) = lose r"
    and track_fresh: "track (set_id k (fresh m)) m = set_id k (fresh m)"
begin

text \<open>No row disappears, rows keep their identity, rows of other clusters are untouched and rows are
  added for this cluster only.\<close>

definition keeps :: "(string \<Rightarrow> 'b option) \<Rightarrow> (string \<Rightarrow> 'b option) \<Rightarrow> bool" where
  "keeps T T' \<longleftrightarrow>
     (\<forall>k old. T k = Some old \<longrightarrow> (\<exists>new. T' k = Some new \<and> ident new = ident old \<and>
        (rcl old \<noteq> c \<longrightarrow> new = old))) \<and>
     (\<forall>k new. T k = None \<longrightarrow> T' k = Some new \<longrightarrow> rcl new = c)"

text \<open>An index whose entries are rows of the cluster, up to the fields that a run changes.\<close>

definition known_ok :: "(string \<times> 'b) list \<Rightarrow> (string \<Rightarrow> 'b option) \<Rightarrow> bool" where
  "known_ok known T \<longleftrightarrow>
     (\<forall>(x, db) \<in> set known. rkey db = x \<and> rcl db = c \<and>
        (\<exists>cur. T (rid db) = Some cur \<and> ident cur = ident db))"

text \<open>The row is the only one of its cluster with its key.\<close>

definition sole :: "(string \<Rightarrow> 'b option) \<Rightarrow> 'b \<Rightarrow> bool" where
  "sole T n \<longleftrightarrow> (\<forall>k m. T k = Some m \<longrightarrow> rcl m = c \<longrightarrow> rkey m = rkey n \<longrightarrow> m = n)"

definition keys_unique :: "(string \<Rightarrow> 'b option) \<Rightarrow> bool" where
  "keys_unique T \<longleftrightarrow> (\<forall>k n. T k = Some n \<longrightarrow> rcl n = c \<longrightarrow> sole T n)"

text \<open>What a row becomes under the observed items.\<close>

definition target :: "'m list \<Rightarrow> 'b \<Rightarrow> 'b" where
  "target ms old =
     (case List.find (\<lambda>m. ikey m = rkey old) ms of Some m \<Rightarrow> track old m | None \<Rightarrow> lose old)"

abbreviation upsert :: "(string \<times> 'b) list \<Rightarrow> 'm \<Rightarrow> 'a \<Rightarrow> go_error option \<times> 'a" where
  "upsert \<equiv> upsert_item update create uerr cerr ikey track fresh"

lemma track_fields [simp]:
  "rid (track r m) = rid r" "rcl (track r m) = rcl r" "rname (track r m) = rname r"
  "rkey (track r m) = rkey r"
  using ident_fields [OF track_ident] by simp_all

lemma lose_fields [simp]:
  "rid (lose r) = rid r" "rcl (lose r) = rcl r" "rname (lose r) = rname r" "rkey (lose r) = rkey r"
  using ident_fields [OF lose_ident] by simp_all

end

section \<open>What a run does to the table\<close>

context reconciler
begin

lemma keeps_refl [simp]: "keeps T T"
  by (simp add: keeps_def)

lemma keepsD:
  "keeps T T' \<Longrightarrow> T k = Some old \<Longrightarrow>
     \<exists>new. T' k = Some new \<and> ident new = ident old \<and> (rcl old \<noteq> c \<longrightarrow> new = old)"
  by (auto simp: keeps_def)

lemma keeps_newD: "keeps T T' \<Longrightarrow> T k = None \<Longrightarrow> T' k = Some new \<Longrightarrow> rcl new = c"
  by (auto simp: keeps_def)

lemma keeps_trans:
  assumes TU: "keeps T U" and UV: "keeps U V"
  shows "keeps T V"
proof -
  have "\<exists>new. V k = Some new \<and> ident new = ident old \<and> (rcl old \<noteq> c \<longrightarrow> new = old)"
    if "T k = Some old" for k old
  proof -
    from keepsD [OF TU that] obtain mid where mid: "U k = Some mid" "ident mid = ident old"
      "rcl old \<noteq> c \<longrightarrow> mid = old" by blast
    with keepsD [OF UV mid(1)] show ?thesis by auto
  qed
  moreover have "rcl new = c" if "T k = None" "V k = Some new" for k new
  proof (cases "U k")
    case None
    with keeps_newD [OF UV] that(2) show ?thesis by blast
  next
    case (Some mid)
    with keeps_newD [OF TU that(1)] have "rcl mid = c" by blast
    moreover from keepsD [OF UV Some] that(2) have "ident new = ident mid" by auto
    ultimately show ?thesis using ident_fields [of new mid] by simp
  qed
  ultimately show ?thesis unfolding keeps_def by blast
qed

lemma keeps_update:
  "T k = Some old \<Longrightarrow> ident new = ident old \<Longrightarrow> rcl old = c \<Longrightarrow> keeps T (T(k \<mapsto> new))"
  by (auto simp: keeps_def)

lemma keeps_create: "T k = None \<Longrightarrow> rcl new = c \<Longrightarrow> keeps T (T(k \<mapsto> new))"
  by (auto simp: keeps_def)

lemma keeps_old:
  assumes "keeps T T'" and "T' k = Some new" and "rcl new = c" and "T k \<noteq> None"
  obtains old where "T k = Some old" and "rcl old = c" and "rkey old = rkey new"
proof -
  from assms(4) obtain old where old: "T k = Some old" by blast
  with keepsD [OF assms(1) old] assms(2) have "ident new = ident old" by auto
  from ident_fields [OF this] assms(3) old show ?thesis by (intro that) simp_all
qed

lemma known_okD:
  "known_ok known T \<Longrightarrow> (x, db) \<in> set known \<Longrightarrow>
     rkey db = x \<and> rcl db = c \<and> (\<exists>cur. T (rid db) = Some cur \<and> ident cur = ident db)"
  by (auto simp: known_ok_def)

lemma known_ok_keeps: "known_ok known T \<Longrightarrow> keeps T T' \<Longrightarrow> known_ok known T'"
  unfolding known_ok_def keeps_def by fastforce

lemma known_ok_inj:
  "known_ok known T \<Longrightarrow> (x, db) \<in> set known \<Longrightarrow> (y, db') \<in> set known \<Longrightarrow> rid db = rid db' \<Longrightarrow> x = y"
  using known_okD [of known T x db] known_okD [of known T y db'] ident_fields [of db db'] by auto

lemma known_ok_set: "set es = set known \<Longrightarrow> known_ok es T \<longleftrightarrow> known_ok known T"
  by (simp add: known_ok_def)

lemma soleD: "sole T n \<Longrightarrow> T k = Some m \<Longrightarrow> rcl m = c \<Longrightarrow> rkey m = rkey n \<Longrightarrow> m = n"
  by (auto simp: sole_def)

lemma keys_uniqueD: "keys_unique T \<Longrightarrow> T k = Some n \<Longrightarrow> rcl n = c \<Longrightarrow> sole T n"
  by (auto simp: keys_unique_def)

text \<open>One row.\<close>

lemma update_keeps:
  assumes "inv w" and "tbl w k = Some cur" and "rid n = k" and "ident n = ident cur" and "rcl cur = c"
    and "update n w = (r, w')"
  shows "inv w' \<and> keeps (tbl w) (tbl w') \<and> (\<forall>n'. r = Inr n' \<longrightarrow> tbl w' = (tbl w)(k \<mapsto> n') \<and> data n' = data n)"
proof (cases r)
  case (Inl e)
  with row_update_err [OF assms(1), of n e w'] assms(6) show ?thesis by simp
next
  case (Inr n')
  with assms(6) have u: "update n w = (Inr n', w')" by simp
  note ok = row_update_ok [OF assms(1) u]
  from ok assms(2,3) have "created n' = created cur" by auto
  with ok assms(4) have "ident n' = ident cur" by (auto intro: ident_of_data)
  then have "keeps (tbl w) ((tbl w)(k \<mapsto> n'))" using assms(2,5) by (intro keeps_update)
  with ok assms(3) Inr show ?thesis by simp
qed

lemma known_cur:
  assumes "known_ok known T" and "map_of known x = Some db"
  obtains cur where "T (rid db) = Some cur" and "ident cur = ident db" and "rcl db = c"
    and "rcl cur = c" and "rkey db = x"
proof -
  from known_okD [OF assms(1) map_of_SomeD [OF assms(2)]] obtain cur
    where cur: "T (rid db) = Some cur" "ident cur = ident db" "rcl db = c" "rkey db = x" by blast
  from ident_fields [OF cur(2)] cur show ?thesis by (intro that [OF cur(1)]) simp_all
qed

lemma upsert_ok:
  assumes "inv w" and "known_ok known (tbl w)" and "upsert known m w = (None, w')"
  shows "inv w' \<and> keeps (tbl w) (tbl w') \<and>
     (case map_of known (ikey m) of
        Some db \<Rightarrow> \<exists>n'. tbl w' = (tbl w)(rid db \<mapsto> n') \<and> data n' = data (track db m)
      | None \<Rightarrow> \<exists>k n'. tbl w k = None \<and> tbl w' = (tbl w)(k \<mapsto> n') \<and> data n' = data (set_id k (fresh m)))"
proof (cases "map_of known (ikey m)")
  case None
  with assms(3) obtain n' where cr: "create (fresh m) w = (Inr n', w')"
    by (auto simp: upsert_item_def split: prod.splits sum.splits)
  note ok = row_create_ok [OF assms(1) cr]
  then have "rcl n' = c" using data_fields [of n' "set_id (rid n') (fresh m)"] fresh_fields by simp
  with ok have "keeps (tbl w) (tbl w')" using keeps_create [of "tbl w" "rid n'" n'] by simp
  with None ok show ?thesis by auto
next
  case (Some db)
  from known_cur [OF assms(2) Some] obtain cur where cur: "tbl w (rid db) = Some cur"
    "ident cur = ident db" "rcl cur = c" .
  from assms(3) Some obtain n' where u: "update (track db m) w = (Inr n', w')"
    by (auto simp: upsert_item_def split: prod.splits sum.splits)
  from update_keeps [OF assms(1) cur(1) _ _ cur(3) u] cur(2) Some show ?thesis by (auto simp: track_ident)
qed

lemma upsert_err: "inv w \<Longrightarrow> upsert known m w = (Some e, w') \<Longrightarrow> inv w' \<and> tbl w' = tbl w"
  by (auto simp: upsert_item_def split: option.splits prod.splits sum.splits
      dest: row_create_err row_update_err)

text \<open>The loop over the items.\<close>

lemma upserts_keeps:
  "inv w \<Longrightarrow> known_ok known (tbl w) \<Longrightarrow> range_until_error (upsert known) ms w = (r, w') \<Longrightarrow>
     inv w' \<and> keeps (tbl w) (tbl w')"
proof (induction ms arbitrary: w)
  case (Cons m ms)
  obtain e w1 where m: "upsert known m w = (e, w1)" by fastforce
  show ?case
  proof (cases e)
    case None
    with m Cons.prems have w1: "inv w1" "keeps (tbl w) (tbl w1)" by (blast dest: upsert_ok)+
    with Cons.prems(2) have "known_ok known (tbl w1)" by (blast intro: known_ok_keeps)
    with Cons.IH [of w1] w1 Cons.prems(3) m None show ?thesis by (auto intro: keeps_trans)
  next
    case (Some err)
    with m Cons.prems upsert_err [of w known m err w1] show ?thesis by auto
  qed
qed simp

end

context reconciler
begin

text \<open>
  The effect of the loop on the table, as a relation: the row of each known item carries the item's
  data, each new item has a new row, the other rows are as before.
\<close>

definition upserted :: "(string \<times> 'b) list \<Rightarrow> 'm list \<Rightarrow> (string \<Rightarrow> 'b option) \<Rightarrow> (string \<Rightarrow> 'b option) \<Rightarrow> bool" where
  "upserted known ms T T' \<longleftrightarrow>
     (\<forall>m \<in> set ms. \<forall>db. map_of known (ikey m) = Some db \<longrightarrow>
        (\<exists>n'. T' (rid db) = Some n' \<and> data n' = data (track db m))) \<and>
     (\<forall>m \<in> set ms. map_of known (ikey m) = None \<longrightarrow>
        (\<exists>k n'. T k = None \<and> T' k = Some n' \<and> data n' = data (set_id k (fresh m)))) \<and>
     (\<forall>k n. T k = Some n \<longrightarrow> untouched rid known (map ikey ms) k \<longrightarrow> T' k = Some n) \<and>
     (\<forall>k n. T k = None \<longrightarrow> T' k = Some n \<longrightarrow>
        (\<exists>m \<in> set ms. map_of known (ikey m) = None \<and> data n = data (set_id k (fresh m))))"

lemma upserted_Nil: "upserted known [] T T"
  by (simp add: upserted_def)

lemma upserted_knownD:
  "upserted known ms T T' \<Longrightarrow> m \<in> set ms \<Longrightarrow> map_of known (ikey m) = Some db \<Longrightarrow>
     \<exists>n'. T' (rid db) = Some n' \<and> data n' = data (track db m)"
  unfolding upserted_def by blast

lemma upserted_newD:
  "upserted known ms T T' \<Longrightarrow> m \<in> set ms \<Longrightarrow> map_of known (ikey m) = None \<Longrightarrow>
     \<exists>k n'. T k = None \<and> T' k = Some n' \<and> data n' = data (set_id k (fresh m))"
  unfolding upserted_def by blast

lemma upserted_sameD:
  "upserted known ms T T' \<Longrightarrow> T k = Some n \<Longrightarrow> untouched rid known (map ikey ms) k \<Longrightarrow> T' k = Some n"
  unfolding upserted_def by blast

lemma upserted_createdD:
  "upserted known ms T T' \<Longrightarrow> T k = None \<Longrightarrow> T' k = Some n \<Longrightarrow>
     \<exists>m \<in> set ms. map_of known (ikey m) = None \<and> data n = data (set_id k (fresh m))"
  unfolding upserted_def by blast

lemma upserted_Cons_known:
  assumes "known_ok known T" and "map_of known (ikey m) = Some db" and "ikey m \<notin> set (map ikey ms)"
    and "data n' = data (track db m)" and tail: "upserted known ms (T(rid db \<mapsto> n')) T'"
  shows "upserted known (m # ms) T T'"
proof -
  from known_cur [OF assms(1,2)] obtain cur where cur: "T (rid db) = Some cur" "rkey db = ikey m" .
  have "untouched rid known (map ikey ms) (rid db)"
    unfolding untouched_def
  proof (intro ballI allI impI notI)
    fix x db' assume x: "x \<in> set (map ikey ms)" "map_of known x = Some db'" "rid db' = rid db"
    have "x = ikey m" by (rule known_ok_inj [OF assms(1) map_of_SomeD [OF x(2)] map_of_SomeD [OF assms(2)] x(3)])
    with x(1) assms(3) show False by simp
  qed
  with upserted_sameD [OF tail, of "rid db" n'] have row: "T' (rid db) = Some n'" by simp
  have none: "(T(rid db \<mapsto> n')) k = None \<longleftrightarrow> T k = None" for k using cur by simp
  show ?thesis
    unfolding upserted_def
  proof (intro conjI ballI allI impI)
    fix m' db' assume "m' \<in> set (m # ms)" "map_of known (ikey m') = Some db'"
    with assms(2,4) row upserted_knownD [OF tail]
    show "\<exists>n'. T' (rid db') = Some n' \<and> data n' = data (track db' m')" by auto
  next
    fix m' assume "m' \<in> set (m # ms)" "map_of known (ikey m') = None"
    with assms(2) upserted_newD [OF tail, of m'] none
    show "\<exists>k n'. T k = None \<and> T' k = Some n' \<and> data n' = data (set_id k (fresh m'))" by auto
  next
    fix k n assume "T k = Some n" "untouched rid known (map ikey (m # ms)) k"
    with assms(2) show "T' k = Some n"
      by (intro upserted_sameD [OF tail]) (auto simp: untouched_def)
  next
    fix k n assume "T k = None" "T' k = Some n"
    with upserted_createdD [OF tail, of k n] none
    show "\<exists>m \<in> set (m # ms). map_of known (ikey m) = None \<and> data n = data (set_id k (fresh m))" by auto
  qed
qed

lemma upserted_Cons_new:
  assumes "known_ok known T" and "map_of known (ikey m) = None" and "T j = None"
    and "data n' = data (set_id j (fresh m))" and tail: "upserted known ms (T(j \<mapsto> n')) T'"
  shows "upserted known (m # ms) T T'"
proof -
  have "untouched rid known (map ikey ms) j"
    unfolding untouched_def
  proof (intro ballI allI impI notI)
    fix x db assume "map_of known x = Some db" "rid db = j"
    with known_cur [OF assms(1) this(1)] assms(3) show False by auto
  qed
  with upserted_sameD [OF tail, of j n'] have row: "T' j = Some n'" by simp
  show ?thesis
    unfolding upserted_def
  proof (intro conjI ballI allI impI)
    fix m' db' assume "m' \<in> set (m # ms)" "map_of known (ikey m') = Some db'"
    with assms(2) upserted_knownD [OF tail, of m' db']
    show "\<exists>n'. T' (rid db') = Some n' \<and> data n' = data (track db' m')" by auto
  next
    fix m' assume m': "m' \<in> set (m # ms)" "map_of known (ikey m') = None"
    show "\<exists>k n'. T k = None \<and> T' k = Some n' \<and> data n' = data (set_id k (fresh m'))"
    proof (cases "m' = m")
      case True
      with assms(3,4) row show ?thesis by blast
    next
      case False
      with m' upserted_newD [OF tail, of m'] show ?thesis by (auto split: if_splits)
    qed
  next
    fix k n assume "T k = Some n" "untouched rid known (map ikey (m # ms)) k"
    with assms(3) show "T' k = Some n"
      by (intro upserted_sameD [OF tail]) (auto simp: untouched_def)
  next
    fix k n assume k: "T k = None" "T' k = Some n"
    show "\<exists>m \<in> set (m # ms). map_of known (ikey m) = None \<and> data n = data (set_id k (fresh m))"
    proof (cases "k = j")
      case True
      with k row assms(2,4) show ?thesis by auto
    next
      case False
      with k upserted_createdD [OF tail, of k n] show ?thesis by auto
    qed
  qed
qed

lemma upserts_upserted:
  "inv w \<Longrightarrow> known_ok known (tbl w) \<Longrightarrow> distinct (map ikey ms) \<Longrightarrow>
     range_until_error (upsert known) ms w = (None, w') \<Longrightarrow> upserted known ms (tbl w) (tbl w')"
proof (induction ms arbitrary: w)
  case Nil
  then show ?case by (simp add: upserted_Nil)
next
  case (Cons m ms)
  from Cons.prems(4) obtain w1 where m: "upsert known m w = (None, w1)"
    and ms: "range_until_error (upsert known) ms w1 = (None, w')"
    by (auto split: prod.splits option.splits)
  note step = upsert_ok [OF Cons.prems(1,2) m]
  with Cons.prems(2) have "inv w1" "known_ok known (tbl w1)" by (blast intro: known_ok_keeps)+
  with Cons.IH [OF this _ ms] Cons.prems(3) have IH: "upserted known ms (tbl w1) (tbl w')" by simp
  show ?case
  proof (cases "map_of known (ikey m)")
    case (Some db)
    with step obtain n' where "tbl w1 = (tbl w)(rid db \<mapsto> n')" "data n' = data (track db m)" by auto
    with IH Some Cons.prems(2,3) show ?thesis by (intro upserted_Cons_known [of known _ m db]) auto
  next
    case None
    with step obtain k n' where "tbl w k = None" "tbl w1 = (tbl w)(k \<mapsto> n')"
      "data n' = data (set_id k (fresh m))" by auto
    with IH None Cons.prems(2) show ?thesis by (intro upserted_Cons_new [of known _ m k]) auto
  qed
qed

end

context reconciler
begin

text \<open>The last loop.\<close>

lemma mark_lost_keeps:
  "inv w \<Longrightarrow> known_ok es (tbl w) \<Longrightarrow>
     inv (mark_lost update lose seen es w) \<and> keeps (tbl w) (tbl (mark_lost update lose seen es w))"
proof (induction es arbitrary: w)
  case (Cons e es)
  obtain x db where e: "e = (x, db)" by fastforce
  from Cons.prems(2) have kes: "known_ok es (tbl w)" by (simp add: known_ok_def)
  show ?case
  proof (cases "x \<in> set seen")
    case True
    with Cons.IH [OF Cons.prems(1) kes] e show ?thesis by simp
  next
    case False
    have "(x, db) \<in> set (e # es)" using e by simp
    from known_okD [OF Cons.prems(2) this] obtain cur
      where cur: "tbl w (rid db) = Some cur" "ident cur = ident db" "rcl db = c" by blast
    with ident_fields [OF cur(2)] have rcl: "rcl cur = c" by simp
    obtain r w1 where u: "update (lose db) w = (r, w1)" by fastforce
    from update_keeps [OF Cons.prems(1) cur(1) _ _ rcl u] cur(2)
    have w1: "inv w1" "keeps (tbl w) (tbl w1)" by (simp_all add: lose_ident)
    from Cons.IH [OF w1(1) known_ok_keeps [OF kes w1(2)]] w1 u e False show ?thesis
      by (auto intro: keeps_trans)
  qed
qed simp

section \<open>A whole run\<close>

text \<open>
  The writing phases from a state \<open>w\<close>: \<open>existing\<close> lists the rows of the cluster, \<open>p\<close> is the order in
  which the last loop visits the index.
\<close>

definition run :: "nat \<Rightarrow> 'b list \<Rightarrow> 'm list \<Rightarrow> 'a \<Rightarrow> go_error option \<times> 'a" where
  "run p existing ms w =
     (let known = index_rows rkey existing
      in case range_until_error (upsert known) ms w of
           (Some err, w') \<Rightarrow> (Some err, w')
         | (None, w') \<Rightarrow> (None, mark_lost update lose (map ikey ms) (reorder p known) w'))"

definition lists :: "'b list \<Rightarrow> (string \<Rightarrow> 'b option) \<Rightarrow> bool" where
  "lists existing T \<longleftrightarrow> set existing = {r \<in> ran T. rcl r = c}"

lemma index_entry:
  assumes "lists existing (tbl w)" and "inv w" and "map_of (index_rows rkey existing) x = Some db"
  shows "tbl w (rid db) = Some db \<and> rcl db = c \<and> rkey db = x"
  using index_rows_Some [OF assms(3)] assms(1)
  by (auto simp: lists_def elim!: ranE dest: row_key [OF assms(2)])

lemma index_none:
  "lists existing T \<Longrightarrow> map_of (index_rows rkey existing) x = None \<longleftrightarrow>
     (\<nexists>k n. T k = Some n \<and> rcl n = c \<and> rkey n = x)"
  by (auto simp: index_rows_None lists_def ran_def)

lemma index_sole:
  assumes "lists existing T" and "T k = Some n" and "rcl n = c" and "sole T n"
  shows "map_of (index_rows rkey existing) (rkey n) = Some n"
  using assms by (intro index_rows_sole) (auto simp: lists_def ran_def intro: soleD)

lemma index_known_ok:
  assumes "lists existing (tbl w)" and "inv w"
  shows "known_ok (index_rows rkey existing) (tbl w)"
  using index_entry [OF assms] by (auto simp: known_ok_def index_rows_distinct)

lemma run_keeps:
  assumes "inv w" and "lists existing (tbl w)" and "run p existing ms w = (r, w')"
  shows "inv w' \<and> keeps (tbl w) (tbl w')"
proof -
  let ?known = "index_rows rkey existing"
  obtain e w1 where u: "range_until_error (upsert ?known) ms w = (e, w1)" by fastforce
  note ok = index_known_ok [OF assms(2,1)]
  from upserts_keeps [OF assms(1) ok u] have w1: "inv w1" "keeps (tbl w) (tbl w1)" by simp_all
  show ?thesis
  proof (cases e)
    case None
    have "known_ok (reorder p ?known) (tbl w1)"
      using known_ok_keeps [OF ok w1(2)] known_ok_set [OF set_reorder] by blast
    from mark_lost_keeps [OF w1(1) this] w1 u None assms(3) show ?thesis
      by (auto simp: run_def intro: keeps_trans)
  next
    case (Some err)
    with u w1 assms(3) show ?thesis by (auto simp: run_def)
  qed
qed

end

section \<open>When updates succeed\<close>

text \<open>A store whose updates fail only for a missing row or a taken name.\<close>

locale total_reconciler = reconciler +
  assumes row_update_total: "inv w \<Longrightarrow> tbl w (rid r) \<noteq> None \<Longrightarrow>
          (\<And>k s. tbl w k = Some s \<Longrightarrow> rcl s = rcl r \<Longrightarrow> rname s = rname r \<Longrightarrow> k = rid r) \<Longrightarrow>
          \<exists>r' w'. update r w = (Inr r', w')"
begin

lemma update_row:
  assumes "inv w" and "tbl w k = Some cur" and "rid n = k" and "ident n = ident cur" and "rcl cur = c"
  obtains n' w' where "update n w = (Inr n', w')" and "inv w'"
    and "tbl w' = (tbl w)(k \<mapsto> n')" and "data n' = data n" and "keeps (tbl w) (tbl w')"
proof -
  note f = ident_fields [OF assms(4)]
  have "\<exists>n' w'. update n w = (Inr n', w')"
  proof (rule row_update_total [OF assms(1)])
    show "tbl w (rid n) \<noteq> None" using assms(2,3) by simp
    show "j = rid n" if "tbl w j = Some m" "rcl m = rcl n" "rname m = rname n" for j m
      using row_name [OF assms(1) that(1) assms(2)] that f assms(3) by simp
  qed
  then obtain n' w' where u: "update n w = (Inr n', w')" by blast
  from update_keeps [OF assms u] have "inv w'" "tbl w' = (tbl w)(k \<mapsto> n')" "data n' = data n" "keeps (tbl w) (tbl w')" by blast+
  then show ?thesis by (rule that [OF u])
qed

lemma upsert_known_total:
  assumes "inv w" and "known_ok known (tbl w)" and "map_of known (ikey m) = Some db"
  shows "\<exists>w'. upsert known m w = (None, w')"
proof -
  from known_cur [OF assms(2,3)] obtain cur where "tbl w (rid db) = Some cur"
    "ident cur = ident db" "rcl cur = c" .
  with assms(1) obtain n' w1 where "update (track db m) w = (Inr n', w1)"
    by (auto simp: track_ident intro: update_row [of w "rid db" cur "track db m"])
  with assms(3) show ?thesis by (simp add: upsert_item_def)
qed

lemma upserts_total:
  "inv w \<Longrightarrow> known_ok known (tbl w) \<Longrightarrow> ikey ` set ms \<subseteq> fst ` set known \<Longrightarrow>
     \<exists>w'. range_until_error (upsert known) ms w = (None, w')"
proof (induction ms arbitrary: w)
  case (Cons m ms)
  from Cons.prems(3) have "map_of known (ikey m) \<noteq> None" by (simp add: map_of_eq_None_iff)
  then obtain db where "map_of known (ikey m) = Some db" by blast
  from upsert_known_total [OF Cons.prems(1,2) this] obtain w1 where m: "upsert known m w = (None, w1)"
    by blast
  from upsert_ok [OF Cons.prems(1,2) m] Cons.prems(2)
  have "inv w1" "known_ok known (tbl w1)" by (blast intro: known_ok_keeps)+
  from Cons.IH [OF this] Cons.prems(3) m show ?case by simp
qed simp

lemma lose_row:
  assumes "inv w" and "known_ok ((x, db) # es) (tbl w)"
  obtains n' w1 where "update (lose db) w = (Inr n', w1)" and "inv w1"
    and "tbl w1 = (tbl w)(rid db \<mapsto> n')" and "data n' = data (lose db)" and "keeps (tbl w) (tbl w1)"
proof -
  from assms(2) have "(x, db) \<in> set ((x, db) # es)" by simp
  from known_okD [OF assms(2) this] obtain cur
    where cur: "tbl w (rid db) = Some cur" "ident cur = ident db" "rcl db = c" by blast
  with ident_fields [OF cur(2)] have rcl: "rcl cur = c" by simp
  have "rid (lose db) = rid db" "ident (lose db) = ident cur" using cur(2) by (simp_all add: lose_ident)
  from update_row [OF assms(1) cur(1) this rcl] that show ?thesis .
qed

lemma mark_lost_rows:
  assumes "inv w" and "known_ok es (tbl w)" and "distinct (map fst es)"
  shows "(\<forall>(x, db) \<in> set es. x \<notin> set seen \<longrightarrow>
        (\<exists>n'. tbl (mark_lost update lose seen es w) (rid db) = Some n' \<and> data n' = data (lose db))) \<and>
     (\<forall>k. (\<forall>(x, db) \<in> set es. x \<notin> set seen \<longrightarrow> rid db \<noteq> k) \<longrightarrow>
        tbl (mark_lost update lose seen es w) k = tbl w k)"
  using assms
proof (induction es arbitrary: w)
  case (Cons e es)
  obtain x db where e: "e = (x, db)" by fastforce
  from Cons.prems(2) have kes: "known_ok es (tbl w)" by (simp add: known_ok_def)
  show ?case
  proof (cases "x \<in> set seen")
    case True
    with Cons.IH [OF Cons.prems(1) kes] Cons.prems(3) e show ?thesis by simp
  next
    case False
    from lose_row [OF Cons.prems(1) Cons.prems(2) [unfolded e]] obtain n' w1
      where w1: "update (lose db) w = (Inr n', w1)" "inv w1"
      "tbl w1 = (tbl w)(rid db \<mapsto> n')" "data n' = data (lose db)" "keeps (tbl w) (tbl w1)" .
    let ?w = "mark_lost update lose seen es w1"
    from Cons.IH [OF w1(2) known_ok_keeps [OF kes w1(5)]] Cons.prems(3)
    have IH: "\<forall>(x, db) \<in> set es. x \<notin> set seen \<longrightarrow> (\<exists>n'. tbl ?w (rid db) = Some n' \<and> data n' = data (lose db))"
      "\<forall>k. (\<forall>(x, db) \<in> set es. x \<notin> set seen \<longrightarrow> rid db \<noteq> k) \<longrightarrow> tbl ?w k = tbl w1 k" by simp_all
    have ne: "rid db' \<noteq> rid db" if "(y, db') \<in> set es" for y db'
      using that Cons.prems(2,3) e known_ok_inj [OF Cons.prems(2), of y db' x db] by force
    have "tbl ?w (rid db) = tbl w1 (rid db)" by (rule mp [OF spec [OF IH(2)]]) (use ne in auto)
    then have row: "tbl ?w (rid db) = Some n'" using w1(3) by simp
    have "tbl ?w k = tbl w k" if "\<forall>(x, db) \<in> set (e # es). x \<notin> set seen \<longrightarrow> rid db \<noteq> k" for k
      using that IH(2) w1(3) e False by auto
    with IH(1) row w1(1,4) e False show ?thesis by auto
  qed
qed simp

text \<open>The table after a run without error, through the table \<open>T1\<close> between the two loops.\<close>

lemma run_ok:
  assumes "inv w" and "lists existing (tbl w)" and "run p existing ms w = (None, w')"
    and "distinct (map ikey ms)"
  obtains T1 where "upserted (index_rows rkey existing) ms (tbl w) T1"
    and "\<forall>x db. map_of (index_rows rkey existing) x = Some db \<longrightarrow> x \<notin> ikey ` set ms \<longrightarrow>
        (\<exists>n'. tbl w' (rid db) = Some n' \<and> data n' = data (lose db))"
    and "\<forall>k. (\<forall>x db. map_of (index_rows rkey existing) x = Some db \<longrightarrow> x \<notin> ikey ` set ms \<longrightarrow> rid db \<noteq> k) \<longrightarrow>
        tbl w' k = T1 k"
proof -
  let ?known = "index_rows rkey existing"
  from assms(3) obtain w1 where u: "range_until_error (upsert ?known) ms w = (None, w1)"
    and w': "w' = mark_lost update lose (map ikey ms) (reorder p ?known) w1"
    by (auto simp: run_def Let_def split: prod.splits option.splits)
  note ok = index_known_ok [OF assms(2,1)]
  from upserts_keeps [OF assms(1) ok u] have w1: "inv w1" "keeps (tbl w) (tbl w1)" by simp_all
  have "known_ok (reorder p ?known) (tbl w1)"
    using known_ok_keeps [OF ok w1(2)] known_ok_set [OF set_reorder] by blast
  from mark_lost_rows [OF w1(1) this, of "map ikey ms"] w'
  have m: "\<forall>(x, db) \<in> set ?known. x \<notin> ikey ` set ms \<longrightarrow> (\<exists>n'. tbl w' (rid db) = Some n' \<and> data n' = data (lose db))"
    "\<forall>k. (\<forall>(x, db) \<in> set ?known. x \<notin> ikey ` set ms \<longrightarrow> rid db \<noteq> k) \<longrightarrow> tbl w' k = tbl w1 k"
    by (simp_all add: distinct_map_reorder index_rows_distinct)
  show ?thesis
  proof (rule that [OF upserts_upserted [OF assms(1) ok assms(4) u]])
    show "\<forall>x db. map_of ?known x = Some db \<longrightarrow> x \<notin> ikey ` set ms \<longrightarrow>
        (\<exists>n'. tbl w' (rid db) = Some n' \<and> data n' = data (lose db))"
      using m(1) by (auto dest!: map_of_SomeD)
    show "\<forall>k. (\<forall>x db. map_of ?known x = Some db \<longrightarrow> x \<notin> ikey ` set ms \<longrightarrow> rid db \<noteq> k) \<longrightarrow> tbl w' k = tbl w1 k"
      using m(2) by (auto simp: index_rows_distinct)
  qed
qed

lemma run_existing:
  assumes "inv w" and "lists existing (tbl w)" and "run p existing ms w = (None, w')"
    and "distinct (map ikey ms)" and "tbl w k = Some old" and "rcl old = c" and "sole (tbl w) old"
  shows "\<exists>new. tbl w' k = Some new \<and> data new = data (target ms old)"
proof -
  let ?known = "index_rows rkey existing"
  from run_ok [OF assms(1-4)] obtain T1 where up: "upserted ?known ms (tbl w) T1"
    and off: "\<forall>x db. map_of ?known x = Some db \<longrightarrow> x \<notin> ikey ` set ms \<longrightarrow>
        (\<exists>n'. tbl w' (rid db) = Some n' \<and> data n' = data (lose db))"
    and same: "\<forall>k. (\<forall>x db. map_of ?known x = Some db \<longrightarrow> x \<notin> ikey ` set ms \<longrightarrow> rid db \<noteq> k) \<longrightarrow> tbl w' k = T1 k" .
  from assms(1,5) have k: "rid old = k" by (rule row_key)
  note old = index_sole [OF assms(2,5,6,7)]
  show ?thesis
  proof (cases "List.find (\<lambda>m. ikey m = rkey old) ms")
    case None
    then have "rkey old \<notin> ikey ` set ms" by (auto simp: find_None_iff)
    with off old have "\<exists>n'. tbl w' (rid old) = Some n' \<and> data n' = data (lose old)" by blast
    with None k show ?thesis by (simp add: target_def)
  next
    case (Some m)
    then have m: "m \<in> set ms" "ikey m = rkey old" by (auto simp: find_Some_iff)
    with upserted_knownD [OF up m(1), of old] old k obtain n' where n': "T1 k = Some n'"
      "data n' = data (track old m)" by auto
    have "tbl w' k = T1 k"
    proof (rule mp [OF spec [OF same]], intro allI impI)
      fix x db
      assume x: "map_of ?known x = Some db" "x \<notin> ikey ` set ms"
      from index_entry [OF assms(2,1) x(1)] x(2) m assms(5) show "rid db \<noteq> k" by force
    qed
    with n' Some show ?thesis by (simp add: target_def)
  qed
qed

lemma run_created:
  assumes "inv w" and "lists existing (tbl w)" and "run p existing ms w = (None, w')"
    and "distinct (map ikey ms)"
  shows "m \<in> set ms \<Longrightarrow> (\<exists>k n. tbl w k = Some n \<and> rcl n = c \<and> rkey n = ikey m) \<or>
        (\<exists>k n. tbl w k = None \<and> tbl w' k = Some n \<and> data n = data (set_id k (fresh m)))"
    and "tbl w k = None \<Longrightarrow> tbl w' k = Some n \<Longrightarrow>
        \<exists>m \<in> set ms. data n = data (set_id k (fresh m)) \<and>
          (\<forall>k' r. tbl w k' = Some r \<longrightarrow> rcl r = c \<longrightarrow> rkey r \<noteq> ikey m)"
proof -
  let ?known = "index_rows rkey existing"
  from run_ok [OF assms(1-4)] obtain T1 where up: "upserted ?known ms (tbl w) T1"
    and same: "\<forall>k. (\<forall>x db. map_of ?known x = Some db \<longrightarrow> x \<notin> ikey ` set ms \<longrightarrow> rid db \<noteq> k) \<longrightarrow> tbl w' k = T1 k" .
  have new: "tbl w' k = T1 k" if "tbl w k = None" for k
    using that index_entry [OF assms(2,1)] by (intro mp [OF spec [OF same]]) auto
  show "m \<in> set ms \<Longrightarrow> (\<exists>k n. tbl w k = Some n \<and> rcl n = c \<and> rkey n = ikey m) \<or>
        (\<exists>k n. tbl w k = None \<and> tbl w' k = Some n \<and> data n = data (set_id k (fresh m)))"
  proof (cases "map_of ?known (ikey m)")
    case None
    assume "m \<in> set ms"
    from upserted_newD [OF up this None] new show ?thesis by auto
  next
    case (Some db)
    with index_entry [OF assms(2,1) this] show ?thesis by blast
  qed
  assume k: "tbl w k = None" "tbl w' k = Some n"
  with new have "T1 k = Some n" by simp
  from upserted_createdD [OF up k(1) this] index_none [OF assms(2)]
  show "\<exists>m \<in> set ms. data n = data (set_id k (fresh m)) \<and>
          (\<forall>k' r. tbl w k' = Some r \<longrightarrow> rcl r = c \<longrightarrow> rkey r \<noteq> ikey m)" by blast
qed

end

context total_reconciler
begin

section \<open>A second run\<close>

lemma target_data: "data a = data b \<Longrightarrow> data (target ms a) = data (target ms b)"
proof -
  assume d: "data a = data b"
  with data_fields [OF d] track_data [OF d] lose_data [OF d] show ?thesis
    by (simp add: target_def split: option.split)
qed

lemma target_idem: "target ms (target ms a) = target ms a"
  by (auto simp: target_def track_idem lose_idem split: option.splits)

lemma target_fresh:
  assumes "distinct (map ikey ms)" and "m \<in> set ms"
  shows "target ms (set_id k (fresh m)) = set_id k (fresh m)"
proof -
  have "List.find (\<lambda>m'. ikey m' = ikey m) ms = Some m" using assms by (rule find_member) simp
  with fresh_fields [of k m] show ?thesis by (simp add: target_def track_fresh)
qed

lemma created_key:
  assumes "inv w" and "lists existing (tbl w)" and "run p existing ms w = (None, w')"
    and "distinct (map ikey ms)" and "tbl w k = None" and "tbl w' k = Some n"
  shows "rname n = rkey n \<and> (\<forall>j b. tbl w j = Some b \<longrightarrow> rcl b = c \<longrightarrow> rkey b \<noteq> rkey n)"
proof -
  from run_created(2) [OF assms] obtain m where m: "data n = data (set_id k (fresh m))"
    "\<forall>j b. tbl w j = Some b \<longrightarrow> rcl b = c \<longrightarrow> rkey b \<noteq> ikey m" by blast
  with data_fields [OF m(1)] fresh_fields [of k m] show ?thesis by simp
qed

lemma run_unique:
  assumes "inv w" and "lists existing (tbl w)" and "run p existing ms w = (None, w')"
    and "distinct (map ikey ms)" and u: "keys_unique (tbl w)"
  shows "keys_unique (tbl w')"
  unfolding keys_unique_def sole_def
proof (intro allI impI)
  fix k n k' m
  assume n: "tbl w' k = Some n" "rcl n = c" and m: "tbl w' k' = Some m" "rcl m = c"
    and x: "rkey m = rkey n"
  from run_keeps [OF assms(1-3)] have inv': "inv w'" and kp: "keeps (tbl w) (tbl w')" by simp_all
  note created = created_key [OF assms(1-4)]
  have mixed: "rkey a \<noteq> rkey b"
    if "tbl w i = None" "tbl w' i = Some a" "tbl w j \<noteq> None" "tbl w' j = Some b" "rcl b = c" for i a j b
    using conjunct2 [OF created [OF that(1,2)]] keeps_old [OF kp that(4,5,3)] by metis
  have "k = k'"
  proof (cases "tbl w k")
    case None
    have "tbl w k' = None" using mixed [OF None n(1) _ m(1,2)] x by metis
    from created [OF None n(1)] created [OF this m(1)] x have "rname n = rname m" by simp
    with n(2) m(2) show ?thesis by (intro row_name [OF inv' n(1) m(1)]) simp_all
  next
    case (Some a')
    then have s: "tbl w k \<noteq> None" by simp
    have s': "tbl w k' \<noteq> None" using mixed [OF _ m(1) s n(1,2)] x by metis
    from keeps_old [OF kp n s] obtain a where a: "tbl w k = Some a" "rcl a = c" "rkey a = rkey n" .
    from keeps_old [OF kp m s'] obtain b where b: "tbl w k' = Some b" "rcl b = c" "rkey b = rkey m" .
    have "b = a" using x by (intro soleD [OF keys_uniqueD [OF u a(1,2)] b(1,2)]) (simp add: a b)
    with row_key [OF assms(1) a(1)] row_key [OF assms(1) b(1)] show ?thesis by simp
  qed
  with n m show "m = n" by simp
qed

lemma run_tracked:
  assumes "inv w" and "lists existing (tbl w)" and "run p existing ms w = (None, w')"
    and "distinct (map ikey ms)" and "m \<in> set ms"
  shows "\<exists>k n. tbl w' k = Some n \<and> rcl n = c \<and> rkey n = ikey m"
proof -
  from run_created(1) [OF assms] consider
    (old) k n where "tbl w k = Some n" "rcl n = c" "rkey n = ikey m"
  | (new) k n where "tbl w' k = Some n" "data n = data (set_id k (fresh m))" by blast
  then show ?thesis
  proof cases
    case old
    from run_keeps [OF assms(1-3)] have "keeps (tbl w) (tbl w')" by simp
    from keepsD [OF this old(1)] obtain new where "tbl w' k = Some new" "ident new = ident n" by blast
    with ident_fields [of new n] old show ?thesis by auto
  next
    case new
    with data_fields [OF new(2)] fresh_fields [of k m] show ?thesis by auto
  qed
qed

lemma run_settled:
  assumes "inv w" and "lists existing (tbl w)" and "run p existing ms w = (None, w')"
    and "distinct (map ikey ms)" and "keys_unique (tbl w)" and "tbl w' k = Some row" and "rcl row = c"
  shows "data (target ms row) = data row"
proof (cases "tbl w k")
  case None
  from run_created(2) [OF assms(1-4) None assms(6)] obtain m where "m \<in> set ms"
    "data row = data (set_id k (fresh m))" by blast
  with target_fresh [OF assms(4) this(1), of k] target_data [OF this(2), of ms] show ?thesis by simp
next
  case (Some old)
  from run_keeps [OF assms(1-3)] have "keeps (tbl w) (tbl w')" by simp
  from keepsD [OF this Some] assms(6) have "ident row = ident old" by auto
  with ident_fields [of row old] assms(7) have "rcl old = c" by simp
  with run_existing [OF assms(1-4) Some] keys_uniqueD [OF assms(5) Some] assms(6)
  have "data row = data (target ms old)" by auto
  with target_data [OF this, of ms] show ?thesis by (simp add: target_idem)
qed

lemma run_again:
  assumes "inv w" and "lists existing (tbl w)" and "run p existing ms w = (None, w')"
    and "distinct (map ikey ms)" and u: "keys_unique (tbl w)"
    and v: "inv v" "tbl v = tbl w'" "lists existing' (tbl v)"
  shows "\<exists>w''. run q existing' ms v = (None, w'') \<and> (\<forall>k. map_option data (tbl w'' k) = map_option data (tbl w' k))"
proof -
  let ?known = "index_rows rkey existing'"
  note tracked = run_tracked [OF assms(1-4)]
  have "ikey ` set ms \<subseteq> fst ` set ?known"
  proof
    fix x assume "x \<in> ikey ` set ms"
    with tracked v(2) have "\<exists>k n. tbl v k = Some n \<and> rcl n = c \<and> rkey n = x" by auto
    with index_none [OF v(3), of x] have "map_of ?known x \<noteq> None" by blast
    then show "x \<in> fst ` set ?known" by (simp add: map_of_eq_None_iff)
  qed
  from upserts_total [OF v(1) index_known_ok [OF v(3,1)] this] obtain w''
    where s2: "run q existing' ms v = (None, w'')" by (auto simp: run_def Let_def)
  from run_unique [OF assms(1-5)] v(2) have u': "keys_unique (tbl v)" by simp
  from run_keeps [OF v(1,3) s2] have kp: "keeps (tbl v) (tbl w'')" by simp
  have "map_option data (tbl w'' k) = map_option data (tbl w' k)" for k
  proof (cases "tbl v k")
    case None
    have "tbl w'' k = None"
    proof (rule ccontr)
      assume "tbl w'' k \<noteq> None"
      then obtain n where "tbl w'' k = Some n" by blast
      from run_created(2) [OF v(1,3) s2 assms(4) None this] tracked v(2) show False by auto
    qed
    with None v(2) show ?thesis by simp
  next
    case (Some row)
    show ?thesis
    proof (cases "rcl row = c")
      case True
      from run_existing [OF v(1,3) s2 assms(4) Some True keys_uniqueD [OF u' Some True]]
        run_settled [OF assms(1-4) u, of k row] Some True v(2) show ?thesis by auto
    next
      case False
      with keepsD [OF kp Some] Some v(2) show ?thesis by auto
    qed
  qed
  with s2 show ?thesis by blast
qed

end

end
