(* ===== verification/Node_Sync.thy ===== *)
theory Node_Sync
  imports Repository Lxd Reconcile
begin

section \<open>Node inventory sync (internal/inventory/sync.go)\<close>

text \<open>
  \<open>Syncer.Sync\<close> by its phases. The maps \<open>byLXDName\<close> and \<open>seenNames\<close> are an association list and a
  list; the number \<open>p\<close> is the order in which the last phase ranges over \<open>byLXDName\<close>. The locale
  \<open>node_syncer\<close> derives what a sync does from the contracts of the repository and the client.
\<close>

definition mapLXDStatus :: "string \<Rightarrow> string" where
  "mapLXDStatus lxdStatus =
     (if lxdStatus = ''Online'' then NodeStatusOnline
      else if lxdStatus = ''Evacuating'' then NodeStatusDraining
      else NodeStatusOffline)"

text \<open>\<open>int(r.CPU.Total)\<close> and \<open>int64(r.Memory.Total)\<close> convert an \<open>uint64\<close>: the same 64 bits.\<close>

definition applyResources :: "node \<Rightarrow> NodeResources option \<Rightarrow> node" where
  "applyResources n r =
     (case r of
        None \<Rightarrow> n
      | Some r \<Rightarrow> n\<lparr>n_CPUCores := CPU_Total (nr_CPU r), n_MemoryBytes := Memory_Total (nr_Memory r),
                   n_DiskBytes := Disk_Total (nr_Disk r)\<rparr>)"

record memberData =
  md_info :: NodeInfo
  md_resources :: "NodeResources option"

abbreviation md_name :: "memberData \<Rightarrow> string" where
  "md_name md \<equiv> ni_Name (md_info md)"

text \<open>Phase 1: the resources of every member; a failure leaves nil.\<close>

fun fetch_resources :: "'w lxd_client \<Rightarrow> NodeInfo list \<Rightarrow> 'w \<Rightarrow> memberData list \<times> 'w" where
  "fetch_resources C [] w = ([], w)"
| "fetch_resources C (m # ms) w =
     (let (r, w1) = Client_GetNodeResources C (ni_Name m) w;
          res = (case r of Inl _ \<Rightarrow> None | Inr x \<Rightarrow> Some x);
          (mds, w2) = fetch_resources C ms w1
      in (\<lparr>md_info = m, md_resources = res\<rparr> # mds, w2))"

text \<open>Phase 2: the persisted nodes by LXD member name; a later node replaces an earlier one.\<close>

definition byLXDName :: "node list \<Rightarrow> (string \<times> node) list" where
  "byLXDName existing = fold (\<lambda>n. AList.update (n_LXDMemberName n) n) existing []"

text \<open>Phase 3: create or update a row for each member; the first error ends the sync.\<close>

definition tracked_node :: "node \<Rightarrow> memberData \<Rightarrow> node" where
  "tracked_node db md =
     applyResources (db\<lparr>n_Status := mapLXDStatus (ni_Status (md_info md))\<rparr>) (md_resources md)"

definition new_node :: "string \<Rightarrow> memberData \<Rightarrow> node" where
  "new_node clusterID md =
     applyResources (zero_node\<lparr>n_ClusterID := clusterID, n_Name := md_name md,
         n_LXDMemberName := md_name md, n_Status := mapLXDStatus (ni_Status (md_info md))\<rparr>)
       (md_resources md)"

definition upsert_member ::
    "'w node_repository \<Rightarrow> string \<Rightarrow> (string \<times> node) list \<Rightarrow> memberData \<Rightarrow> 'w \<Rightarrow> go_error option \<times> 'w" where
  "upsert_member repo clusterID known md w =
     (case map_of known (md_name md) of
        Some db \<Rightarrow>
          (case UpdateNode repo (tracked_node db md) w of
             (Inl err, w') \<Rightarrow> (Some (Wrapf ''inventory sync: update node %q: %w'' [md_name md] err), w')
           | (Inr _, w') \<Rightarrow> (None, w'))
      | None \<Rightarrow>
          (case CreateNode repo (new_node clusterID md) w of
             (Inl err, w') \<Rightarrow> (Some (Wrapf ''inventory sync: create node %q: %w'' [md_name md] err), w')
           | (Inr _, w') \<Rightarrow> (None, w')))"

text \<open>Phase 4: mark the nodes that LXD no longer reports offline; a failure is logged only.\<close>

fun mark_offline :: "'w node_repository \<Rightarrow> string list \<Rightarrow> (string \<times> node) list \<Rightarrow> 'w \<Rightarrow> 'w" where
  "mark_offline repo seenNames [] w = w"
| "mark_offline repo seenNames ((lxdName, n) # entries) w =
     (if lxdName \<in> set seenNames then mark_offline repo seenNames entries w
      else mark_offline repo seenNames entries
             (snd (UpdateNode repo (n\<lparr>n_Status := NodeStatusOffline\<rparr>) w)))"

definition Syncer_Sync ::
    "nat \<Rightarrow> 'w lxd_client \<Rightarrow> 'w node_repository \<Rightarrow> string \<Rightarrow> 'w \<Rightarrow> go_error option \<times> 'w" where
  "Syncer_Sync p client repo clusterID w0 =
     (case Client_GetClusterMembers client w0 of
        (Inl err, w1) \<Rightarrow> (Some (Wrapf ''inventory sync: fetch cluster members: %w'' [] err), w1)
      | (Inr members, w1) \<Rightarrow>
          (let (fetched, w2) = fetch_resources client members w1 in
           case ListNodes repo clusterID w2 of
             (Inl err, w3) \<Rightarrow> (Some (Wrapf ''inventory sync: list existing nodes: %w'' [] err), w3)
           | (Inr existing, w3) \<Rightarrow>
               (let known = byLXDName existing;
                    seenNames = map md_name fetched
                in case range_until_error (upsert_member repo clusterID known) fetched w3 of
                     (Some err, w4) \<Rightarrow> (Some err, w4)
                   | (None, w4) \<Rightarrow> (None, mark_offline repo seenNames (reorder p known) w4))))"

section \<open>The sync as a reconciliation\<close>

text \<open>The fields of a row that a sync never changes.\<close>

definition node_ident :: "node \<Rightarrow> node" where
  "node_ident n = n\<lparr>n_CPUCores := 0, n_MemoryBytes := 0, n_DiskBytes := 0, n_Status := '''', n_UpdatedAt := 0\<rparr>"

lemma node_ident_fields:
  "node_ident m = node_ident n \<Longrightarrow> n_ID m = n_ID n \<and> n_ClusterID m = n_ClusterID n \<and>
     n_Name m = n_Name n \<and> n_LXDMemberName m = n_LXDMemberName n \<and>
     n_HyperscalerServerID m = n_HyperscalerServerID n \<and> n_CreatedAt m = n_CreatedAt n"
  by (cases m; cases n) (simp add: node_ident_def)

lemma applyResources_simps [simp]:
  "n_ID (applyResources n r) = n_ID n" "n_ClusterID (applyResources n r) = n_ClusterID n"
  "n_Name (applyResources n r) = n_Name n" "n_Status (applyResources n r) = n_Status n"
  "n_LXDMemberName (applyResources n r) = n_LXDMemberName n"
  "n_HyperscalerServerID (applyResources n r) = n_HyperscalerServerID n"
  by (cases r; simp add: applyResources_def)+

lemma tracked_node_simps [simp]:
  "n_ID (tracked_node db md) = n_ID db" "n_Status (tracked_node db md) = mapLXDStatus (ni_Status (md_info md))"
  "n_Name (tracked_node db md) = n_Name db" "n_LXDMemberName (tracked_node db md) = n_LXDMemberName db"
  by (simp_all add: tracked_node_def)

lemma new_node_simps [simp]:
  "n_ClusterID (new_node c md) = c" "n_Name (new_node c md) = md_name md"
  "n_LXDMemberName (new_node c md) = md_name md"
  "n_Status (new_node c md) = mapLXDStatus (ni_Status (md_info md))"
  "n_HyperscalerServerID (new_node c md) = ''''"
  by (simp_all add: new_node_def zero_node_def)

lemma node_ident_of_data:
  "node_data m = node_data n \<Longrightarrow> n_CreatedAt m = n_CreatedAt k \<Longrightarrow> node_ident n = node_ident k \<Longrightarrow>
     node_ident m = node_ident k"
  by (cases m; cases n; cases k) (simp add: node_data_def node_ident_def)

lemma tracked_ident: "node_ident (tracked_node r md) = node_ident r"
  by (cases "md_resources md") (simp_all add: tracked_node_def applyResources_def node_ident_def)

lemma offline_ident: "node_ident (r\<lparr>n_Status := NodeStatusOffline\<rparr>) = node_ident r"
  by (simp add: node_ident_def)

lemma tracked_data:
  "node_data m = node_data n \<Longrightarrow> node_data (tracked_node m md) = node_data (tracked_node n md)"
  by (cases m; cases n; cases "md_resources md")
    (simp_all add: node_data_def tracked_node_def applyResources_def)

lemma offline_data:
  "node_data m = node_data n \<Longrightarrow>
     node_data (m\<lparr>n_Status := NodeStatusOffline\<rparr>) = node_data (n\<lparr>n_Status := NodeStatusOffline\<rparr>)"
  by (cases m; cases n) (simp add: node_data_def)

lemma tracked_idem: "tracked_node (tracked_node n md) md = tracked_node n md"
  by (cases "md_resources md") (simp_all add: tracked_node_def applyResources_def)

lemma tracked_new: "tracked_node ((new_node c md)\<lparr>n_ID := k\<rparr>) md = (new_node c md)\<lparr>n_ID := k\<rparr>"
  by (cases "md_resources md") (simp_all add: tracked_node_def new_node_def applyResources_def)

sublocale node_repo \<subseteq> rec: reconciler nodes inv "UpdateNode R" "CreateNode R" n_ID n_ClusterID
  n_Name node_data n_CreatedAt "\<lambda>k n. n\<lparr>n_ID := k\<rparr>" c n_LXDMemberName node_ident md_name tracked_node
  "new_node c" "\<lambda>n. n\<lparr>n_Status := NodeStatusOffline\<rparr>"
  "\<lambda>x err. Wrapf ''inventory sync: update node %q: %w'' [x] err"
  "\<lambda>x err. Wrapf ''inventory sync: create node %q: %w'' [x] err" for c
proof (unfold_locales, goal_cases)
  case (1 w k r)
  then show ?case by (rule node_key)
next
  case (2 w k r k' r')
  then show ?case by (rule node_name)
next
  case (3 w r r' w')
  from create_ok [OF 3] show ?case by simp
next
  case (4 w r e w')
  from create_err [OF 4] show ?case by simp
next
  case (5 w r r' w')
  from update_ok [OF 5] show ?case by simp
next
  case (6 w r e w')
  from update_err [OF 6] show ?case by simp
next
  case (7 a b)
  from node_ident_fields [OF 7] show ?case by simp
next
  case (8 a b)
  from node_data_fields [OF 8] show ?case by simp
next
  case (9 a b r)
  then show ?case by (rule node_ident_of_data)
next
  case (13 a b m)
  then show ?case by (rule tracked_data)
next
  case (14 a b)
  then show ?case by (rule offline_data)
qed (simp_all add: tracked_ident offline_ident tracked_idem tracked_new)

sublocale lenient_node_repo \<subseteq> rec: total_reconciler nodes inv "UpdateNode R" "CreateNode R" n_ID n_ClusterID
  n_Name node_data n_CreatedAt "\<lambda>k n. n\<lparr>n_ID := k\<rparr>" c n_LXDMemberName node_ident md_name tracked_node
  "new_node c" "\<lambda>n. n\<lparr>n_Status := NodeStatusOffline\<rparr>"
  "\<lambda>x err. Wrapf ''inventory sync: update node %q: %w'' [x] err"
  "\<lambda>x err. Wrapf ''inventory sync: create node %q: %w'' [x] err" for c
  by unfold_locales (rule update_total)

lemma byLXDName_index: "byLXDName = index_rows n_LXDMemberName"
  by (simp add: fun_eq_iff byLXDName_def index_rows_def)

lemma upsert_member_item:
  "upsert_member R c = upsert_item (UpdateNode R) (CreateNode R)
     (\<lambda>x err. Wrapf ''inventory sync: update node %q: %w'' [x] err)
     (\<lambda>x err. Wrapf ''inventory sync: create node %q: %w'' [x] err) md_name tracked_node (new_node c)"
  by (intro ext) (simp add: upsert_member_def upsert_item_def)

lemma mark_offline_lost:
  "mark_offline R seen es w = mark_lost (UpdateNode R) (\<lambda>n. n\<lparr>n_Status := NodeStatusOffline\<rparr>) seen es w"
  by (induction es arbitrary: w) auto

lemmas Sync_run_eqs = Syncer_Sync_def byLXDName_index upsert_member_item mark_offline_lost

text \<open>A client that reads LXD without touching the repositories.\<close>

locale node_syncer =
  node_repo R nodes inv rest + lxd_reader C "\<lambda>w. (inv w, nodes w)"
  for R :: "'w node_repository" and nodes :: "'w \<Rightarrow> string \<Rightarrow> node option"
    and inv :: "'w \<Rightarrow> bool" and rest :: "'w \<Rightarrow> 'r" and C :: "'w lxd_client"
begin

lemma fetch_frame:
  "fetch_resources C ms w = (mds, w') \<Longrightarrow> inv w' = inv w \<and> nodes w' = nodes w \<and> map md_info mds = ms"
proof (induction ms arbitrary: w mds w')
  case (Cons m ms)
  then show ?case
    using resources_frame [of "ni_Name m" w] by (fastforce split: prod.splits simp: Let_def)
qed simp

lemma lists_ListNodes:
  "inv w \<Longrightarrow> ListNodes R c w = (Inr ns, w') \<Longrightarrow> inv w' \<and> nodes w' = nodes w \<and> rec.lists c ns (nodes w')"
  using list_ok [of w c ns w'] list_frame [of w c "Inr ns" w'] by (simp add: rec.lists_def)

text \<open>What a call of \<open>Sync\<close> consists of.\<close>

lemma Sync_cases:
  assumes "inv w" and "Syncer_Sync p C R c w = (r, w')"
  obtains (fetch_error) e where "r = Some (Wrapf ''inventory sync: fetch cluster members: %w'' [] e)"
      and "inv w'" and "nodes w' = nodes w"
  | (list_error) e where "r = Some (Wrapf ''inventory sync: list existing nodes: %w'' [] e)"
      and "inv w'" and "nodes w' = nodes w"
  | (run) ms w1 mds w2 ns w3 where "Client_GetClusterMembers C w = (Inr ms, w1)"
      and "fetch_resources C ms w1 = (mds, w2)" and "map md_info mds = ms"
      and "inv w3" and "nodes w3 = nodes w" and "rec.lists c ns (nodes w3)"
      and "rec.run c p ns mds w3 = (r, w')"
proof -
  obtain g w1 where g: "Client_GetClusterMembers C w = (g, w1)" by fastforce
  with assms(1) members_frame [OF g] have w1: "inv w1" "nodes w1 = nodes w" by simp_all
  show ?thesis
  proof (cases g)
    case (Inl e)
    with g w1 assms(2) show ?thesis by (intro fetch_error) (auto simp: Syncer_Sync_def)
  next
    case ms: (Inr ms)
    obtain mds w2 where f: "fetch_resources C ms w1 = (mds, w2)" by fastforce
    from fetch_frame [OF f] w1 have w2: "inv w2" "nodes w2 = nodes w" "map md_info mds = ms" by simp_all
    obtain l w3 where l: "ListNodes R c w2 = (l, w3)" by fastforce
    from list_frame [OF w2(1) l] w2 have w3: "inv w3" "nodes w3 = nodes w" by simp_all
    show ?thesis
    proof (cases l)
      case (Inl e)
      with g ms f l w3 assms(2) show ?thesis by (intro list_error) (auto simp: Syncer_Sync_def)
    next
      case (Inr ns)
      with l have ln: "ListNodes R c w2 = (Inr ns, w3)" by simp
      with g ms f assms(2) [unfolded Sync_run_eqs] have "rec.run c p ns mds w3 = (r, w')"
        by (simp add: rec.run_def)
      with g ms f w2 w3 lists_ListNodes [OF w2(1) ln] show ?thesis by (intro run) auto
    qed
  qed
qed

text \<open>Whatever happens, no row is lost and nothing outside the cluster changes.\<close>

lemma Sync_keeps:
  assumes "inv w" and "Syncer_Sync p C R c w = (r, w')"
  shows "inv w' \<and> rec.keeps c (nodes w) (nodes w')"
  using assms
proof (cases rule: Sync_cases)
  case (run ms w1 mds w2 ns w3)
  from rec.run_keeps [OF run(4,6,7)] run(5) show ?thesis by simp
qed simp_all

end

text \<open>The same on a repository without constraints on the values of a row.\<close>

locale lenient_node_syncer = node_syncer R nodes inv rest C + lenient_node_repo R nodes inv rest
  for R :: "'w node_repository" and nodes :: "'w \<Rightarrow> string \<Rightarrow> node option"
    and inv :: "'w \<Rightarrow> bool" and rest :: "'w \<Rightarrow> 'r" and C :: "'w lxd_client"
begin

text \<open>A sync without an error, as a run over the fetched data.\<close>

lemma Sync_run:
  assumes "inv w" and "Syncer_Sync p C R c w = (None, w')"
    and "Client_GetClusterMembers C w = (Inr ms, w1)" and "fetch_resources C ms w1 = (mds, w2)"
    and "distinct (map ni_Name ms)"
  obtains ns w3 where "inv w3" and "rec.lists c ns (nodes w3)" and "rec.run c p ns mds w3 = (None, w')"
    and "distinct (map md_name mds)" and "nodes w3 = nodes w"
  using assms(1,2)
proof (cases rule: Sync_cases)
  case (run ms' w1' mds' w2' ns w3)
  with assms(3,4) have "mds' = mds" "map md_info mds = ms" by auto
  moreover from this(2) assms(5) have "distinct (map md_name mds)" by (auto simp: comp_def)
  ultimately show ?thesis using run that by blast
qed simp_all

lemma Sync_existing:
  assumes "inv w" and "Syncer_Sync p C R c w = (None, w')"
    and "Client_GetClusterMembers C w = (Inr ms, w1)" and "fetch_resources C ms w1 = (mds, w2)"
    and "distinct (map ni_Name ms)"
    and "nodes w k = Some old" and "n_ClusterID old = c" and "rec.sole c (nodes w) old"
  shows "\<exists>new. nodes w' k = Some new \<and> node_data new = node_data (rec.target mds old)"
proof -
  from Sync_run [OF assms(1-5)] obtain ns w3 where r: "inv w3" "rec.lists c ns (nodes w3)"
    "rec.run c p ns mds w3 = (None, w')" "distinct (map md_name mds)" and t: "nodes w3 = nodes w" .
  from rec.run_existing [OF r, unfolded t, OF assms(6-8)] show ?thesis .
qed

lemma Sync_created:
  assumes "inv w" and "Syncer_Sync p C R c w = (None, w')"
    and "Client_GetClusterMembers C w = (Inr ms, w1)" and "fetch_resources C ms w1 = (mds, w2)"
    and "distinct (map ni_Name ms)"
  shows "nodes w k = None \<Longrightarrow> nodes w' k = Some n \<Longrightarrow>
      \<exists>md \<in> set mds. node_data n = node_data ((new_node c md)\<lparr>n_ID := k\<rparr>)"
    and "md \<in> set mds \<Longrightarrow> \<exists>k n. nodes w' k = Some n \<and> n_ClusterID n = c \<and> n_LXDMemberName n = md_name md"
proof -
  from Sync_run [OF assms(1-5)] obtain ns w3 where r: "inv w3" "rec.lists c ns (nodes w3)"
    "rec.run c p ns mds w3 = (None, w')" "distinct (map md_name mds)" and t: "nodes w3 = nodes w" .
  show "nodes w k = None \<Longrightarrow> nodes w' k = Some n \<Longrightarrow>
      \<exists>md \<in> set mds. node_data n = node_data ((new_node c md)\<lparr>n_ID := k\<rparr>)"
    using rec.run_created(2) [OF r, unfolded t] by blast
  show "md \<in> set mds \<Longrightarrow> \<exists>k n. nodes w' k = Some n \<and> n_ClusterID n = c \<and> n_LXDMemberName n = md_name md"
    by (rule rec.run_tracked [OF r])
qed

lemma Sync_unique:
  assumes "inv w" and "Syncer_Sync p C R c w = (None, w')"
    and "Client_GetClusterMembers C w = (Inr ms, w1)" and "fetch_resources C ms w1 = (mds, w2)"
    and "distinct (map ni_Name ms)" and "rec.keys_unique c (nodes w)"
  shows "rec.keys_unique c (nodes w')"
proof -
  from Sync_run [OF assms(1-5)] obtain ns w3 where r: "inv w3" "rec.lists c ns (nodes w3)"
    "rec.run c p ns mds w3 = (None, w')" "distinct (map md_name mds)" and t: "nodes w3 = nodes w" .
  from rec.run_unique [OF r, unfolded t, OF assms(6)] show ?thesis .
qed

text \<open>A second sync against the same LXD state succeeds and changes nothing.\<close>

lemma Sync_again:
  assumes "inv w" and "Syncer_Sync p C R c w = (None, w')"
    and "Client_GetClusterMembers C w = (Inr ms, w1)" and "fetch_resources C ms w1 = (mds, w2)"
    and "distinct (map ni_Name ms)" and "rec.keys_unique c (nodes w)"
    and "Client_GetClusterMembers C w' = (Inr ms, v1)" and "fetch_resources C ms v1 = (mds, v2)"
  shows "\<exists>w''. Syncer_Sync q C R c w' = (None, w'') \<and>
     (\<forall>k. map_option node_data (nodes w'' k) = map_option node_data (nodes w' k))"
proof -
  from Sync_run [OF assms(1-5)] obtain ns w3 where r: "inv w3" "rec.lists c ns (nodes w3)"
    "rec.run c p ns mds w3 = (None, w')" "distinct (map md_name mds)" and t: "nodes w3 = nodes w" .
  from Sync_keeps [OF assms(1,2)] members_frame [OF assms(7)] fetch_frame [OF assms(8)]
  have v2: "inv v2" "nodes v2 = nodes w'" by simp_all
  obtain ns' v3 where l: "ListNodes R c v2 = (Inr ns', v3)" using list_total [OF v2(1)] by blast
  from lists_ListNodes [OF v2(1) l] v2 have v3: "inv v3" "nodes v3 = nodes w'" by simp_all
  moreover from lists_ListNodes [OF v2(1) l] have "rec.lists c ns' (nodes v3)" by blast
  ultimately have "\<exists>w''. rec.run c q ns' mds v3 = (None, w'') \<and>
      (\<forall>k. map_option node_data (nodes w'' k) = map_option node_data (nodes w' k))"
    using assms(6) t by (intro rec.run_again [OF r]) simp_all
  with assms(7,8) l show ?thesis unfolding Sync_run_eqs by (simp add: rec.run_def)
qed

end

end
