(* ===== verification/Instance_Sync.thy ===== *)
theory Instance_Sync
  imports Repository Lxd Reconcile
begin

section \<open>Instance inventory sync (internal/inventory/instance_sync.go)\<close>

text \<open>
  \<open>InstanceSyncer.Sync\<close> by its phases, in the style of the node sync. \<open>nodeIDByLXDName\<close> is only read,
  so it is a map; reading an absent key gives the empty string. The order in which the last phase
  ranges over \<open>byName\<close> is the number \<open>p\<close>. The locale \<open>instance_syncer\<close> derives what a sync does from
  the contracts of the repositories and the client.
\<close>

definition mapLXDInstanceStatus :: "string \<Rightarrow> string" where
  "mapLXDInstanceStatus lxdStatus =
     (if lxdStatus = ''Running'' then InstanceStatusRunning
      else if lxdStatus = ''Stopped'' then InstanceStatusStopped
      else if lxdStatus = ''Frozen'' then InstanceStatusFrozen
      else InstanceStatusUnknown)"

definition convertInstanceConfig :: "string_map \<Rightarrow> json_map" where
  "convertInstanceConfig c = (case c of None \<Rightarrow> None | Some m \<Rightarrow> Some (\<lambda>k. map_option JString (m k)))"

definition nodeIDByLXDName :: "node list \<Rightarrow> string \<Rightarrow> string" where
  "nodeIDByLXDName persistedNodes x =
     (case fold (\<lambda>n m. m(n_LXDMemberName n \<mapsto> n_ID n)) persistedNodes Map.empty x of
        None \<Rightarrow> '''' | Some i \<Rightarrow> i)"

definition byName :: "inst list \<Rightarrow> (string \<times> inst) list" where
  "byName existing = fold (\<lambda>i. AList.update (i_Name i) i) existing []"

definition tracked_inst :: "(string \<Rightarrow> string) \<Rightarrow> inst \<Rightarrow> InstanceInfo \<Rightarrow> inst" where
  "tracked_inst nodeIDs db info =
     db\<lparr>i_Status := mapLXDInstanceStatus (ii_Status info), i_NodeID := nodeIDs (ii_Location info),
        i_Config := convertInstanceConfig (ii_Config info)\<rparr>"

definition new_inst :: "string \<Rightarrow> (string \<Rightarrow> string) \<Rightarrow> InstanceInfo \<Rightarrow> inst" where
  "new_inst clusterID nodeIDs info =
     zero_inst\<lparr>i_ClusterID := clusterID, i_NodeID := nodeIDs (ii_Location info),
       i_Name := ii_Name info, i_InstanceType := ii_InstanceType info,
       i_Status := mapLXDInstanceStatus (ii_Status info),
       i_Config := convertInstanceConfig (ii_Config info)\<rparr>"

definition upsert_instance ::
    "'w instance_repository \<Rightarrow> string \<Rightarrow> (string \<Rightarrow> string) \<Rightarrow> (string \<times> inst) list \<Rightarrow> InstanceInfo \<Rightarrow> 'w \<Rightarrow>
     go_error option \<times> 'w" where
  "upsert_instance repo clusterID nodeIDs known info w =
     (case map_of known (ii_Name info) of
        Some db \<Rightarrow>
          (case UpdateInstance repo (tracked_inst nodeIDs db info) w of
             (Inl err, w') \<Rightarrow>
               (Some (Wrapf ''instance inventory sync: update instance %q: %w'' [ii_Name info] err), w')
           | (Inr _, w') \<Rightarrow> (None, w'))
      | None \<Rightarrow>
          (case CreateInstance repo (new_inst clusterID nodeIDs info) w of
             (Inl err, w') \<Rightarrow>
               (Some (Wrapf ''instance inventory sync: create instance %q: %w'' [ii_Name info] err), w')
           | (Inr _, w') \<Rightarrow> (None, w')))"

definition lost_inst :: "inst \<Rightarrow> inst" where
  "lost_inst i = i\<lparr>i_Status := InstanceStatusUnknown, i_NodeID := ''''\<rparr>"

fun mark_unknown ::
    "'w instance_repository \<Rightarrow> string list \<Rightarrow> (string \<times> inst) list \<Rightarrow> 'w \<Rightarrow> 'w" where
  "mark_unknown repo seenNames [] w = w"
| "mark_unknown repo seenNames ((x, i) # entries) w =
     (if x \<in> set seenNames then mark_unknown repo seenNames entries w
      else mark_unknown repo seenNames entries (snd (UpdateInstance repo (lost_inst i) w)))"

definition InstanceSyncer_Sync ::
    "nat \<Rightarrow> 'w lxd_client \<Rightarrow> 'w instance_repository \<Rightarrow> 'w node_repository \<Rightarrow> string \<Rightarrow> 'w \<Rightarrow>
     go_error option \<times> 'w" where
  "InstanceSyncer_Sync p client instances nodes clusterID w0 =
     (case Client_ListInstances client w0 of
        (Inl err, w1) \<Rightarrow> (Some (Wrapf ''instance inventory sync: fetch instances: %w'' [] err), w1)
      | (Inr lxdInstances, w1) \<Rightarrow>
          (case ListNodes nodes clusterID w1 of
             (Inl err, w2) \<Rightarrow>
               (Some (Wrapf ''instance inventory sync: list nodes for placement: %w'' [] err), w2)
           | (Inr persistedNodes, w2) \<Rightarrow>
               (case ListInstances instances clusterID w2 of
                  (Inl err, w3) \<Rightarrow>
                    (Some (Wrapf ''instance inventory sync: list existing instances: %w'' [] err), w3)
                | (Inr existing, w3) \<Rightarrow>
                    (let nodeIDs = nodeIDByLXDName persistedNodes;
                         known = byName existing
                     in case range_until_error (upsert_instance instances clusterID nodeIDs known) lxdInstances w3 of
                          (Some err, w4) \<Rightarrow> (Some err, w4)
                        | (None, w4) \<Rightarrow>
                            (None, mark_unknown instances (map ii_Name lxdInstances) (reorder p known) w4)))))"

section \<open>The sync as a reconciliation\<close>

text \<open>The fields of a row that a sync never changes.\<close>

definition inst_ident :: "inst \<Rightarrow> inst" where
  "inst_ident i = i\<lparr>i_NodeID := '''', i_Status := '''', i_Config := None, i_UpdatedAt := 0\<rparr>"

lemma inst_ident_fields:
  "inst_ident i = inst_ident j \<Longrightarrow> i_ID i = i_ID j \<and> i_ClusterID i = i_ClusterID j \<and>
     i_Name i = i_Name j \<and> i_InstanceType i = i_InstanceType j \<and> i_CPULimit i = i_CPULimit j \<and>
     i_MemoryLimit i = i_MemoryLimit j \<and> i_DiskLimit i = i_DiskLimit j \<and> i_CreatedAt i = i_CreatedAt j"
  by (cases i; cases j) (simp add: inst_ident_def)

lemma tracked_inst_simps [simp]:
  "i_ID (tracked_inst ids db x) = i_ID db" "i_ClusterID (tracked_inst ids db x) = i_ClusterID db"
  "i_Name (tracked_inst ids db x) = i_Name db" "inst_ident (tracked_inst ids db x) = inst_ident db"
  by (simp_all add: tracked_inst_def inst_ident_def)

lemma lost_inst_simps [simp]:
  "i_ID (lost_inst i) = i_ID i" "i_ClusterID (lost_inst i) = i_ClusterID i"
  "i_Name (lost_inst i) = i_Name i" "inst_ident (lost_inst i) = inst_ident i"
  by (simp_all add: lost_inst_def inst_ident_def)

lemma new_inst_simps [simp]:
  "i_ClusterID (new_inst c ids x) = c" "i_Name (new_inst c ids x) = ii_Name x"
  by (simp_all add: new_inst_def)

lemma inst_ident_of_data:
  "inst_data i = inst_data j \<Longrightarrow> i_CreatedAt i = i_CreatedAt k \<Longrightarrow> inst_ident j = inst_ident k \<Longrightarrow>
     inst_ident i = inst_ident k"
  by (cases i; cases j; cases k) (simp add: inst_data_def inst_ident_def)

lemma tracked_inst_data:
  "inst_data i = inst_data j \<Longrightarrow> inst_data (tracked_inst ids i x) = inst_data (tracked_inst ids j x)"
  by (cases i; cases j) (simp add: inst_data_def tracked_inst_def)

lemma lost_inst_data: "inst_data i = inst_data j \<Longrightarrow> inst_data (lost_inst i) = inst_data (lost_inst j)"
  by (cases i; cases j) (simp add: inst_data_def lost_inst_def)

lemma tracked_inst_idem: "tracked_inst ids (tracked_inst ids i x) x = tracked_inst ids i x"
  by (simp add: tracked_inst_def)

lemma lost_inst_idem: "lost_inst (lost_inst i) = lost_inst i"
  by (simp add: lost_inst_def)

lemma tracked_inst_new: "tracked_inst ids ((new_inst c ids x)\<lparr>i_ID := k\<rparr>) x = (new_inst c ids x)\<lparr>i_ID := k\<rparr>"
  by (simp add: tracked_inst_def new_inst_def)

sublocale instance_repo \<subseteq> rec: reconciler insts inv "UpdateInstance R" "CreateInstance R" i_ID
  i_ClusterID i_Name inst_data i_CreatedAt "\<lambda>k i. i\<lparr>i_ID := k\<rparr>" c i_Name inst_ident ii_Name
  "tracked_inst ids" "new_inst c ids" lost_inst
  "\<lambda>x err. Wrapf ''instance inventory sync: update instance %q: %w'' [x] err"
  "\<lambda>x err. Wrapf ''instance inventory sync: create instance %q: %w'' [x] err" for c ids
proof (unfold_locales, goal_cases)
  case (1 w k r)
  then show ?case by (rule inst_key)
next
  case (2 w k r k' r')
  then show ?case by (rule inst_name)
next
  case (3 w r r' w')
  from create_ok [OF 3] show ?case by simp
next
  case (4 w r e w')
  from create_err [OF 4] show ?case by simp
next
  case (5 w r r' w')
  from update_ok [OF 5] show ?case by simp
next
  case (6 w r e w')
  from update_err [OF 6] show ?case by simp
next
  case (7 a b)
  from inst_ident_fields [OF 7] show ?case by simp
next
  case (8 a b)
  from inst_data_fields [OF 8] show ?case by simp
next
  case (9 a b r)
  then show ?case by (rule inst_ident_of_data)
next
  case (13 a b m)
  then show ?case by (rule tracked_inst_data)
next
  case (14 a b)
  then show ?case by (rule lost_inst_data)
qed (simp_all add: tracked_inst_idem lost_inst_idem tracked_inst_new)

sublocale lenient_instance_repo \<subseteq> rec: total_reconciler insts inv "UpdateInstance R" "CreateInstance R" i_ID
  i_ClusterID i_Name inst_data i_CreatedAt "\<lambda>k i. i\<lparr>i_ID := k\<rparr>" c i_Name inst_ident ii_Name
  "tracked_inst ids" "new_inst c ids" lost_inst
  "\<lambda>x err. Wrapf ''instance inventory sync: update instance %q: %w'' [x] err"
  "\<lambda>x err. Wrapf ''instance inventory sync: create instance %q: %w'' [x] err" for c ids
  by unfold_locales (rule update_total)

lemma byName_index: "byName = index_rows i_Name"
  by (simp add: fun_eq_iff byName_def index_rows_def)

lemma upsert_instance_item:
  "upsert_instance R c ids = upsert_item (UpdateInstance R) (CreateInstance R)
     (\<lambda>x err. Wrapf ''instance inventory sync: update instance %q: %w'' [x] err)
     (\<lambda>x err. Wrapf ''instance inventory sync: create instance %q: %w'' [x] err) ii_Name (tracked_inst ids)
     (new_inst c ids)"
  by (intro ext) (simp add: upsert_instance_def upsert_item_def)

lemma mark_unknown_lost: "mark_unknown R seen es w = mark_lost (UpdateInstance R) lost_inst seen es w"
  by (induction es arbitrary: w) auto

lemmas Instance_Sync_eqs = InstanceSyncer_Sync_def byName_index upsert_instance_item mark_unknown_lost

lemma fold_upd_some:
  "fold (\<lambda>n m. m(f n \<mapsto> g n)) ns m x = Some v \<Longrightarrow> m x = Some v \<or> (\<exists>n \<in> set ns. f n = x \<and> g n = v)"
  by (induction ns arbitrary: m) (fastforce split: if_splits)+

lemma fold_upd_none:
  "fold (\<lambda>n m. m(f n \<mapsto> g n)) ns m x = None \<longleftrightarrow> m x = None \<and> x \<notin> f ` set ns"
  by (induction ns arbitrary: m) auto

text \<open>The node ID of a location: that of a listed node with this LXD name, empty if there is none.\<close>

lemma nodeIDByLXDName_cases:
  "(x \<notin> n_LXDMemberName ` set ns \<and> nodeIDByLXDName ns x = []) \<or>
   (\<exists>n \<in> set ns. n_LXDMemberName n = x \<and> nodeIDByLXDName ns x = n_ID n)"
proof (cases "fold (\<lambda>n m. m(n_LXDMemberName n \<mapsto> n_ID n)) ns Map.empty x")
  case None
  with fold_upd_none [of n_LXDMemberName n_ID ns Map.empty x] show ?thesis
    by (simp add: nodeIDByLXDName_def)
next
  case (Some i)
  with fold_upd_some [OF Some] show ?thesis by (auto simp: nodeIDByLXDName_def)
qed

text \<open>The two repositories and the client share the state; reading nodes or LXD leaves the instances alone.\<close>

locale instance_syncer =
  instance_repo R insts inv rest + lxd_reader C "\<lambda>w. (inv w, insts w, nodes w)"
  for R :: "'w instance_repository" and insts :: "'w \<Rightarrow> string \<Rightarrow> inst option"
    and inv :: "'w \<Rightarrow> bool" and rest :: "'w \<Rightarrow> 'r" and C :: "'w lxd_client"
    and nodes :: "'w \<Rightarrow> string \<Rightarrow> node option" +
  fixes N :: "'w node_repository"
  assumes nodes_frame: "inv w \<Longrightarrow> ListNodes N c w = (rn, w') \<Longrightarrow>
      inv w' \<and> insts w' = insts w \<and> nodes w' = nodes w"
    and nodes_ok: "inv w \<Longrightarrow> ListNodes N c w = (Inr ns, w') \<Longrightarrow> set ns = {n \<in> ran (nodes w). n_ClusterID n = c}"
begin

lemma keys_unique: "inv w \<Longrightarrow> rec.keys_unique c (insts w)"
  unfolding rec.keys_unique_def rec.sole_def
proof (intro allI impI)
  fix k n k' m
  assume w: "inv w" and n: "insts w k = Some n" "i_ClusterID n = c"
    and m: "insts w k' = Some m" "i_ClusterID m = c" "i_Name m = i_Name n"
  from n m have "k = k'" by (intro inst_name [OF w n(1) m(1)]) simp_all
  with n m show "m = n" by simp
qed

text \<open>What a call of \<open>Sync\<close> consists of.\<close>

lemma Sync_cases:
  assumes "inv w" and "InstanceSyncer_Sync p C R N c w = (r, w')"
  obtains (early_error) e where "r = Some e" and "inv w'" and "insts w' = insts w"
  | (run) infos w1 ns w2 existing w3 where "Client_ListInstances C w = (Inr infos, w1)"
      and "set ns = {n \<in> ran (nodes w). n_ClusterID n = c}" and "ListNodes N c w1 = (Inr ns, w2)"
      and "inv w3" and "insts w3 = insts w" and "rec.lists c existing (insts w3)"
      and "rec.run (nodeIDByLXDName ns) c p existing infos w3 = (r, w')"
proof -
  obtain g w1 where g: "Client_ListInstances C w = (g, w1)" by fastforce
  with assms(1) instances_frame [OF g] have w1: "inv w1" "insts w1 = insts w" "nodes w1 = nodes w" by simp_all
  show ?thesis
  proof (cases g)
    case (Inl e)
    with g w1 assms(2) show ?thesis by (intro early_error) (auto simp: InstanceSyncer_Sync_def)
  next
    case infos: (Inr infos)
    obtain n w2 where n: "ListNodes N c w1 = (n, w2)" by fastforce
    from nodes_frame [OF w1(1) n] w1 have w2: "inv w2" "insts w2 = insts w" "nodes w2 = nodes w" by simp_all
    show ?thesis
    proof (cases n)
      case (Inl e)
      with g infos n w2 assms(2) show ?thesis by (intro early_error) (auto simp: InstanceSyncer_Sync_def)
    next
      case ns: (Inr ns)
      obtain l w3 where l: "ListInstances R c w2 = (l, w3)" by fastforce
      from list_frame [OF w2(1) l] w2 have w3: "inv w3" "insts w3 = insts w" by simp_all
      show ?thesis
      proof (cases l)
        case (Inl e)
        with g infos n ns l w3 assms(2) show ?thesis
          by (intro early_error) (auto simp: InstanceSyncer_Sync_def)
      next
        case (Inr existing)
        with l have ln: "ListInstances R c w2 = (Inr existing, w3)" by simp
        from list_ok [OF w2(1) ln] w2 w3 have "rec.lists c existing (insts w3)" by (simp add: rec.lists_def)
        moreover from g infos n ns ln assms(2) [unfolded Instance_Sync_eqs]
        have "rec.run (nodeIDByLXDName ns) c p existing infos w3 = (r, w')" by (simp add: rec.run_def Let_def)
        ultimately show ?thesis
          using g infos n ns w1 w3 nodes_ok [of w1 c ns w2] by (intro run) auto
      qed
    qed
  qed
qed

lemma Sync_keeps:
  assumes "inv w" and "InstanceSyncer_Sync p C R N c w = (r, w')"
  shows "inv w' \<and> rec.keeps c (insts w) (insts w')"
  using assms
proof (cases rule: Sync_cases)
  case (run infos w1 ns w2 existing w3)
  from rec.run_keeps [OF run(4,6,7)] run(5) show ?thesis by simp
qed simp_all

end

text \<open>The same on a repository without constraints on the values of a row.\<close>

locale lenient_instance_syncer =
  instance_syncer R insts inv rest C nodes N + lenient_instance_repo R insts inv rest
  for R :: "'w instance_repository" and insts :: "'w \<Rightarrow> string \<Rightarrow> inst option"
    and inv :: "'w \<Rightarrow> bool" and rest :: "'w \<Rightarrow> 'r" and C :: "'w lxd_client"
    and nodes :: "'w \<Rightarrow> string \<Rightarrow> node option" and N :: "'w node_repository"
begin

lemma Sync_run:
  assumes "inv w" and "InstanceSyncer_Sync p C R N c w = (None, w')"
    and "Client_ListInstances C w = (Inr infos, w1)" and "ListNodes N c w1 = (Inr ns, w2)"
  obtains existing w3 where "inv w3" and "rec.lists c existing (insts w3)"
    and "rec.run (nodeIDByLXDName ns) c p existing infos w3 = (None, w')" and "insts w3 = insts w"
  using assms(1,2)
proof (cases rule: Sync_cases)
  case (run infos' w1' ns' w2' existing w3)
  with assms(3,4) have "infos' = infos" "ns' = ns" by auto
  with run that show ?thesis by blast
qed simp_all

lemma Sync_existing:
  assumes "inv w" and "InstanceSyncer_Sync p C R N c w = (None, w')"
    and "Client_ListInstances C w = (Inr infos, w1)" and "ListNodes N c w1 = (Inr ns, w2)"
    and "distinct (map ii_Name infos)" and "insts w k = Some old" and "i_ClusterID old = c"
  shows "\<exists>new. insts w' k = Some new \<and>
     inst_data new = inst_data (rec.target (nodeIDByLXDName ns) infos old)"
proof -
  from Sync_run [OF assms(1-4)] obtain ex w3 where r: "inv w3" "rec.lists c ex (insts w3)"
    "rec.run (nodeIDByLXDName ns) c p ex infos w3 = (None, w')" and t: "insts w3 = insts w" .
  from rec.keys_uniqueD [OF keys_unique [OF assms(1)] assms(6,7)]
  have "rec.sole c (insts w) old" .
  from rec.run_existing [OF r assms(5), unfolded t, OF assms(6,7) this] show ?thesis .
qed

lemma Sync_created:
  assumes "inv w" and "InstanceSyncer_Sync p C R N c w = (None, w')"
    and "Client_ListInstances C w = (Inr infos, w1)" and "ListNodes N c w1 = (Inr ns, w2)"
    and "distinct (map ii_Name infos)"
  shows "insts w k = None \<Longrightarrow> insts w' k = Some i \<Longrightarrow>
      \<exists>x \<in> set infos. inst_data i = inst_data ((new_inst c (nodeIDByLXDName ns) x)\<lparr>i_ID := k\<rparr>)"
    and "x \<in> set infos \<Longrightarrow> \<exists>k i. insts w' k = Some i \<and> i_ClusterID i = c \<and> i_Name i = ii_Name x"
proof -
  from Sync_run [OF assms(1-4)] obtain ex w3 where r: "inv w3" "rec.lists c ex (insts w3)"
    "rec.run (nodeIDByLXDName ns) c p ex infos w3 = (None, w')" and t: "insts w3 = insts w" .
  show "insts w k = None \<Longrightarrow> insts w' k = Some i \<Longrightarrow>
      \<exists>x \<in> set infos. inst_data i = inst_data ((new_inst c (nodeIDByLXDName ns) x)\<lparr>i_ID := k\<rparr>)"
    using rec.run_created(2) [OF r assms(5), unfolded t] by blast
  show "x \<in> set infos \<Longrightarrow> \<exists>k i. insts w' k = Some i \<and> i_ClusterID i = c \<and> i_Name i = ii_Name x"
    by (rule rec.run_tracked [OF r assms(5)])
qed

text \<open>A second sync against the same LXD state and nodes succeeds and changes nothing.\<close>

lemma Sync_again:
  assumes "inv w" and "InstanceSyncer_Sync p C R N c w = (None, w')"
    and "Client_ListInstances C w = (Inr infos, w1)" and "ListNodes N c w1 = (Inr ns, w2)"
    and "distinct (map ii_Name infos)"
    and "Client_ListInstances C w' = (Inr infos, v1)" and "ListNodes N c v1 = (Inr ns, v2)"
  shows "\<exists>w''. InstanceSyncer_Sync q C R N c w' = (None, w'') \<and>
     (\<forall>k. map_option inst_data (insts w'' k) = map_option inst_data (insts w' k))"
proof -
  from Sync_run [OF assms(1-4)] obtain ex w3 where r: "inv w3" "rec.lists c ex (insts w3)"
    "rec.run (nodeIDByLXDName ns) c p ex infos w3 = (None, w')" and t: "insts w3 = insts w" .
  from Sync_keeps [OF assms(1,2)] instances_frame [OF assms(6)]
  have v1: "inv v1" "insts v1 = insts w'" by simp_all
  from nodes_frame [OF v1(1) assms(7)] v1 have v2: "inv v2" "insts v2 = insts w'" by simp_all
  obtain ex' v3 where l: "ListInstances R c v2 = (Inr ex', v3)" using list_total [OF v2(1)] by blast
  from list_ok [OF v2(1) l] list_frame [OF v2(1) l] v2
  have v3: "inv v3" "insts v3 = insts w'" "rec.lists c ex' (insts v3)" by (simp_all add: rec.lists_def)
  from rec.run_again [OF r assms(5) keys_unique [OF r(1)] v3, of q]
  have "\<exists>w''. rec.run (nodeIDByLXDName ns) c q ex' infos v3 = (None, w'') \<and>
      (\<forall>k. map_option inst_data (insts w'' k) = map_option inst_data (insts w' k))" .
  with assms(6,7) l show ?thesis unfolding Instance_Sync_eqs by (simp add: rec.run_def Let_def)
qed

end

end
