(* ===== verification/World.thy ===== *)
theory World
  imports Memory_Store Lxd_Fake Node_Sync Instance_Sync
begin

section \<open>Stores and LXD nodes in one state\<close>

text \<open>
  The state of a control plane with in-memory stores next to the LXD nodes it manages: \<open>w_lxd\<close> gives
  the LXD daemon at each endpoint. \<open>lxd_at ep\<close> is the client that talks to endpoint \<open>ep\<close>. The syncs are
  interpreted on this state.
\<close>

record world = mem +
  w_lxd :: "string \<Rightarrow> Fake"

definition lxd_at :: "string \<Rightarrow> 'z world_scheme lxd_client" where
  "lxd_at ep = fake_client (\<lambda>w. w_lxd w ep) (\<lambda>f w. w\<lparr>w_lxd := (w_lxd w)(ep := f)\<rparr>)"

lemma w_lxd_same [simp]: "w\<lparr>w_lxd := (w_lxd w)(ep := w_lxd w ep)\<rparr> = w"
  by simp

lemma lxd_at_reads:
  "Client_GetClusterMembers (lxd_at ep) w = (Inr (map snd (f_nodes (w_lxd w ep))), w)"
  "Client_GetNodeResources (lxd_at ep) k w =
     (case map_of (f_resources (w_lxd w ep)) k of
        None \<Rightarrow> Inl (Wrapf ''fake lxd: get node resources %q: %w'' [k] (Sentinel (LxdErr ErrNodeNotFound)))
      | Some r \<Rightarrow> Inr r, w)"
  "Client_ListInstances (lxd_at ep) w = (Inr (map snd (f_instances (w_lxd w ep))), w)"
  by (simp_all add: lxd_at_def fake_client_def lift_fake_def fake_simps)

lemma mem_inv_lxd [simp]: "mem_inv (w\<lparr>w_lxd := f\<rparr>) = mem_inv w"
  by (simp add: mem_inv_def fresh_supply_def used_ids_def)

text \<open>What LXD tells about its members: names are keys, the resources where LXD has them.\<close>

definition lxd_members :: "Fake \<Rightarrow> memberData list" where
  "lxd_members f =
     map (\<lambda>m. \<lparr>md_info = m, md_resources = map_of (f_resources f) (ni_Name m)\<rparr>) (map snd (f_nodes f))"

lemma fetch_resources_at:
  "fetch_resources (lxd_at ep) ms w =
     (map (\<lambda>m. \<lparr>md_info = m, md_resources = map_of (f_resources (w_lxd w ep)) (ni_Name m)\<rparr>) ms, w)"
  by (induction ms) (auto simp: lxd_at_reads Let_def split: option.split)

text \<open>The maps of the fake are keyed by name.\<close>

definition fake_wf :: "Fake \<Rightarrow> bool" where
  "fake_wf f \<longleftrightarrow> distinct (map fst (f_nodes f)) \<and> (\<forall>(k, n) \<in> set (f_nodes f). ni_Name n = k) \<and>
     distinct (map fst (f_instances f)) \<and> (\<forall>(k, i) \<in> set (f_instances f). ii_Name i = k)"

lemma fake_wf_seeding:
  "fake_wf New" "fake_wf f \<Longrightarrow> fake_wf (AddNode n f)" "fake_wf f \<Longrightarrow> fake_wf (AddInstance i f)"
  "fake_wf f \<Longrightarrow> fake_wf (RemoveNode k f)" "fake_wf f \<Longrightarrow> fake_wf (RemoveInstance k f)"
  "fake_wf f \<Longrightarrow> fake_wf (SetNodeResources k r f)"
  by (auto simp: fake_wf_def New_def AddNode_def AddInstance_def RemoveNode_def RemoveInstance_def
      SetNodeResources_def set_alist_update set_alist_delete)

lemma fake_wf_names:
  assumes "fake_wf f"
  shows "map ni_Name (map snd (f_nodes f)) = map fst (f_nodes f)"
    and "map ii_Name (map snd (f_instances f)) = map fst (f_instances f)"
  using assms by (auto simp: fake_wf_def)

lemma fake_wf_distinct:
  "fake_wf f \<Longrightarrow> distinct (map ni_Name (map snd (f_nodes f)))"
  "fake_wf f \<Longrightarrow> distinct (map ii_Name (map snd (f_instances f)))"
  by (simp_all only: fake_wf_names) (simp_all add: fake_wf_def)

lemma find_keyed:
  assumes "distinct (map fst m)" and "\<forall>(k, v) \<in> set m. f v = k"
  shows "List.find (\<lambda>v. f v = x) (map snd m) = map_of m x"
  using assms by (induction m) auto

interpretation world_sync: lenient_node_syncer memory_nodes "\<lambda>s. map_of (mem_nodes s)" mem_inv
  "\<lambda>s. (mem_clusters s, mem_insts s, mem_locked s, mem.more s)" "lxd_at ep" for ep
  by unfold_locales (simp_all add: lxd_at_reads)

interpretation world_instance_sync: lenient_instance_syncer memory_instances "\<lambda>s. map_of (mem_insts s)" mem_inv
  "\<lambda>s. (mem_clusters s, mem_nodes s, mem_locked s, mem.more s)" "lxd_at ep"
  "\<lambda>s. map_of (mem_nodes s)" memory_nodes for ep
proof (unfold_locales, goal_cases)
  case (4 w c r w')
  then show ?case by (auto simp: memory_interfaces NodeStore_ListNodes_def)
next
  case (5 w c ns w')
  then show ?case using mem_node.list_ok by blast
qed (simp_all add: lxd_at_reads)

end
