(* ===== verification/Inventory.thy ===== *)
theory Inventory
  imports World
begin

section \<open>The inventory syncs: what they establish\<close>

text \<open>
  The properties of \<open>Syncer.Sync\<close> and \<open>InstanceSyncer.Sync\<close> on the stores and LXD nodes of \<open>world\<close>. The
  specification is the table that a sync should produce, given directly from the state of LXD.
\<close>

text \<open>No two nodes of the cluster have the same LXD member name.\<close>

definition lxd_names_unique :: "string \<Rightarrow> (string \<Rightarrow> node option) \<Rightarrow> bool" where
  "lxd_names_unique c T \<longleftrightarrow> (\<forall>k n k' m. T k = Some n \<longrightarrow> T k' = Some m \<longrightarrow> n_ClusterID n = c \<longrightarrow>
     n_ClusterID m = c \<longrightarrow> n_LXDMemberName m = n_LXDMemberName n \<longrightarrow> m = n)"

text \<open>The node that a tracked node should become.\<close>

definition synced_node :: "Fake \<Rightarrow> node \<Rightarrow> node" where
  "synced_node f old =
     (case map_of (f_nodes f) (n_LXDMemberName old) of
        None \<Rightarrow> old\<lparr>n_Status := NodeStatusOffline\<rparr>
      | Some m \<Rightarrow> applyResources (old\<lparr>n_Status := mapLXDStatus (ni_Status m)\<rparr>)
                    (map_of (f_resources f) (n_LXDMemberName old)))"

text \<open>The node that a new member should get, up to ID and timestamps.\<close>

definition joined_node :: "string \<Rightarrow> Fake \<Rightarrow> NodeInfo \<Rightarrow> node" where
  "joined_node c f m = new_node c \<lparr>md_info = m, md_resources = map_of (f_resources f) (ni_Name m)\<rparr>"

lemma find_map: "List.find P (map g xs) = map_option g (List.find (P \<circ> g) xs)"
  by (induction xs) auto

lemma target_synced:
  assumes "fake_wf f"
  shows "world_sync.rec.target (lxd_members f) old = synced_node f old"
proof -
  have "List.find (\<lambda>m. ni_Name m = x) (map snd (f_nodes f)) = map_of (f_nodes f) x" for x
    using assms by (intro find_keyed) (auto simp: fake_wf_def)
  then have "List.find (\<lambda>md. md_name md = x) (lxd_members f) =
      map_option (\<lambda>m. \<lparr>md_info = m, md_resources = map_of (f_resources f) (ni_Name m)\<rparr>) (map_of (f_nodes f) x)" for x
    by (simp only: lxd_members_def find_map comp_def memberData.simps)
  moreover have "ni_Name m = x" if "map_of (f_nodes f) x = Some m" for x m
    using assms that by (auto simp: fake_wf_def dest!: map_of_SomeD)
  ultimately show ?thesis
    by (simp add: world_sync.rec.target_def synced_node_def tracked_node_def split: option.split)
qed

lemma keys_unique_eq: "world_sync.rec.keys_unique c T = lxd_names_unique c T"
  unfolding world_sync.rec.keys_unique_def world_sync.rec.sole_def lxd_names_unique_def by blast

lemma Sync_fetches:
  "Client_GetClusterMembers (lxd_at ep) w = (Inr (map snd (f_nodes (w_lxd w ep))), w)"
  "fetch_resources (lxd_at ep) (map snd (f_nodes (w_lxd w ep))) w = (lxd_members (w_lxd w ep), w)"
  by (simp_all add: lxd_at_reads fetch_resources_at lxd_members_def)

lemma memory_list:
  "ListNodes memory_nodes c w = (Inr (filter (\<lambda>n. n_ClusterID n = c) (map snd (mem_nodes w))), w)"
  "ListInstances memory_instances c w = (Inr (filter (\<lambda>i. i_ClusterID i = c) (map snd (mem_insts w))), w)"
  by (simp_all add: memory_interfaces NodeStore_ListNodes_def InstanceStore_ListInstances_def)

text \<open>A sync leaves LXD alone.\<close>

lemma mark_offline_lxd:
  "w_lxd (mark_offline memory_nodes seen es w) = w_lxd (w :: 'z world_scheme)"
proof (induction es arbitrary: w)
  case (Cons e es)
  then show ?case
    by (cases e) (auto simp: memory_interfaces NodeStore_UpdateNode_def time_now_def Let_def
        split: option.splits)
qed simp

lemma upsert_members_lxd:
  "range_until_error (upsert_member memory_nodes c known) mds w = (r, w') \<Longrightarrow>
     w_lxd w' = w_lxd (w :: 'z world_scheme)"
proof (induction mds arbitrary: w)
  case (Cons md mds)
  have "w_lxd w1 = w_lxd w" if "upsert_member memory_nodes c known md w = (e, w1)" for e w1
    using that by (auto simp: upsert_member_def memory_interfaces NodeStore_UpdateNode_def
        NodeStore_CreateNode_def time_now_def newUUID_eq Let_def split: option.splits if_splits)
  with Cons show ?case by (fastforce split: prod.splits option.splits)
qed simp

lemma Sync_lxd:
  "Syncer_Sync p (lxd_at ep) memory_nodes c w = (r, w') \<Longrightarrow> w_lxd w' = w_lxd (w :: 'z world_scheme)"
  by (auto simp: Syncer_Sync_def Sync_fetches Let_def memory_list mark_offline_lxd
      dest: upsert_members_lxd split: prod.splits option.splits)

section \<open>Node sync\<close>


text \<open>C21. After a successful node sync every member that LXD reports has a node of the cluster, and every
  node that was added is a member's: it has the member's name, mapped status and resources.\<close>

theorem node_sync_tracks_members:
  assumes "mem_inv w" and "fake_wf (w_lxd w ep)"
    and "Syncer_Sync p (lxd_at ep) memory_nodes c w = (None, w')"
  shows "(\<forall>x m. map_of (f_nodes (w_lxd w ep)) x = Some m \<longrightarrow>
        (\<exists>k n. map_of (mem_nodes w') k = Some n \<and> n_ClusterID n = c \<and> n_LXDMemberName n = x)) \<and>
     (\<forall>k n. map_of (mem_nodes w) k = None \<longrightarrow> map_of (mem_nodes w') k = Some n \<longrightarrow>
        (\<exists>x m. map_of (f_nodes (w_lxd w ep)) x = Some m \<and>
           node_data n = node_data ((joined_node c (w_lxd w ep) m)\<lparr>n_ID := k\<rparr>)))"
proof (intro conjI allI impI)
  let ?f = "w_lxd w ep"
  note created = world_sync.Sync_created [OF assms(1,3) Sync_fetches fake_wf_distinct(1) [OF assms(2)]]
  show "\<exists>k n. map_of (mem_nodes w') k = Some n \<and> n_ClusterID n = c \<and> n_LXDMemberName n = x"
    if "map_of (f_nodes ?f) x = Some m" for x m
  proof -
    from that assms(2) have "ni_Name m = x" "m \<in> set (map snd (f_nodes ?f))"
      by (force simp: fake_wf_def dest!: map_of_SomeD)+
    with created(2) [of "\<lparr>md_info = m, md_resources = map_of (f_resources ?f) x\<rparr>"] show ?thesis
      by (auto simp: lxd_members_def)
  qed
  show "\<exists>x m. map_of (f_nodes ?f) x = Some m \<and> node_data n = node_data ((joined_node c ?f m)\<lparr>n_ID := k\<rparr>)"
    if new: "map_of (mem_nodes w) k = None" "map_of (mem_nodes w') k = Some n" for k n
  proof -
    from created(1) [OF new] obtain x m where "(x, m) \<in> set (f_nodes ?f)"
      "node_data n = node_data ((joined_node c ?f m)\<lparr>n_ID := k\<rparr>)"
      by (auto simp: lxd_members_def joined_node_def)
    moreover from this(1) assms(2) have "map_of (f_nodes ?f) x = Some m" by (simp add: fake_wf_def)
    ultimately show ?thesis by blast
  qed
qed


text \<open>Whatever an LXD client answers, a node sync keeps the tables consistent, removes no node,
  changes no identity field and leaves the other clusters alone, also when it fails half way.\<close>

theorem node_sync_preserves:
  assumes "lxd_reader C (\<lambda>w. (mem_inv w, map_of (mem_nodes w)))" and "mem_inv w"
    and "Syncer_Sync p C memory_nodes c w = (r, w')"
  shows "mem_inv w' \<and> (\<forall>k old. map_of (mem_nodes w) k = Some old \<longrightarrow>
       (\<exists>new. map_of (mem_nodes w') k = Some new \<and> node_ident new = node_ident old \<and>
          (n_ClusterID old \<noteq> c \<longrightarrow> new = old))) \<and>
     (\<forall>k new. map_of (mem_nodes w) k = None \<longrightarrow> map_of (mem_nodes w') k = Some new \<longrightarrow> n_ClusterID new = c)"
proof -
  have "node_syncer memory_nodes (\<lambda>s. map_of (mem_nodes s)) mem_inv
      (\<lambda>s. (mem_clusters s, mem_insts s, mem_locked s, mem.more s)) C"
    by (intro node_syncer.intro mem_node.node_repo_axioms assms(1))
  from node_syncer.Sync_keeps [OF this assms(2,3)] show ?thesis
    by (simp add: world_sync.rec.keeps_def)
qed

subsection \<open>An example\<close>

text \<open>
  Cluster \<open>c1\<close> has two nodes, cluster \<open>c2\<close> one. LXD reports the first as online with new figures, does
  not know the second any more, and has a new member that is being evacuated.
\<close>

definition ex_member :: "string \<Rightarrow> string \<Rightarrow> NodeInfo" where
  "ex_member x s = \<lparr>ni_Name = x, ni_URL = '''', ni_Status = s, ni_Message = '''', ni_Architecture = '''',
     ni_Description = '''', ni_Roles = []\<rparr>"

definition ex_lxd_inst :: "string \<Rightarrow> string \<Rightarrow> string \<Rightarrow> InstanceInfo" where
  "ex_lxd_inst x s l = \<lparr>ii_Name = x, ii_Status = s, ii_InstanceType = ''container'', ii_Location = l,
     ii_Description = '''', ii_Config = None\<rparr>"

definition ex_fake :: Fake where
  "ex_fake =
     AddInstance (ex_lxd_inst ''db'' ''Stopped'' ''gone'')
       (AddInstance (ex_lxd_inst ''web'' ''Running'' ''m1'')
         (SetNodeResources ''m1'' \<lparr>nr_CPU = \<lparr>CPU_Total = 8\<rparr>,
            nr_Memory = \<lparr>Memory_Total = 64, Memory_Used = 1\<rparr>, nr_Disk = \<lparr>Disk_Total = 100, Disk_Used = 2\<rparr>\<rparr>
           (AddNode (ex_member ''m3'' ''Evacuating'') (AddNode (ex_member ''m1'' ''Online'') New))))"

definition ex_row :: "string \<Rightarrow> string \<Rightarrow> string \<Rightarrow> node" where
  "ex_row i c x = zero_node\<lparr>n_ID := i, n_ClusterID := c, n_Name := x, n_LXDMemberName := x,
     n_Status := NodeStatusOnline\<rparr>"

definition ex_irow :: "string \<Rightarrow> string \<Rightarrow> inst" where
  "ex_irow i x = zero_inst\<lparr>i_ID := i, i_ClusterID := ''c1'', i_Name := x, i_NodeID := ''a'',
     i_Status := InstanceStatusRunning\<rparr>"

definition ex_world :: world where
  "ex_world = mem.extend
     ((mem_init ex_supply)\<lparr>
        mem_nodes := [(''a'', ex_row ''a'' ''c1'' ''m1''), (''b'', ex_row ''b'' ''c1'' ''m2''),
                      (''c'', ex_row ''c'' ''c2'' ''m2'')],
        mem_insts := [(''i'', ex_irow ''i'' ''web''), (''j'', ex_irow ''j'' ''old'')]\<rparr>)
     \<lparr>w_lxd = (\<lambda>_. ex_fake)\<rparr>"

lemma ex_world_parts:
  "mem_clusters ex_world = []"
  "mem_nodes ex_world = [(''a'', ex_row ''a'' ''c1'' ''m1''), (''b'', ex_row ''b'' ''c1'' ''m2''),
     (''c'', ex_row ''c'' ''c2'' ''m2'')]"
  "mem_insts ex_world = [(''i'', ex_irow ''i'' ''web''), (''j'', ex_irow ''j'' ''old'')]"
  "mem_env ex_world = ex_supply" "mem_locked ex_world = False" "w_lxd ex_world ep = ex_fake"
  by (simp_all add: ex_world_def mem_init_def mem.defs)

lemma ex_world_inv: "mem_inv ex_world"
  using ex_supply_distinct
  by (fastforce simp: ex_world_parts mem_inv_def fresh_supply_def used_ids_def distinct_uuids_def
      rows_wf_def ex_row_def ex_irow_def zero_node_def zero_inst_def node_ukey_def inst_ukey_def
      ex_supply_def [THEN arg_cong, of env_tick] dest: ex_supply_long)

lemma ex_fake_parts:
  "f_nodes ex_fake = [(''m1'', ex_member ''m1'' ''Online''), (''m3'', ex_member ''m3'' ''Evacuating'')]"
  "map_of (f_resources ex_fake) ''m3'' = None"
  "f_instances ex_fake = [(''web'', ex_lxd_inst ''web'' ''Running'' ''m1''),
     (''db'', ex_lxd_inst ''db'' ''Stopped'' ''gone'')]"
  by (simp_all add: ex_fake_def AddInstance_def AddNode_def SetNodeResources_def New_def ex_member_def
      ex_lxd_inst_def)

lemma ex_fake_wf: "fake_wf ex_fake"
  by (simp add: fake_wf_def ex_fake_parts ex_member_def ex_lxd_inst_def)

lemma ex_lxd_unique: "lxd_names_unique ''c1'' (map_of (mem_nodes ex_world))"
  by (auto simp: lxd_names_unique_def ex_world_parts ex_row_def zero_node_def split: if_splits)

section \<open>A node sync goes through\<close>

lemma upsert_member_env:
  "upsert_member memory_nodes c known md w = (r, w') \<Longrightarrow>
     env_rand (mem_env w') = env_rand (mem_env w) \<and> env_tick (mem_env w) \<le> env_tick (mem_env w') \<and>
     env_tick (mem_env w') \<le> env_tick (mem_env w) + 2"
  by (auto simp: upsert_member_def memory_interfaces NodeStore_UpdateNode_def NodeStore_CreateNode_def
      time_now_def newUUID_eq Let_def split: option.splits if_splits)

lemma create_node_total:
  assumes "\<forall>(k, r) \<in> set (mem_nodes w). node_ukey r \<noteq> node_ukey n"
    and "env_rand (mem_env w) (Suc (env_tick (mem_env w))) \<noteq> None"
  shows "\<exists>n' w'. CreateNode memory_nodes n w = (Inr n', w')"
  using assms by (fastforce simp: memory_interfaces NodeStore_CreateNode_def node_ukey_def time_now_def
      newUUID_eq uuid_at_def Let_def list_ex_iff)

text \<open>The members that are not tracked have names that no node of the cluster has.\<close>

definition names_free :: "string \<Rightarrow> (string \<times> node) list \<Rightarrow> memberData list \<Rightarrow> (string \<Rightarrow> node option) \<Rightarrow> bool" where
  "names_free c known mds T \<longleftrightarrow> (\<forall>md \<in> set mds. map_of known (md_name md) = None \<longrightarrow>
     (\<forall>k r. T k = Some r \<longrightarrow> n_ClusterID r = c \<longrightarrow> n_Name r \<noteq> md_name md))"

lemma upsert_member_total:
  fixes w :: "'z world_scheme"
  assumes "mem_inv w" and "world_sync.rec.known_ok c known (map_of (mem_nodes w))"
    and "names_free c known (md # mds) (map_of (mem_nodes w))"
    and "env_rand (mem_env w) (Suc (env_tick (mem_env w))) \<noteq> None"
    and "distinct (map md_name (md # mds))"
  shows "\<exists>w'. upsert_member memory_nodes c known md w = (None, w') \<and>
     names_free c known mds (map_of (mem_nodes w'))"
proof (cases "map_of known (md_name md)")
  case (Some db)
  from world_sync.rec.upsert_known_total [OF assms(1,2) Some] obtain w' where
    u: "upsert_member memory_nodes c known md w = (None, w')" by (auto simp: upsert_member_item)
  from world_sync.rec.upsert_ok [OF assms(1,2)] u Some obtain n' where
    t: "map_of (mem_nodes w') = (map_of (mem_nodes w))(n_ID db \<mapsto> n')"
    "node_data n' = node_data (tracked_node db md)"
    by (fastforce simp: upsert_member_item)
  from world_sync.rec.known_cur [OF assms(2) Some] obtain cur where
    cur: "map_of (mem_nodes w) (n_ID db) = Some cur" "node_ident cur = node_ident db" .
  have "n_Name n' = n_Name cur" "n_ClusterID n' = n_ClusterID cur"
    using node_data_fields [OF t(2)] node_ident_fields [OF cur(2)] by (simp_all add: tracked_node_def)
  with assms(3) cur(1) t(1) u show ?thesis by (auto simp: names_free_def)
next
  case None
  with assms(3) have free: "\<And>k r. map_of (mem_nodes w) k = Some r \<Longrightarrow> n_ClusterID r = c \<Longrightarrow> n_Name r \<noteq> md_name md"
    by (auto simp: names_free_def)
  have key: "\<forall>(k, r) \<in> set (mem_nodes w). node_ukey r \<noteq> node_ukey (new_node c md)"
    using free assms(1) by (auto simp: node_ukey_def mem_inv_def rows_wf_set)
  from create_node_total [OF key assms(4)] obtain n' w'
    where cr: "CreateNode memory_nodes (new_node c md) w = (Inr n', w')" by blast
  with None have u: "upsert_member memory_nodes c known md w = (None, w')" by (simp add: upsert_member_def)
  from mem_node.create_ok [OF assms(1) cr] have t: "map_of (mem_nodes w') = (map_of (mem_nodes w))(n_ID n' \<mapsto> n')"
    "node_data n' = node_data ((new_node c md)\<lparr>n_ID := n_ID n'\<rparr>)" by blast+
  from node_data_fields [OF t(2)] have "n_Name n' = md_name md" by simp
  with assms(3,5) t(1) u show ?thesis by (auto simp: names_free_def)
qed

lemma upsert_members_succeed:
  "mem_inv (w :: 'z world_scheme) \<Longrightarrow> world_sync.rec.known_ok c known (map_of (mem_nodes w)) \<Longrightarrow>
   names_free c known mds (map_of (mem_nodes w)) \<Longrightarrow> distinct (map md_name mds) \<Longrightarrow>
   (\<And>t. env_tick (mem_env w) \<le> t \<Longrightarrow> t < env_tick (mem_env w) + 2 * length mds \<Longrightarrow>
      env_rand (mem_env w) t \<noteq> None) \<Longrightarrow>
   \<exists>w'. range_until_error (upsert_member memory_nodes c known) mds w = (None, w')"
proof (induction mds arbitrary: w)
  case (Cons md mds)
  have "env_rand (mem_env w) (Suc (env_tick (mem_env w))) \<noteq> None" by (intro Cons.prems(5)) simp_all
  from upsert_member_total [OF Cons.prems(1,2,3) this Cons.prems(4)] obtain w1 where
    u: "upsert_member memory_nodes c known md w = (None, w1)"
    and f: "names_free c known mds (map_of (mem_nodes w1))" by blast
  from world_sync.rec.upsert_ok [OF Cons.prems(1,2)] u have w1: "mem_inv w1"
    "world_sync.rec.keeps c (map_of (mem_nodes w)) (map_of (mem_nodes w1))"
    by (simp_all add: upsert_member_item)
  note e = upsert_member_env [OF u]
  have "\<exists>w'. range_until_error (upsert_member memory_nodes c known) mds w1 = (None, w')"
  proof (rule Cons.IH [OF w1(1) world_sync.rec.known_ok_keeps [OF Cons.prems(2) w1(2)] f])
    show "distinct (map md_name mds)" using Cons.prems(4) by simp
    show "env_rand (mem_env w1) t \<noteq> None"
      if "env_tick (mem_env w1) \<le> t" "t < env_tick (mem_env w1) + 2 * length mds" for t
      using Cons.prems(5) [of t] e that by simp
  qed
  with u show ?case by simp
qed simp

lemma sync_total:
  assumes "mem_inv w" and "fake_wf (w_lxd w ep)"
    and "\<forall>k n. map_of (mem_nodes w) k = Some n \<longrightarrow> n_ClusterID n = c \<longrightarrow>
           map_of (f_nodes (w_lxd w ep)) (n_Name n) \<noteq> None \<longrightarrow> n_LXDMemberName n = n_Name n"
    and "\<forall>t. env_tick (mem_env w) \<le> t \<longrightarrow>
           t < env_tick (mem_env w) + 2 * length (f_nodes (w_lxd w ep)) \<longrightarrow> env_rand (mem_env w) t \<noteq> None"
  shows "\<exists>w'. Syncer_Sync p (lxd_at ep) memory_nodes c w = (None, w')"
proof -
  let ?f = "w_lxd w ep"
  let ?ns = "filter (\<lambda>n. n_ClusterID n = c) (map snd (mem_nodes w))"
  have l: "ListNodes memory_nodes c w = (Inr ?ns, w)" by (simp add: memory_list)
  from world_sync.lists_ListNodes [OF assms(1) l] have lists: "world_sync.rec.lists c ?ns (map_of (mem_nodes w))"
    by blast
  from world_sync.rec.index_known_ok [OF lists assms(1)]
  have k: "world_sync.rec.known_ok c (byLXDName ?ns) (map_of (mem_nodes w))" by (simp add: byLXDName_index)
  have d: "distinct (map md_name (lxd_members ?f))"
    using fake_wf_distinct(1) [OF assms(2)] by (simp add: lxd_members_def comp_def)
  have "n_Name r \<noteq> md_name md" if md: "md \<in> set (lxd_members ?f)"
    "map_of (byLXDName ?ns) (md_name md) = None" "map_of (mem_nodes w) j = Some r" "n_ClusterID r = c" for md j r
  proof
    assume x: "n_Name r = md_name md"
    from md(1) assms(2) have "map_of (f_nodes ?f) (md_name md) \<noteq> None"
      by (auto simp: lxd_members_def fake_wf_def map_of_eq_None_iff rev_image_eqI)
    with assms(3) md(3,4) x have "n_LXDMemberName r = md_name md" by metis
    with world_sync.rec.index_none [OF lists, of "md_name md"] md(2,3,4) show False
      by (auto simp: byLXDName_index)
  qed
  then have "names_free c (byLXDName ?ns) (lxd_members ?f) (map_of (mem_nodes w))"
    by (auto simp: names_free_def)
  from upsert_members_succeed [OF assms(1) k this d] assms(4) obtain w'
    where "range_until_error (upsert_member memory_nodes c (byLXDName ?ns)) (lxd_members ?f) w = (None, w')"
    by (auto simp: lxd_members_def)
  then show ?thesis by (simp add: Syncer_Sync_def Sync_fetches l Let_def)
qed

text \<open>C23. A node sync succeeds when the repository can take it: no node of the cluster holds a reported
  member's name without being that member, and the random source delivers.\<close>

theorem node_sync_succeeds:
  assumes "mem_inv w" and "fake_wf (w_lxd w ep)"
    and "\<forall>k n. map_of (mem_nodes w) k = Some n \<longrightarrow> n_ClusterID n = c \<longrightarrow>
           map_of (f_nodes (w_lxd w ep)) (n_Name n) \<noteq> None \<longrightarrow> n_LXDMemberName n = n_Name n"
    and "\<forall>t. env_tick (mem_env w) \<le> t \<longrightarrow>
           t < env_tick (mem_env w) + 2 * length (f_nodes (w_lxd w ep)) \<longrightarrow> env_rand (mem_env w) t \<noteq> None"
  shows "\<exists>w'. Syncer_Sync p (lxd_at ep) memory_nodes c w = (None, w')"
  using assms by (rule sync_total)

theorem node_sync_succeeds_witness: "\<exists>w'. Syncer_Sync 1 (lxd_at ''ep'') memory_nodes ''c1'' ex_world = (None, w')"
  by (rule node_sync_succeeds [OF ex_world_inv])
    (auto simp: ex_world_parts ex_fake_wf ex_fake_parts ex_row_def zero_node_def ex_supply_def split: if_splits)

lemma ex_sync: "\<exists>w'. Syncer_Sync p (lxd_at ''ep'') memory_nodes ''c1'' ex_world = (None, w')"
  by (rule sync_total [OF ex_world_inv])
    (auto simp: ex_world_parts ex_fake_wf ex_fake_parts ex_row_def zero_node_def ex_supply_def split: if_splits)

lemma ex_rows:
  "map_of (mem_nodes ex_world) ''a'' = Some (ex_row ''a'' ''c1'' ''m1'')"
  "map_of (mem_nodes ex_world) ''b'' = Some (ex_row ''b'' ''c1'' ''m2'')"
  "map_of (mem_nodes ex_world) ''c'' = Some (ex_row ''c'' ''c2'' ''m2'')"
  by (simp_all add: ex_world_parts)


theorem node_sync_tracks_members_witness:
  "\<exists>w' k n. Syncer_Sync 0 (lxd_at ''ep'') memory_nodes ''c1'' ex_world = (None, w') \<and>
     map_of (mem_nodes w') k = Some n \<and> n_LXDMemberName n = ''m3'' \<and> k \<notin> {''a'', ''b'', ''c''}"
proof -
  obtain w' where s: "Syncer_Sync 0 (lxd_at ''ep'') memory_nodes ''c1'' ex_world = (None, w')"
    using ex_sync by blast
  have wf: "fake_wf (w_lxd ex_world ''ep'')" by (simp add: ex_world_parts ex_fake_wf)
  have "map_of (f_nodes (w_lxd ex_world ''ep'')) ''m3'' = Some (ex_member ''m3'' ''Evacuating'')"
    by (simp add: ex_world_parts ex_fake_parts)
  with node_sync_tracks_members [OF ex_world_inv wf s]
  obtain k n where n: "map_of (mem_nodes w') k = Some n" "n_ClusterID n = ''c1''" "n_LXDMemberName n = ''m3''"
    by blast
  from world_sync.Sync_keeps [OF ex_world_inv s]
  have kp: "world_sync.rec.keeps ''c1'' (map_of (mem_nodes ex_world)) (map_of (mem_nodes w'))" by blast
  have other: "n_LXDMemberName m = x"
    if "map_of (mem_nodes w') i = Some m" "map_of (mem_nodes ex_world) i = Some (ex_row i c x)" for i m c x
  proof -
    from world_sync.rec.keepsD [where k = i, OF kp that(2)] that(1) have "node_ident m = node_ident (ex_row i c x)"
      by auto
    from node_ident_fields [OF this] show ?thesis by (simp add: ex_row_def)
  qed
  have "k \<noteq> ''a''" "k \<noteq> ''b''" "k \<noteq> ''c''"
    using other [OF _ ex_rows(1), of n] other [OF _ ex_rows(2), of n] other [OF _ ex_rows(3), of n] n(1,3)
    by auto
  with s n(1,3) show ?thesis by blast
qed


theorem node_sync_preserves_witness:
  "\<exists>r w' new. Syncer_Sync 0 (lxd_at ''ep'') memory_nodes ''c1'' ex_world = (r, w') \<and> mem_inv w' \<and>
     map_of (mem_nodes w') ''b'' = Some new \<and> n_Name new = ''m2''"
proof -
  have rd: "lxd_reader (lxd_at ''ep'') (\<lambda>w :: world. (mem_inv w, map_of (mem_nodes w)))"
    by unfold_locales (simp_all add: lxd_at_reads)
  obtain r w' where s: "Syncer_Sync 0 (lxd_at ''ep'') memory_nodes ''c1'' ex_world = (r, w')" by fastforce
  from node_sync_preserves [OF rd ex_world_inv s] ex_rows(2)
  obtain new where "mem_inv w'" "map_of (mem_nodes w') ''b'' = Some new"
    "node_ident new = node_ident (ex_row ''b'' ''c1'' ''m2'')" by blast
  with node_ident_fields [OF this(3)] s show ?thesis by (auto simp: ex_row_def)
qed

section \<open>Instance sync\<close>

text \<open>A node ID for the LXD location: that of a node of the cluster with this member name, or empty when
  there is no such node.\<close>

definition placed_at :: "string \<Rightarrow> (string \<Rightarrow> node option) \<Rightarrow> string \<Rightarrow> string \<Rightarrow> bool" where
  "placed_at c T location nodeID \<longleftrightarrow>
     (nodeID = '''' \<and> (\<forall>k n. T k = Some n \<longrightarrow> n_ClusterID n = c \<longrightarrow> n_LXDMemberName n \<noteq> location)) \<or>
     (\<exists>n. T nodeID = Some n \<and> n_ClusterID n = c \<and> n_LXDMemberName n = location)"

definition cluster_nodes :: "string \<Rightarrow> 'z mem_scheme \<Rightarrow> node list" where
  "cluster_nodes c w = filter (\<lambda>n. n_ClusterID n = c) (map snd (mem_nodes w))"

lemma placed_at_index:
  assumes "mem_inv w"
  shows "placed_at c (map_of (mem_nodes w)) x (nodeIDByLXDName (cluster_nodes c w) x)"
proof -
  have row: "map_of (mem_nodes w) (n_ID n) = Some n" if "n \<in> set (cluster_nodes c w)" for n
  proof -
    from that obtain k where "(k, n) \<in> set (mem_nodes w)" by (auto simp: cluster_nodes_def)
    with assms show ?thesis by (auto simp: mem_inv_def rows_wf_def)
  qed
  have mem: "n \<in> set (cluster_nodes c w)" if "map_of (mem_nodes w) k = Some n" "n_ClusterID n = c" for k n
    using that map_of_SomeD [OF that(1)] by (force simp: cluster_nodes_def)
  from nodeIDByLXDName_cases [of x "cluster_nodes c w"] show ?thesis
  proof
    assume "x \<notin> n_LXDMemberName ` set (cluster_nodes c w) \<and> nodeIDByLXDName (cluster_nodes c w) x = []"
    with mem show ?thesis unfolding placed_at_def by blast
  next
    assume "\<exists>n \<in> set (cluster_nodes c w). n_LXDMemberName n = x \<and> nodeIDByLXDName (cluster_nodes c w) x = n_ID n"
    then obtain n where n: "n \<in> set (cluster_nodes c w)" "n_LXDMemberName n = x"
      "nodeIDByLXDName (cluster_nodes c w) x = n_ID n" by blast
    from n(1) have "n_ClusterID n = c" by (simp add: cluster_nodes_def)
    with row [OF n(1)] n(2,3) show ?thesis unfolding placed_at_def by auto
  qed
qed

lemma Instance_fetches:
  "Client_ListInstances (lxd_at ep) w = (Inr (map snd (f_instances (w_lxd w ep))), w)"
  "ListNodes memory_nodes c w = (Inr (cluster_nodes c w), w)"
  by (simp_all add: lxd_at_reads memory_list cluster_nodes_def)

lemma find_instance:
  "fake_wf f \<Longrightarrow> List.find (\<lambda>i. ii_Name i = x) (map snd (f_instances f)) = map_of (f_instances f) x"
  by (intro find_keyed) (auto simp: fake_wf_def)

text \<open>C24. After a successful instance sync every instance of the cluster is what LXD says: a reported one
  has its mapped status and config and is placed on the node at its location (on none when no node has
  that member name); one that LXD no longer reports is unknown and placed nowhere. All other fields,
  the limits in particular, and the instances of other clusters are kept.\<close>

theorem instance_sync_refines_lxd:
  assumes "mem_inv w" and "fake_wf (w_lxd w ep)"
    and "InstanceSyncer_Sync p (lxd_at ep) memory_instances memory_nodes c w = (None, w')"
    and "map_of (mem_insts w) k = Some old"
  shows "\<exists>new. map_of (mem_insts w') k = Some new \<and> inst_ident new = inst_ident old \<and>
     (if i_ClusterID old = c then
        (case map_of (f_instances (w_lxd w ep)) (i_Name old) of
           None \<Rightarrow> i_Status new = InstanceStatusUnknown \<and> i_NodeID new = '''' \<and> i_Config new = i_Config old
         | Some x \<Rightarrow> i_Status new = mapLXDInstanceStatus (ii_Status x) \<and>
             placed_at c (map_of (mem_nodes w)) (ii_Location x) (i_NodeID new) \<and>
             i_Config new = convertInstanceConfig (ii_Config x))
      else new = old)"
proof -
  let ?f = "w_lxd w ep"
  from world_instance_sync.Sync_keeps [OF assms(1,3)]
  have kp: "world_instance_sync.rec.keeps c (map_of (mem_insts w)) (map_of (mem_insts w'))" by blast
  from world_instance_sync.rec.keepsD [where k = k, OF kp assms(4)] obtain new where
    new: "map_of (mem_insts w') k = Some new" "inst_ident new = inst_ident old" "i_ClusterID old \<noteq> c \<longrightarrow> new = old"
    by blast
  show ?thesis
  proof (cases "i_ClusterID old = c")
    case True
    from world_instance_sync.Sync_existing [OF assms(1,3) Instance_fetches fake_wf_distinct(2) [OF assms(2)]
        assms(4) True] new(1)
    have "inst_data new = inst_data (world_instance_sync.rec.target (nodeIDByLXDName (cluster_nodes c w))
        (map snd (f_instances ?f)) old)" by auto
    from inst_data_fields [OF this] new True placed_at_index [OF assms(1)] show ?thesis
      by (auto simp: world_instance_sync.rec.target_def find_instance [OF assms(2)] tracked_inst_def
          lost_inst_def split: option.split)
  qed (use new in simp)
qed

text \<open>After a successful instance sync every instance that LXD reports has a row of the cluster, and
  every row that was added is a reported instance's, with its type, status, placement and config and
  with no limits.\<close>

theorem instance_sync_tracks:
  assumes "mem_inv w" and "fake_wf (w_lxd w ep)"
    and "InstanceSyncer_Sync p (lxd_at ep) memory_instances memory_nodes c w = (None, w')"
  shows "(\<forall>x info. map_of (f_instances (w_lxd w ep)) x = Some info \<longrightarrow>
        (\<exists>k i. map_of (mem_insts w') k = Some i \<and> i_ClusterID i = c \<and> i_Name i = x)) \<and>
     (\<forall>k i. map_of (mem_insts w) k = None \<longrightarrow> map_of (mem_insts w') k = Some i \<longrightarrow>
        (\<exists>info. map_of (f_instances (w_lxd w ep)) (i_Name i) = Some info \<and> i_ClusterID i = c \<and>
           i_InstanceType i = ii_InstanceType info \<and> i_Status i = mapLXDInstanceStatus (ii_Status info) \<and>
           placed_at c (map_of (mem_nodes w)) (ii_Location info) (i_NodeID i) \<and>
           i_CPULimit i = 0 \<and> i_MemoryLimit i = 0 \<and> i_DiskLimit i = 0))"
proof (intro conjI allI impI)
  let ?f = "w_lxd w ep"
  note created = world_instance_sync.Sync_created
    [OF assms(1,3) Instance_fetches fake_wf_distinct(2) [OF assms(2)]]
  show "\<exists>k i. map_of (mem_insts w') k = Some i \<and> i_ClusterID i = c \<and> i_Name i = x"
    if "map_of (f_instances ?f) x = Some info" for x info
  proof -
    from that assms(2) have "ii_Name info = x" "info \<in> set (map snd (f_instances ?f))"
      by (force simp: fake_wf_def dest!: map_of_SomeD)+
    with created(2) [of info] show ?thesis by simp
  qed
  show "\<exists>info. map_of (f_instances ?f) (i_Name i) = Some info \<and> i_ClusterID i = c \<and>
           i_InstanceType i = ii_InstanceType info \<and> i_Status i = mapLXDInstanceStatus (ii_Status info) \<and>
           placed_at c (map_of (mem_nodes w)) (ii_Location info) (i_NodeID i) \<and>
           i_CPULimit i = 0 \<and> i_MemoryLimit i = 0 \<and> i_DiskLimit i = 0"
    if new: "map_of (mem_insts w) k = None" "map_of (mem_insts w') k = Some i" for k i
  proof -
    from created(1) [OF new] obtain x info where x: "(x, info) \<in> set (f_instances ?f)"
      "inst_data i = inst_data ((new_inst c (nodeIDByLXDName (cluster_nodes c w)) info)\<lparr>i_ID := k\<rparr>)" by auto
    from x(1) assms(2) have "map_of (f_instances ?f) (ii_Name info) = Some info" by (auto simp: fake_wf_def)
    with inst_data_fields [OF x(2)] placed_at_index [OF assms(1)] show ?thesis
      by (simp add: new_inst_def zero_inst_def)
  qed
qed

lemma mark_unknown_frame:
  "w_lxd (mark_unknown memory_instances seen es w) = w_lxd (w :: 'z world_scheme) \<and>
   mem_nodes (mark_unknown memory_instances seen es w) = mem_nodes w"
proof (induction es arbitrary: w)
  case (Cons e es)
  then show ?case
    by (cases e) (auto simp: memory_interfaces InstanceStore_UpdateInstance_def time_now_def Let_def
        split: option.splits)
qed simp

lemma upsert_instances_frame:
  "range_until_error (upsert_instance memory_instances c ids known) xs w = (r, w') \<Longrightarrow>
     w_lxd w' = w_lxd (w :: 'z world_scheme) \<and> mem_nodes w' = mem_nodes w"
proof (induction xs arbitrary: w)
  case (Cons x xs)
  have "w_lxd w1 = w_lxd w \<and> mem_nodes w1 = mem_nodes w"
    if "upsert_instance memory_instances c ids known x w = (e, w1)" for e w1
    using that by (auto simp: upsert_instance_def memory_interfaces InstanceStore_UpdateInstance_def
        InstanceStore_CreateInstance_def time_now_def newUUID_eq Let_def split: option.splits if_splits)
  with Cons show ?case by (fastforce split: prod.splits option.splits)
qed simp

lemma Instance_Sync_frame:
  "InstanceSyncer_Sync p (lxd_at ep) memory_instances memory_nodes c w = (r, w') \<Longrightarrow>
     w_lxd w' = w_lxd (w :: 'z world_scheme) \<and> mem_nodes w' = mem_nodes w"
  by (auto simp: InstanceSyncer_Sync_def Instance_fetches Let_def memory_list mark_unknown_frame
      dest: upsert_instances_frame split: prod.splits option.splits)

text \<open>An instance sync is idempotent, whatever the iteration order, and leaves the nodes alone.\<close>

theorem instance_sync_idempotent:
  fixes w :: "'z world_scheme"
  assumes "mem_inv w" and "fake_wf (w_lxd w ep)"
    and "InstanceSyncer_Sync p (lxd_at ep) memory_instances memory_nodes c w = (None, w')"
  shows "\<exists>w''. InstanceSyncer_Sync q (lxd_at ep) memory_instances memory_nodes c w' = (None, w'') \<and>
     (\<forall>k. map_option inst_data (map_of (mem_insts w'') k) = map_option inst_data (map_of (mem_insts w') k)) \<and>
     mem_nodes w' = mem_nodes w"
proof -
  from Instance_Sync_frame [OF assms(3)] have fr: "w_lxd w' = w_lxd w" "mem_nodes w' = mem_nodes w" by simp_all
  then have "Client_ListInstances (lxd_at ep) w' = (Inr (map snd (f_instances (w_lxd w ep))), w')"
    "ListNodes memory_nodes c w' = (Inr (cluster_nodes c w), w')"
    using Instance_fetches [where w = w'] by (simp_all add: cluster_nodes_def)
  from world_instance_sync.Sync_again [OF assms(1,3) Instance_fetches fake_wf_distinct(2) [OF assms(2)] this, of q]
  show ?thesis using fr(2) by blast
qed

lemma memory_instance_methods:
  "UpdateInstance memory_instances = InstanceStore_UpdateInstance"
  "CreateInstance memory_instances = InstanceStore_CreateInstance"
  by (simp_all add: memory_interfaces)

lemma ex_instance_sync:
  "\<exists>w'. InstanceSyncer_Sync 0 (lxd_at ''ep'') memory_instances memory_nodes ''c1'' ex_world = (None, w')"
  by (simp add: InstanceSyncer_Sync_def Instance_fetches memory_list ex_world_parts ex_fake_parts Let_def
      byName_def upsert_instance_def ex_irow_def zero_inst_def ex_lxd_inst_def memory_instance_methods
      InstanceStore_UpdateInstance_def InstanceStore_CreateInstance_def time_now_def newUUID_eq uuid_at_def
      tracked_inst_def new_inst_def ex_supply_def)

lemma ex_irows:
  "map_of (mem_insts ex_world) ''i'' = Some (ex_irow ''i'' ''web'')"
  "map_of (mem_insts ex_world) ''j'' = Some (ex_irow ''j'' ''old'')"
  by (simp_all add: ex_world_parts)

theorem instance_sync_refines_lxd_witness:
  "\<exists>w' new. InstanceSyncer_Sync 0 (lxd_at ''ep'') memory_instances memory_nodes ''c1'' ex_world = (None, w') \<and>
     map_of (mem_insts w') ''j'' = Some new \<and> i_Status new = InstanceStatusUnknown \<and> i_NodeID new = ''''"
proof -
  obtain w' where s: "InstanceSyncer_Sync 0 (lxd_at ''ep'') memory_instances memory_nodes ''c1'' ex_world = (None, w')"
    using ex_instance_sync by blast
  have wf: "fake_wf (w_lxd ex_world ''ep'')" by (simp add: ex_world_parts ex_fake_wf)
  have "map_of (f_instances (w_lxd ex_world ''ep'')) (i_Name (ex_irow ''j'' ''old'')) = None"
    by (simp add: ex_world_parts ex_fake_parts ex_irow_def)
  with instance_sync_refines_lxd [OF ex_world_inv wf s ex_irows(2)] s show ?thesis
    by (auto simp: ex_irow_def)
qed

theorem instance_sync_tracks_witness:
  "\<exists>w' k i. InstanceSyncer_Sync 0 (lxd_at ''ep'') memory_instances memory_nodes ''c1'' ex_world = (None, w') \<and>
     map_of (mem_insts w') k = Some i \<and> i_Name i = ''db''"
proof -
  obtain w' where s: "InstanceSyncer_Sync 0 (lxd_at ''ep'') memory_instances memory_nodes ''c1'' ex_world = (None, w')"
    using ex_instance_sync by blast
  have wf: "fake_wf (w_lxd ex_world ''ep'')" by (simp add: ex_world_parts ex_fake_wf)
  have "map_of (f_instances (w_lxd ex_world ''ep'')) ''db'' = Some (ex_lxd_inst ''db'' ''Stopped'' ''gone'')"
    by (simp add: ex_world_parts ex_fake_parts)
  with instance_sync_tracks [OF ex_world_inv wf s] s show ?thesis by blast
qed

theorem instance_sync_idempotent_witness:
  "\<exists>w' w''. InstanceSyncer_Sync 0 (lxd_at ''ep'') memory_instances memory_nodes ''c1'' ex_world = (None, w') \<and>
     InstanceSyncer_Sync 1 (lxd_at ''ep'') memory_instances memory_nodes ''c1'' w' = (None, w'') \<and>
     (\<forall>k. map_option inst_data (map_of (mem_insts w'') k) = map_option inst_data (map_of (mem_insts w') k))"
proof -
  obtain w' where s: "InstanceSyncer_Sync 0 (lxd_at ''ep'') memory_instances memory_nodes ''c1'' ex_world = (None, w')"
    using ex_instance_sync by blast
  have wf: "fake_wf (w_lxd ex_world ''ep'')" by (simp add: ex_world_parts ex_fake_wf)
  from instance_sync_idempotent [OF ex_world_inv wf s, of 1] s show ?thesis by blast
qed

end
