(* ===== verification/Sort_Slice.thy ===== *)
theory Sort_Slice
  imports Prelude
begin

section \<open>Sorting (the standard library's sort.Slice and sort.Strings)\<close>

text \<open>
  \<open>sort.Slice\<close> leaves its slice as some permutation that is ordered by the given \<open>less\<close>; which
  permutation is not specified when elements are equivalent. The model sorts by insertion. The
  lemmas show what any correct sort has in common with it: for a strict weak order the head is a
  minimal element, and where \<open>less\<close> is total on the slice every ordered permutation is the same.
\<close>

fun insert_by :: "('a \<Rightarrow> 'a \<Rightarrow> bool) \<Rightarrow> 'a \<Rightarrow> 'a list \<Rightarrow> 'a list" where
  "insert_by lt x [] = [x]"
| "insert_by lt x (y # ys) = (if lt y x then y # insert_by lt x ys else x # y # ys)"

fun sort_slice :: "('a \<Rightarrow> 'a \<Rightarrow> bool) \<Rightarrow> 'a list \<Rightarrow> 'a list" where
  "sort_slice lt [] = []"
| "sort_slice lt (x # xs) = insert_by lt x (sort_slice lt xs)"

lemma mset_insert_by [simp]: "mset (insert_by lt x ys) = add_mset x (mset ys)"
  by (induction ys) auto

lemma mset_sort_slice [simp]: "mset (sort_slice lt xs) = mset xs"
  by (induction xs) auto

lemma set_sort_slice [simp]: "set (sort_slice lt xs) = set xs"
  by (rule mset_eq_setD) simp

lemma length_sort_slice [simp]: "length (sort_slice lt xs) = length xs"
  by (rule mset_eq_length) simp

lemma sort_slice_eq_Nil [simp]: "sort_slice lt xs = [] \<longleftrightarrow> xs = []"
  by (metis mset_sort_slice mset_zero_iff)

text \<open>The contract of \<open>less\<close> that the documentation of \<open>sort.Slice\<close> asks for.\<close>

locale strict_weak_order =
  fixes lt :: "'a \<Rightarrow> 'a \<Rightarrow> bool"
  assumes less_asym: "lt x y \<Longrightarrow> \<not> lt y x"
    and less_neg_trans: "\<not> lt x y \<Longrightarrow> \<not> lt y z \<Longrightarrow> \<not> lt x z"
begin

lemma sorted_insert_by:
  "sorted_wrt (\<lambda>a b. \<not> lt b a) ys \<Longrightarrow> sorted_wrt (\<lambda>a b. \<not> lt b a) (insert_by lt x ys)"
proof (induction ys)
  case Nil
  then show ?case by simp
next
  case (Cons y ys)
  have set_ins: "set (insert_by lt x ys) = insert x (set ys)"
    using mset_insert_by [of lt x ys] by (metis set_mset_add_mset_insert set_mset_mset)
  show ?case
  proof (cases "lt y x")
    case True
    with Cons less_asym show ?thesis by (auto simp: set_ins)
  next
    case False
    moreover have "\<not> lt z x" if "z \<in> set ys" for z
      using that Cons.prems False less_neg_trans [of z y x] by auto
    ultimately show ?thesis using Cons.prems by auto
  qed
qed

lemma sorted_sort_slice: "sorted_wrt (\<lambda>a b. \<not> lt b a) (sort_slice lt xs)"
  by (induction xs) (simp_all add: sorted_insert_by)

lemma hd_sort_slice_min:
  assumes "y \<in> set xs"
  shows "\<not> lt y (hd (sort_slice lt xs))"
proof -
  from assms have ne: "sort_slice lt xs \<noteq> []" by auto
  then obtain z zs where z: "sort_slice lt xs = z # zs" by (cases "sort_slice lt xs") auto
  from assms z have "y = z \<or> y \<in> set zs" by (metis set_ConsD set_sort_slice)
  moreover from sorted_sort_slice [of xs] z have "\<forall>u \<in> set zs. \<not> lt u z" by simp
  ultimately show ?thesis using z less_asym by auto
qed

text \<open>Where \<open>less\<close> separates the elements, the minimal element does not depend on the order of
  the input, hence not on the sorting algorithm either.\<close>

lemma minimal_unique:
  assumes "\<And>x y. x \<in> S \<Longrightarrow> y \<in> S \<Longrightarrow> x \<noteq> y \<Longrightarrow> lt x y \<or> lt y x"
    and "x \<in> S" and "y \<in> S" and "\<And>z. z \<in> S \<Longrightarrow> \<not> lt z x" and "\<And>z. z \<in> S \<Longrightarrow> \<not> lt z y"
  shows "x = y"
  using assms by blast

lemma hd_sort_slice_unique:
  assumes total: "\<And>x y. x \<in> set xs \<Longrightarrow> y \<in> set xs \<Longrightarrow> x \<noteq> y \<Longrightarrow> lt x y \<or> lt y x"
    and m: "m \<in> set xs" and min: "\<And>y. y \<in> set xs \<Longrightarrow> \<not> lt y m"
  shows "hd (sort_slice lt xs) = m"
proof -
  have "hd (sort_slice lt xs) \<in> set xs"
    using m by (metis hd_in_set length_greater_0_conv length_pos_if_in_set set_sort_slice
        length_sort_slice)
  with total m min hd_sort_slice_min show ?thesis by (metis minimal_unique)
qed

end

end
