(* ===== verification/Float64.thy ===== *)
theory Float64
  imports Prelude "HOL-Library.Log_Nat"
begin

section \<open>IEEE 754 binary64 arithmetic\<close>

text \<open>
  Go's \<open>float64\<close> as the rational it denotes. Every operation computes the exact result and rounds
  it to 53 significant bits, ties to even. The exponent is unbounded here: the values the program
  computes (quotients and short sums of converted 64-bit integers with a positive divisor) have a
  magnitude between \<open>2 ^ -128\<close> and \<open>2 ^ 65\<close> or are zero, far from overflow and from the
  subnormal range, so bounded exponents, infinities and NaN never come into play.
\<close>

definition round_half_even :: "rat \<Rightarrow> int" where
  "round_half_even z =
     (let f = \<lfloor>z\<rfloor>; d = z - of_int f
      in if d < 1 / 2 then f else if 1 / 2 < d then f + 1 else if even f then f else f + 1)"

definition f64_exponent :: "rat \<Rightarrow> int" where
  "f64_exponent x =
     (let (p, q) = quotient_of x; k = bitlen p - bitlen q
      in if 2 powi k \<le> x then k - 52 else k - 53)"

definition f64_round_pos :: "rat \<Rightarrow> rat" where
  "f64_round_pos x =
     (let e = f64_exponent x in of_int (round_half_even (x / 2 powi e)) * 2 powi e)"

definition f64_round :: "rat \<Rightarrow> rat" where
  "f64_round x =
     (if x = 0 then 0 else if 0 < x then f64_round_pos x else - f64_round_pos (- x))"

definition f64_of_int64 :: "int64 \<Rightarrow> rat" where
  "f64_of_int64 w = f64_round (of_int (sint w))"

definition f64_add :: "rat \<Rightarrow> rat \<Rightarrow> rat" where
  "f64_add x y = f64_round (x + y)"

definition f64_div :: "rat \<Rightarrow> rat \<Rightarrow> rat" where
  "f64_div x y = f64_round (x / y)"

subsection \<open>Rounding is monotone\<close>

lemma round_half_even_bounds: "\<lfloor>z\<rfloor> \<le> round_half_even z \<and> round_half_even z \<le> \<lfloor>z\<rfloor> + 1"
  by (simp add: round_half_even_def Let_def)

lemma round_half_even_of_int [simp]: "round_half_even (of_int n) = n"
  by (simp add: round_half_even_def)

lemma round_half_even_mono:
  assumes "z \<le> w"
  shows "round_half_even z \<le> round_half_even w"
proof (cases "\<lfloor>z\<rfloor> = \<lfloor>w\<rfloor>")
  case True
  with assms show ?thesis by (auto simp: round_half_even_def Let_def)
next
  case False
  with assms have "\<lfloor>z\<rfloor> + 1 \<le> \<lfloor>w\<rfloor>" using floor_mono [OF assms] by simp
  with round_half_even_bounds [of z] round_half_even_bounds [of w] show ?thesis by linarith
qed

lemma f64_exponent_bounds:
  assumes "0 < x"
  shows "2 powi (f64_exponent x + 52) \<le> x" and "x < 2 powi (f64_exponent x + 53)"
proof -
  obtain p q where pq: "quotient_of x = (p, q)" by (cases "quotient_of x")
  then have x: "x = of_int p / of_int q" and q: "0 < q"
    by (auto simp: quotient_of_div quotient_of_denom_pos)
  with assms have p: "0 < p" by (simp add: zero_less_divide_iff)
  define a b where "a = bitlen p" and "b = bitlen q"
  have "bitlen p \<noteq> 0" "bitlen q \<noteq> 0" using p q by (simp_all add: bitlen_eq_zero_iff)
  with bitlen_nonneg [of p] bitlen_nonneg [of q] have a1: "1 \<le> a" and b1: "1 \<le> b"
    by (simp_all add: a_def b_def)
  have pb: "2 ^ nat (a - 1) \<le> p" "p < 2 ^ nat a" and qb: "2 ^ nat (b - 1) \<le> q" "q < 2 ^ nat b"
    using bitlen_bounds p q by (auto simp: a_def b_def)
  have P: "(2::rat) powi (a - 1) \<le> of_int p" "of_int p < (2::rat) powi a"
    using pb a1 by (simp_all add: power_int_def)
  have Q: "(2::rat) powi (b - 1) \<le> of_int q" "of_int q < (2::rat) powi b"
    using qb b1 by (simp_all add: power_int_def)
  have lo: "(2::rat) powi (a - b - 1) \<le> x"
  proof -
    have "(2::rat) powi (a - b - 1) = 2 powi (a - 1) / 2 powi b"
      by (simp add: power_int_diff power_int_add field_simps)
    also have "\<dots> \<le> x" unfolding x using P Q q p by (intro frac_le) auto
    finally show ?thesis .
  qed
  have hi: "x < (2::rat) powi (a - b + 1)"
  proof -
    have "x < 2 powi a / 2 powi (b - 1)"
      unfolding x using P Q q p by (intro frac_less) auto
    also have "\<dots> = (2::rat) powi (a - b + 1)"
      by (simp add: power_int_diff power_int_add field_simps)
    finally show ?thesis .
  qed
  have e: "f64_exponent x = (if 2 powi (a - b) \<le> x then a - b - 52 else a - b - 53)"
    by (simp add: f64_exponent_def pq a_def b_def)
  show "2 powi (f64_exponent x + 52) \<le> x" using lo by (auto simp: e)
  show "x < 2 powi (f64_exponent x + 53)" using hi by (auto simp: e add.commute)
qed

lemma f64_round_pos_bounds:
  assumes "0 < x"
  shows "2 powi (f64_exponent x + 52) \<le> f64_round_pos x"
    and "f64_round_pos x \<le> 2 powi (f64_exponent x + 53)"
proof -
  define e where "e = f64_exponent x"
  have le: "of_int (2 ^ 52) \<le> x / 2 powi e" "x / 2 powi e \<le> of_int (2 ^ 53)"
    using f64_exponent_bounds [OF assms, folded e_def]
    by (simp_all add: power_int_add pos_le_divide_eq pos_divide_le_eq mult.commute)
  have "2 ^ 52 \<le> round_half_even (x / 2 powi e)" "round_half_even (x / 2 powi e) \<le> 2 ^ 53"
    using le [THEN round_half_even_mono, unfolded round_half_even_of_int] by simp_all
  then have "(2::rat) ^ 52 \<le> of_int (round_half_even (x / 2 powi e))"
    "of_int (round_half_even (x / 2 powi e)) \<le> (2::rat) ^ 53"
    by (metis of_int_le_iff of_int_numeral of_int_power)+
  then have "(2::rat) ^ 52 * 2 powi e \<le> f64_round_pos x"
    "f64_round_pos x \<le> (2::rat) ^ 53 * 2 powi e"
    by (simp_all add: f64_round_pos_def Let_def e_def)
  then show "2 powi (f64_exponent x + 52) \<le> f64_round_pos x"
    "f64_round_pos x \<le> 2 powi (f64_exponent x + 53)"
    by (simp_all add: power_int_add e_def mult.commute)
qed

lemma f64_round_pos_mono:
  assumes "0 < x" and "x \<le> y"
  shows "f64_round_pos x \<le> f64_round_pos y"
proof -
  from assms have y: "0 < y" by simp
  consider (eq) "f64_exponent x = f64_exponent y" | (lt) "f64_exponent x < f64_exponent y"
    | (gt) "f64_exponent y < f64_exponent x" by linarith
  then show ?thesis
  proof cases
    case eq
    have "x / 2 powi f64_exponent y \<le> y / 2 powi f64_exponent y"
      using assms(2) by (simp add: divide_right_mono)
    then show ?thesis
      by (simp add: f64_round_pos_def Let_def eq round_half_even_mono)
  next
    case lt
    have "f64_round_pos x \<le> 2 powi (f64_exponent x + 53)"
      by (rule f64_round_pos_bounds(2) [OF assms(1)])
    also have "\<dots> \<le> 2 powi (f64_exponent y + 52)"
      using lt by (intro power_int_increasing) auto
    also have "\<dots> \<le> f64_round_pos y" by (rule f64_round_pos_bounds(1) [OF y])
    finally show ?thesis .
  next
    case gt
    have "y < 2 powi (f64_exponent y + 53)" by (rule f64_exponent_bounds(2) [OF y])
    also have "\<dots> \<le> 2 powi (f64_exponent x + 52)"
      using gt by (intro power_int_increasing) auto
    also have "\<dots> \<le> x" by (rule f64_exponent_bounds(1) [OF assms(1)])
    finally show ?thesis using assms(2) by simp
  qed
qed

lemma f64_round_pos_pos: "0 < x \<Longrightarrow> 0 < f64_round_pos x"
  by (rule less_le_trans [OF _ f64_round_pos_bounds(1)]) simp_all

lemma f64_round_0 [simp]: "f64_round 0 = 0"
  by (simp add: f64_round_def)

lemma f64_round_mono: "x \<le> y \<Longrightarrow> f64_round x \<le> f64_round y"
proof -
  assume "x \<le> y"
  then consider "0 < x" | "x < 0" "y < 0" | "x \<le> 0" "0 \<le> y" by linarith
  then show ?thesis
  proof cases
    case 1
    with \<open>x \<le> y\<close> show ?thesis by (simp add: f64_round_def f64_round_pos_mono)
  next
    case 2
    with \<open>x \<le> y\<close> show ?thesis by (simp add: f64_round_def f64_round_pos_mono)
  next
    case 3
    then show ?thesis
      using f64_round_pos_pos [of y] f64_round_pos_pos [of "- x"]
      by (auto simp: f64_round_def)
  qed
qed

lemma f64_round_pos_iff [simp]: "0 < f64_round x \<longleftrightarrow> 0 < x"
proof (cases "0 < x")
  case True
  then show ?thesis by (simp add: f64_round_def f64_round_pos_pos)
next
  case False
  then have "f64_round x \<le> f64_round 0" by (intro f64_round_mono) simp
  with False show ?thesis by simp
qed

lemma f64_round_nonneg [simp]: "0 \<le> x \<Longrightarrow> 0 \<le> f64_round x"
  using f64_round_mono [of 0 x] by simp

lemma f64_round_1 [simp]: "f64_round 1 = 1"
  by code_simp

lemma f64_round_2 [simp]: "f64_round 2 = 2"
  by code_simp

lemma f64_round_3 [simp]: "f64_round 3 = 3"
  by code_simp

subsection \<open>Quotients and sums of the utilisation score\<close>

lemma f64_of_int64_mono: "sint a \<le> sint b \<Longrightarrow> f64_of_int64 a \<le> f64_of_int64 b"
  by (simp add: f64_of_int64_def f64_round_mono del: of_int_sint)

lemma f64_of_int64_nonneg: "0 \<le> sint a \<Longrightarrow> 0 \<le> f64_of_int64 a"
  by (simp add: f64_of_int64_def del: of_int_sint)

lemma f64_of_int64_pos: "0 < sint a \<Longrightarrow> 0 < f64_of_int64 a"
  by (simp add: f64_of_int64_def del: of_int_sint)

lemma f64_add_mono: "x \<le> x' \<Longrightarrow> y \<le> y' \<Longrightarrow> f64_add x y \<le> f64_add x' y'"
  by (simp add: f64_add_def f64_round_mono add_mono)

lemma f64_div_mono: "x \<le> x' \<Longrightarrow> 0 < y \<Longrightarrow> f64_div x y \<le> f64_div x' y"
  by (simp add: f64_div_def f64_round_mono divide_right_mono)

lemma f64_div_nonneg: "0 \<le> x \<Longrightarrow> 0 < y \<Longrightarrow> 0 \<le> f64_div x y"
  by (simp add: f64_div_def)

lemma f64_div_le_1: "x \<le> y \<Longrightarrow> 0 < y \<Longrightarrow> f64_div x y \<le> 1"
  using f64_round_mono [of "x / y" 1] by (simp add: f64_div_def)

end
