(* ===== verification/Scheduler.thy ===== *)
theory Scheduler
  imports Model Sort_Slice Float64
begin

section \<open>The bin-packing scheduler (internal/scheduler)\<close>

text \<open>
  \<open>BinPacking.Schedule\<close> of \<open>scheduler.go\<close>: the per-node sums of the committed limits, the filter for
  online nodes with enough headroom, the utilisation score and the choice of the best candidate.
  All sums and differences are 64-bit and wrap; scores are binary64. The second half relates the
  code's wrapping sums to integer sums and proves the placement contract from them.
\<close>

record request =
  rq_CPULimit :: int64
  rq_MemoryLimit :: int64
  rq_DiskLimit :: int64

record sched_result =
  sr_Node :: "node option"
  sr_ScaleOutRequired :: bool

text \<open>The \<open>Scheduler\<close> interface: nodes, instances and a request to a result and an error.\<close>

type_synonym scheduler =
  "node list \<Rightarrow> inst list \<Rightarrow> request \<Rightarrow> sched_result \<times> go_error option"

subsection \<open>Step 1: the resources committed per node\<close>

record alloc =
  cpuAlloc :: "string \<Rightarrow> int64"
  memAlloc :: "string \<Rightarrow> int64"
  diskAlloc :: "string \<Rightarrow> int64"

definition no_alloc :: alloc where
  "no_alloc = \<lparr>cpuAlloc = (\<lambda>_. 0), memAlloc = (\<lambda>_. 0), diskAlloc = (\<lambda>_. 0)\<rparr>"

fun commit_instances :: "inst list \<Rightarrow> alloc \<Rightarrow> alloc" where
  "commit_instances [] a = a"
| "commit_instances (i # is) a =
     (if i_NodeID i = '''' then commit_instances is a
      else commit_instances is
        \<lparr>cpuAlloc = (cpuAlloc a)(i_NodeID i := cpuAlloc a (i_NodeID i) + i_CPULimit i),
         memAlloc = (memAlloc a)(i_NodeID i := memAlloc a (i_NodeID i) + i_MemoryLimit i),
         diskAlloc = (diskAlloc a)(i_NodeID i := diskAlloc a (i_NodeID i) + i_DiskLimit i)\<rparr>)"

subsection \<open>Steps 2 and 3: filter and score\<close>

record candidate =
  cand_node :: node
  cand_score :: rat

definition utilisation_score :: "alloc \<Rightarrow> node \<Rightarrow> rat" where
  "utilisation_score a n =
     (let cpuUtil = f64_div (f64_of_int64 (cpuAlloc a (n_ID n))) (f64_of_int64 (n_CPUCores n));
          memUtil = f64_div (f64_of_int64 (memAlloc a (n_ID n))) (f64_of_int64 (n_MemoryBytes n));
          diskUtil = f64_div (f64_of_int64 (diskAlloc a (n_ID n))) (f64_of_int64 (n_DiskBytes n))
      in f64_div (f64_add (f64_add cpuUtil memUtil) diskUtil) 3)"

fun eligible_nodes :: "alloc \<Rightarrow> request \<Rightarrow> node list \<Rightarrow> candidate list" where
  "eligible_nodes a req [] = []"
| "eligible_nodes a req (n # ns) =
     (if n_Status n \<noteq> NodeStatusOnline then eligible_nodes a req ns
      else if sint (n_CPUCores n) \<le> 0 \<or> sint (n_MemoryBytes n) \<le> 0 \<or> sint (n_DiskBytes n) \<le> 0
      then eligible_nodes a req ns
      else
        let cpuFree = n_CPUCores n - cpuAlloc a (n_ID n);
            memFree = n_MemoryBytes n - memAlloc a (n_ID n);
            diskFree = n_DiskBytes n - diskAlloc a (n_ID n)
        in if sint cpuFree < sint (rq_CPULimit req) \<or> sint memFree < sint (rq_MemoryLimit req) \<or>
              sint diskFree < sint (rq_DiskLimit req)
           then eligible_nodes a req ns
           else \<lparr>cand_node = n, cand_score = utilisation_score a n\<rparr> # eligible_nodes a req ns)"

definition candidate_less :: "candidate \<Rightarrow> candidate \<Rightarrow> bool" where
  "candidate_less x y =
     (if cand_score x \<noteq> cand_score y then cand_score x > cand_score y
      else n_ID (cand_node x) < n_ID (cand_node y))"

subsection \<open>The whole decision\<close>

definition BinPacking_Schedule :: scheduler where
  "BinPacking_Schedule nodes instances req =
     (let eligible = eligible_nodes (commit_instances instances no_alloc) req nodes
      in if eligible = []
         then (\<lparr>sr_Node = None, sr_ScaleOutRequired = True\<rparr>,
               Some (Sentinel (SchedulerErr ErrNoCapacity)))
         else (\<lparr>sr_Node = Some (cand_node (hd (sort_slice candidate_less eligible))),
                 sr_ScaleOutRequired = False\<rparr>, None))"

subsection \<open>Specification: integer sums over the three resources\<close>

datatype resource = CPU | Memory | Disk

fun limit_of :: "resource \<Rightarrow> inst \<Rightarrow> int64" where
  "limit_of CPU = i_CPULimit"
| "limit_of Memory = i_MemoryLimit"
| "limit_of Disk = i_DiskLimit"

fun capacity_of :: "resource \<Rightarrow> node \<Rightarrow> int64" where
  "capacity_of CPU = n_CPUCores"
| "capacity_of Memory = n_MemoryBytes"
| "capacity_of Disk = n_DiskBytes"

fun request_of :: "resource \<Rightarrow> request \<Rightarrow> int64" where
  "request_of CPU = rq_CPULimit"
| "request_of Memory = rq_MemoryLimit"
| "request_of Disk = rq_DiskLimit"

fun alloc_of :: "resource \<Rightarrow> alloc \<Rightarrow> string \<Rightarrow> int64" where
  "alloc_of CPU = cpuAlloc"
| "alloc_of Memory = memAlloc"
| "alloc_of Disk = diskAlloc"

text \<open>What the instances placed on a node ask for in total, as an unbounded integer.\<close>

definition committed :: "resource \<Rightarrow> string \<Rightarrow> inst list \<Rightarrow> int" where
  "committed r nid is =
     (\<Sum>i \<leftarrow> filter (\<lambda>i. i_NodeID i \<noteq> '''' \<and> i_NodeID i = nid) is. sint (limit_of r i))"

text \<open>No limit is negative and no sum of limits leaves the range of \<open>int64\<close>.\<close>

definition no_overflow :: "inst list \<Rightarrow> bool" where
  "no_overflow is \<longleftrightarrow>
     (\<forall>r. (\<forall>i \<in> set is. 0 \<le> sint (limit_of r i)) \<and> (\<Sum>i \<leftarrow> is. sint (limit_of r i)) < 2 ^ 63)"

definition within_capacity :: "node \<Rightarrow> inst list \<Rightarrow> bool" where
  "within_capacity n is \<longleftrightarrow> (\<forall>r. committed r (n_ID n) is \<le> sint (capacity_of r n))"

text \<open>A node the scheduler may choose: online, with capacity in every dimension, and with room
  for the request on top of what is committed.\<close>

definition can_host :: "node \<Rightarrow> inst list \<Rightarrow> request \<Rightarrow> bool" where
  "can_host n is req \<longleftrightarrow>
     n_Status n = NodeStatusOnline \<and>
     (\<forall>r. 0 < sint (capacity_of r n) \<and>
          committed r (n_ID n) is + sint (request_of r req) \<le> sint (capacity_of r n))"

lemma all_resource: "(\<forall>r. P r) \<longleftrightarrow> P CPU \<and> P Memory \<and> P Disk"
  by (metis resource.exhaust)

lemma committed_Nil [simp]: "committed r nid [] = 0"
  by (simp add: committed_def)

lemma committed_Cons:
  "committed r nid (i # is) =
     (if i_NodeID i \<noteq> '''' \<and> i_NodeID i = nid then sint (limit_of r i) else 0) + committed r nid is"
  by (simp add: committed_def)

lemma committed_append: "committed r nid (is @ js) = committed r nid is + committed r nid js"
  by (simp add: committed_def)

lemma committed_nonneg: "no_overflow is \<Longrightarrow> 0 \<le> committed r nid is"
  unfolding committed_def by (rule sum_list_nonneg) (auto simp: no_overflow_def)

lemma committed_le_total:
  "(\<forall>i \<in> set is. 0 \<le> sint (limit_of r i)) \<Longrightarrow> committed r nid is \<le> (\<Sum>i \<leftarrow> is. sint (limit_of r i))"
  by (induction "is") (auto simp: committed_Cons)

lemma committed_less: "no_overflow is \<Longrightarrow> committed r nid is < 2 ^ 63"
  using committed_le_total [of "is" r nid] unfolding no_overflow_def by (meson le_less_trans)

subsection \<open>The code's wrapping sums are the integer sums\<close>

lemma alloc_of_commit:
  "alloc_of r (commit_instances is a) nid = alloc_of r a nid + word_of_int (committed r nid is)"
proof (induction "is" arbitrary: a)
  case Nil
  then show ?case by simp
next
  case (Cons i "is")
  then show ?case by (cases r) (auto simp: committed_Cons algebra_simps)
qed

lemma sint_word_of_int_63:
  "- (2 ^ 63) \<le> k \<Longrightarrow> k < 2 ^ 63 \<Longrightarrow> sint (word_of_int k :: int64) = k"
  by (simp add: signed_of_int signed_take_bit_int_eq_self)

lemma alloc_of_no_alloc [simp]: "alloc_of r no_alloc nid = 0"
  by (cases r) (simp_all add: no_alloc_def)

lemma sint_alloc:
  assumes "no_overflow is"
  shows "sint (alloc_of r (commit_instances is no_alloc) nid) = committed r nid is"
proof -
  have "alloc_of r (commit_instances is no_alloc) nid = word_of_int (committed r nid is)"
    by (simp add: alloc_of_commit)
  with committed_nonneg [OF assms, of r nid] committed_less [OF assms, of r nid] show ?thesis
    by (simp add: sint_word_of_int_63)
qed

lemma sint_ge: "- (2 ^ 63) \<le> sint (x :: int64)"
  using sint_greater_eq [of x] by simp

lemma sint_lt: "sint (x :: int64) < 2 ^ 63"
  using sint_less [of x] by simp

lemma sint_diff_nonneg:
  assumes "0 \<le> sint (x :: int64)" and "0 \<le> sint (y :: int64)"
  shows "sint (x - y) = sint x - sint y"
proof -
  have "x - y = word_of_int (sint x - sint y)" by simp
  moreover have "- (2 ^ 63) \<le> sint x - sint y" "sint x - sint y < 2 ^ 63"
    using assms sint_lt [of x] sint_lt [of y] by simp_all
  ultimately show ?thesis using sint_word_of_int_63 by metis
qed

text \<open>The two tests of the eligibility loop, as one condition on a node.\<close>

definition passes_filter :: "alloc \<Rightarrow> request \<Rightarrow> node \<Rightarrow> bool" where
  "passes_filter a req n \<longleftrightarrow>
     n_Status n = NodeStatusOnline \<and>
     (\<forall>r. 0 < sint (capacity_of r n) \<and>
          sint (request_of r req) \<le> sint (capacity_of r n - alloc_of r a (n_ID n)))"

lemma eligible_nodes_filter:
  "eligible_nodes a req ns =
     map (\<lambda>n. \<lparr>cand_node = n, cand_score = utilisation_score a n\<rparr>) (filter (passes_filter a req) ns)"
  by (induction ns) (auto simp: passes_filter_def all_resource Let_def not_le not_less)

lemma passes_filter_can_host:
  assumes "no_overflow is"
  shows "passes_filter (commit_instances is no_alloc) req n \<longleftrightarrow> can_host n is req"
proof -
  have "sint (request_of r req) \<le>
          sint (capacity_of r n - alloc_of r (commit_instances is no_alloc) (n_ID n)) \<longleftrightarrow>
        committed r (n_ID n) is + sint (request_of r req) \<le> sint (capacity_of r n)"
    if "0 < sint (capacity_of r n)" for r
    using that committed_nonneg [OF assms, of r "n_ID n"]
    by (auto simp: sint_diff_nonneg sint_alloc [OF assms])
  then show ?thesis unfolding passes_filter_def can_host_def by blast
qed

subsection \<open>The comparison is a strict order, and the choice is the best candidate\<close>

interpretation cand: strict_weak_order candidate_less
proof unfold_locales
  fix x y z :: candidate
  show "candidate_less x y \<Longrightarrow> \<not> candidate_less y x"
    by (auto simp: candidate_less_def split: if_splits)
  show "\<not> candidate_less x y \<Longrightarrow> \<not> candidate_less y z \<Longrightarrow> \<not> candidate_less x z"
    by (auto simp: candidate_less_def not_less split: if_splits)
qed

text \<open>A node as the candidate the loop makes of it.\<close>

definition candidate_of :: "inst list \<Rightarrow> node \<Rightarrow> candidate" where
  "candidate_of is n =
     \<lparr>cand_node = n, cand_score = utilisation_score (commit_instances is no_alloc) n\<rparr>"

lemma cand_node_candidate_of [simp]: "cand_node (candidate_of is n) = n"
  by (simp add: candidate_of_def)

lemma eligible_nodes_can_host:
  "no_overflow is \<Longrightarrow>
     eligible_nodes (commit_instances is no_alloc) req ns =
     map (candidate_of is) (filter (\<lambda>n. can_host n is req) ns)"
  unfolding eligible_nodes_filter
  by (rule arg_cong2 [of _ _ _ _ map])
    (auto simp: candidate_of_def fun_eq_iff passes_filter_can_host intro: filter_cong)

lemma Schedule_cases:
  assumes "no_overflow is"
  obtains (none) "filter (\<lambda>n. can_host n is req) ns = []"
      and "BinPacking_Schedule ns is req =
             (\<lparr>sr_Node = None, sr_ScaleOutRequired = True\<rparr>,
              Some (Sentinel (SchedulerErr ErrNoCapacity)))"
    | (some) n where "n \<in> set ns" and "can_host n is req"
      and "\<And>m. m \<in> set ns \<Longrightarrow> can_host m is req \<Longrightarrow>
             \<not> candidate_less (candidate_of is m) (candidate_of is n)"
      and "BinPacking_Schedule ns is req =
             (\<lparr>sr_Node = Some n, sr_ScaleOutRequired = False\<rparr>, None)"
proof -
  define cs where "cs = map (candidate_of is) (filter (\<lambda>n. can_host n is req) ns)"
  have e: "eligible_nodes (commit_instances is no_alloc) req ns = cs"
    by (simp add: cs_def eligible_nodes_can_host [OF assms])
  show thesis
  proof (cases "cs = []")
    case True
    then show thesis
      by (intro none) (simp_all add: BinPacking_Schedule_def e, simp add: cs_def)
  next
    case False
    define c where "c = hd (sort_slice candidate_less cs)"
    have "c \<in> set cs"
      using False unfolding c_def by (metis hd_in_set set_sort_slice sort_slice_eq_Nil)
    then obtain n where n: "c = candidate_of is n" "n \<in> set ns" "can_host n is req"
      by (auto simp: cs_def)
    show thesis
    proof (rule some)
      fix m assume "m \<in> set ns" "can_host m is req"
      then have "candidate_of is m \<in> set cs" by (simp add: cs_def)
      from cand.hd_sort_slice_min [OF this]
      show "\<not> candidate_less (candidate_of is m) (candidate_of is n)" by (simp add: n c_def flip: n(1))
    qed (use n False in \<open>simp_all add: BinPacking_Schedule_def e flip: c_def\<close>)
  qed
qed

subsection \<open>Scores\<close>

lemma utilisation_score_mono:
  assumes "\<And>r. sint (alloc_of r a (n_ID n)) \<le> sint (alloc_of r b (n_ID n))"
    and "\<And>r. 0 < sint (capacity_of r n)"
  shows "utilisation_score a n \<le> utilisation_score b n"
  using assms(1) [of CPU] assms(1) [of Memory] assms(1) [of Disk]
    assms(2) [of CPU] assms(2) [of Memory] assms(2) [of Disk]
  unfolding utilisation_score_def Let_def
  by (intro f64_div_mono f64_add_mono f64_of_int64_mono f64_of_int64_pos) simp_all

lemma utilisation_score_bounds:
  assumes "\<And>r. 0 \<le> sint (alloc_of r a (n_ID n))"
    and "\<And>r. sint (alloc_of r a (n_ID n)) \<le> sint (capacity_of r n)"
    and "\<And>r. 0 < sint (capacity_of r n)"
  shows "0 \<le> utilisation_score a n" and "utilisation_score a n \<le> 1"
proof -
  define u where "u r = f64_div (f64_of_int64 (alloc_of r a (n_ID n)))
                          (f64_of_int64 (capacity_of r n))" for r
  have u: "0 \<le> u r" "u r \<le> 1" for r
    unfolding u_def using assms
    by (simp_all add: f64_div_nonneg f64_div_le_1 f64_of_int64_nonneg f64_of_int64_pos
        f64_of_int64_mono)
  have s: "utilisation_score a n = f64_div (f64_add (f64_add (u CPU) (u Memory)) (u Disk)) 3"
    by (simp add: utilisation_score_def u_def)
  have "0 \<le> f64_add (f64_add (u CPU) (u Memory)) (u Disk)"
    using u by (simp add: f64_add_def)
  then show "0 \<le> utilisation_score a n" by (simp add: s f64_div_nonneg)
  have "f64_add (u CPU) (u Memory) \<le> f64_add 1 1" using u by (intro f64_add_mono)
  then have "f64_add (f64_add (u CPU) (u Memory)) (u Disk) \<le> f64_add (f64_add 1 1) 1"
    using u by (intro f64_add_mono)
  then have "f64_add (f64_add (u CPU) (u Memory)) (u Disk) \<le> 3" by (simp add: f64_add_def)
  then show "utilisation_score a n \<le> 1" by (simp add: s f64_div_le_1)
qed

subsection \<open>Order independence\<close>

lemma committed_sum_mset:
  "committed r nid is =
     (\<Sum>i \<in># filter_mset (\<lambda>i. i_NodeID i \<noteq> '''' \<and> i_NodeID i = nid) (mset is). sint (limit_of r i))"
  by (simp only: committed_def sum_mset_sum_list [symmetric] mset_map mset_filter)

lemma committed_mset: "mset is = mset js \<Longrightarrow> committed r nid is = committed r nid js"
  by (simp only: committed_sum_mset)

lemma alloc_eqI: "(\<And>r nid. alloc_of r a nid = alloc_of r b nid) \<Longrightarrow> a = (b :: alloc)"
proof -
  assume *: "\<And>r nid. alloc_of r a nid = alloc_of r b nid"
  show "a = b"
    using * [of CPU] * [of Memory] * [of Disk] by (cases a; cases b) (simp add: fun_eq_iff)
qed

lemma commit_instances_mset:
  "mset is = mset js \<Longrightarrow> commit_instances is no_alloc = commit_instances js no_alloc"
  by (rule alloc_eqI) (simp only: alloc_of_commit committed_mset [of "is" js])

lemma eligible_nodes_mset:
  "mset ns = mset ms \<Longrightarrow> mset (eligible_nodes a req ns) = mset (eligible_nodes a req ms)"
  by (simp only: eligible_nodes_filter mset_map mset_filter)

lemma distinct_ids_inj: "distinct (map n_ID ns) \<Longrightarrow> inj_on n_ID (set ns)"
  by (simp add: distinct_map)

lemma candidate_less_total:
  assumes "distinct (map n_ID ns)"
    and "x \<in> set (eligible_nodes a req ns)" and "y \<in> set (eligible_nodes a req ns)" and "x \<noteq> y"
  shows "candidate_less x y \<or> candidate_less y x"
proof -
  have "cand_node x \<in> set ns" "cand_node y \<in> set ns"
    and sc: "cand_score x = utilisation_score a (cand_node x)"
      "cand_score y = utilisation_score a (cand_node y)"
    using assms by (auto simp: eligible_nodes_filter)
  moreover have "cand_node x \<noteq> cand_node y"
  proof
    assume "cand_node x = cand_node y"
    with sc have "x = y" by (intro candidate.equality) simp_all
    with assms(4) show False by simp
  qed
  ultimately have "n_ID (cand_node x) \<noteq> n_ID (cand_node y)"
    using distinct_ids_inj [OF assms(1)] by (meson inj_onD)
  then show ?thesis unfolding candidate_less_def by (cases "n_ID (cand_node x)" "n_ID (cand_node y)" rule: linorder_cases) (auto simp: not_less)
qed

lemma Schedule_mset:
  assumes "mset ns = mset ms" and "mset is = mset js" and "distinct (map n_ID ns)"
  shows "BinPacking_Schedule ns is req = BinPacking_Schedule ms js req"
proof -
  define a where "a = commit_instances is no_alloc"
  define xs ys where "xs = eligible_nodes a req ns" and "ys = eligible_nodes a req ms"
  have a: "commit_instances js no_alloc = a"
    using commit_instances_mset [OF assms(2)] by (simp add: a_def)
  have xy: "mset xs = mset ys" unfolding xs_def ys_def by (rule eligible_nodes_mset [OF assms(1)])
  then have set_xy: "set xs = set ys" by (rule mset_eq_setD)
  have hd: "hd (sort_slice candidate_less xs) = hd (sort_slice candidate_less ys)" if "ys \<noteq> []"
  proof (rule cand.hd_sort_slice_unique)
    show "candidate_less x y \<or> candidate_less y x" if "x \<in> set xs" "y \<in> set xs" "x \<noteq> y" for x y
      using candidate_less_total [OF assms(3)] that by (simp add: xs_def)
    have "hd (sort_slice candidate_less ys) \<in> set ys"
      using that by (metis hd_in_set set_sort_slice sort_slice_eq_Nil)
    with set_xy show "hd (sort_slice candidate_less ys) \<in> set xs" by simp
    show "\<not> candidate_less y (hd (sort_slice candidate_less ys))" if "y \<in> set xs" for y
      using that set_xy by (intro cand.hd_sort_slice_min) simp
  qed
  have "xs = [] \<longleftrightarrow> ys = []" using xy by (metis mset_zero_iff)
  with hd show ?thesis
    by (auto simp: BinPacking_Schedule_def a a_def [symmetric] xs_def [symmetric] ys_def [symmetric])
qed

section \<open>Properties of the scheduler\<close>

text \<open>Three nodes and three instances on which the properties are evaluated: \<open>n1\<close> holds \<open>web\<close>,
  \<open>n2\<close> and \<open>n3\<close> are empty, and \<open>n3\<close> is draining.\<close>

definition ex_node :: "string \<Rightarrow> string \<Rightarrow> node" where
  "ex_node nid st = zero_node\<lparr>n_ID := nid, n_ClusterID := ''c'', n_Name := nid,
     n_LXDMemberName := nid, n_CPUCores := 8, n_MemoryBytes := 64, n_DiskBytes := 100,
     n_Status := st\<rparr>"

definition ex_inst :: "string \<Rightarrow> string \<Rightarrow> inst" where
  "ex_inst iid nid = zero_inst\<lparr>i_ID := iid, i_ClusterID := ''c'', i_Name := iid, i_NodeID := nid,
     i_Status := ''running'', i_CPULimit := 2, i_MemoryLimit := 16, i_DiskLimit := 10\<rparr>"

definition ex_nodes :: "node list" where
  "ex_nodes = [ex_node ''n2'' ''online'', ex_node ''n1'' ''online'', ex_node ''n3'' ''draining'']"

definition ex_insts :: "inst list" where
  "ex_insts = [ex_inst ''web'' ''n1'', ex_inst ''db'' '''']"

definition ex_request :: request where
  "ex_request = \<lparr>rq_CPULimit = 2, rq_MemoryLimit = 16, rq_DiskLimit = 10\<rparr>"

lemmas ex_sched_defs =
  ex_node_def ex_inst_def ex_nodes_def ex_insts_def ex_request_def zero_node_def zero_inst_def
  node_status_defs

lemma ex_no_overflow: "no_overflow ex_insts"
  by (simp add: no_overflow_def all_resource ex_sched_defs)

lemma ex_schedule:
  "BinPacking_Schedule ex_nodes ex_insts ex_request =
     (\<lparr>sr_Node = Some (ex_node ''n1'' ''online''), sr_ScaleOutRequired = False\<rparr>, None)"
  by code_simp

lemma ex_schedule_full:
  "BinPacking_Schedule [ex_node ''n3'' ''draining''] ex_insts ex_request =
     (\<lparr>sr_Node = None, sr_ScaleOutRequired = True\<rparr>,
      Some (Sentinel (SchedulerErr ErrNoCapacity)))"
  by code_simp

text \<open>C17. A placement is sound: when \<open>Schedule\<close> returns a nil error it names a node of the given
  list that is online, has capacity in all three dimensions, and on which the integer sum of the
  committed limits plus the request still fits, although the code computes with wrapping 64-bit
  sums.\<close>

theorem schedule_placement_sound:
  assumes "no_overflow is"
    and "BinPacking_Schedule ns is req = (res, None)"
  shows "\<exists>n \<in> set ns. sr_Node res = Some n \<and> \<not> sr_ScaleOutRequired res \<and>
           n_Status n = NodeStatusOnline \<and>
           (\<forall>r. 0 < sint (capacity_of r n) \<and>
                committed r (n_ID n) is + sint (request_of r req) \<le> sint (capacity_of r n))"
proof (cases rule: Schedule_cases [OF assms(1), of req ns, case_names none some])
  case none
  with assms(2) show ?thesis by simp
next
  case (some n)
  with assms(2) show ?thesis by (auto simp: can_host_def)
qed

theorem schedule_placement_sound_witness:
  "\<exists>n \<in> set ex_nodes. Some (ex_node ''n1'' ''online'') = Some n \<and>
     (\<forall>r. committed r (n_ID n) ex_insts + sint (request_of r ex_request) \<le> sint (capacity_of r n))"
  using schedule_placement_sound [OF ex_no_overflow ex_schedule] by auto

text \<open>C18. Scale-out is requested exactly when it is needed: \<open>Schedule\<close> returns \<open>ErrNoCapacity\<close>, with
  \<open>ScaleOutRequired\<close> set and no node, if and only if no node of the list is online with enough
  integer headroom for the request.\<close>

theorem schedule_no_capacity_iff:
  assumes "no_overflow is"
  shows "BinPacking_Schedule ns is req =
           (\<lparr>sr_Node = None, sr_ScaleOutRequired = True\<rparr>,
            Some (Sentinel (SchedulerErr ErrNoCapacity))) \<longleftrightarrow>
         (\<forall>n \<in> set ns. \<not> can_host n is req)"
  using Schedule_cases [OF assms, of req ns] by cases (auto simp: filter_empty_conv)

theorem schedule_no_capacity_iff_witness:
  "\<not> can_host (ex_node ''n3'' ''draining'') ex_insts ex_request"
  using schedule_no_capacity_iff [OF ex_no_overflow, of "[ex_node ''n3'' ''draining'']" ex_request]
    ex_schedule_full by simp

text \<open>C19. Best fit: the chosen node has the highest utilisation score among all nodes that can host
  the request, and among those with the same score the lexicographically smallest ID.\<close>

theorem schedule_best_fit:
  assumes "no_overflow is"
    and "BinPacking_Schedule ns is req = (res, None)"
    and "sr_Node res = Some n" and "m \<in> set ns" and "can_host m is req"
  shows "cand_score (candidate_of is m) \<le> cand_score (candidate_of is n) \<and>
         (cand_score (candidate_of is m) = cand_score (candidate_of is n) \<longrightarrow> n_ID n \<le> n_ID m)"
proof (cases rule: Schedule_cases [OF assms(1), of req ns, case_names none some])
  case none
  with assms(2) show ?thesis by simp
next
  case (some n')
  with assms have "\<not> candidate_less (candidate_of is m) (candidate_of is n)" by auto
  then show ?thesis by (auto simp: candidate_less_def not_less split: if_splits)
qed

theorem schedule_best_fit_witness:
  "cand_score (candidate_of ex_insts (ex_node ''n2'' ''online'')) \<le>
   cand_score (candidate_of ex_insts (ex_node ''n1'' ''online''))"
proof -
  have "ex_node ''n2'' ''online'' \<in> set ex_nodes" by (simp add: ex_nodes_def)
  moreover have "can_host (ex_node ''n2'' ''online'') ex_insts ex_request"
    by (simp add: can_host_def all_resource committed_def ex_sched_defs)
  ultimately show ?thesis
    using schedule_best_fit [OF ex_no_overflow ex_schedule, of "ex_node ''n1'' ''online''"] by simp
qed

text \<open>The decision is deterministic: it depends on the nodes (with distinct IDs) and on the
  instances as collections only, so the order in which the repositories list them, and the
  algorithm behind \<open>sort.Slice\<close>, do not matter.\<close>

theorem schedule_deterministic:
  assumes "mset ns = mset ms" and "mset is = mset js" and "distinct (map n_ID ns)"
  shows "BinPacking_Schedule ns is req = BinPacking_Schedule ms js req"
  using assms by (rule Schedule_mset)

theorem schedule_deterministic_witness:
  "BinPacking_Schedule (rev ex_nodes) (rev ex_insts) ex_request =
     (\<lparr>sr_Node = Some (ex_node ''n1'' ''online''), sr_ScaleOutRequired = False\<rparr>, None)"
proof -
  have "distinct (map n_ID (rev ex_nodes))" by (simp add: ex_nodes_def ex_node_def)
  then have "BinPacking_Schedule (rev ex_nodes) (rev ex_insts) ex_request =
             BinPacking_Schedule ex_nodes ex_insts ex_request"
    by (intro schedule_deterministic) simp_all
  then show ?thesis by (simp add: ex_schedule)
qed

text \<open>C30. The binary64 score of a node whose commitments fit its capacity lies between 0 and 1,
  rounding errors included.\<close>

theorem score_unit_interval:
  assumes "no_overflow is" and "within_capacity n is" and "\<forall>r. 0 < sint (capacity_of r n)"
  shows "0 \<le> utilisation_score (commit_instances is no_alloc) n \<and>
         utilisation_score (commit_instances is no_alloc) n \<le> 1"
  using assms utilisation_score_bounds [of "commit_instances is no_alloc" n]
  by (simp add: sint_alloc committed_nonneg within_capacity_def)

theorem score_unit_interval_witness:
  "0 \<le> utilisation_score (commit_instances ex_insts no_alloc) (ex_node ''n1'' ''online'') \<and>
   utilisation_score (commit_instances ex_insts no_alloc) (ex_node ''n1'' ''online'') \<le> 1"
  by (rule score_unit_interval [OF ex_no_overflow])
    (simp_all add: within_capacity_def all_resource committed_def ex_sched_defs)

text \<open>Packing more onto a node never lowers its score: with further instances committed anywhere,
  the binary64 score is at least what it was, so the strategy keeps preferring fuller nodes.\<close>

theorem score_monotone:
  assumes "no_overflow (is @ js)" and "\<forall>r. 0 < sint (capacity_of r n)"
  shows "utilisation_score (commit_instances is no_alloc) n \<le>
         utilisation_score (commit_instances (is @ js) no_alloc) n"
proof -
  have sum: "(\<Sum>i \<leftarrow> xs. sint (limit_of r i)) \<ge> 0" if "set xs \<subseteq> set (is @ js)" for r xs
    using assms(1) that by (intro sum_list_nonneg) (auto simp: no_overflow_def)
  have "no_overflow is" "no_overflow js"
    using assms(1) sum [of "is"] sum [of js] by (auto simp: no_overflow_def) (smt (verit))+
  then show ?thesis
    using assms by (intro utilisation_score_mono)
      (simp_all add: sint_alloc committed_append committed_nonneg)
qed

theorem score_monotone_witness:
  "utilisation_score (commit_instances [] no_alloc) (ex_node ''n1'' ''online'') \<le>
   utilisation_score (commit_instances ([] @ ex_insts) no_alloc) (ex_node ''n1'' ''online'')"
  by (rule score_monotone) (simp add: ex_no_overflow, simp add: all_resource ex_sched_defs)

end
