(* ===== verification/Go_Strconv.thy ===== *)
theory Go_Strconv
  imports Prelude
begin

section \<open>Decimal text of 64-bit integers (strconv.FormatInt and ParseInt, base 10)\<close>

text \<open>Formatting and parsing in base 10, with the errors of a malformed or out-of-range text, and their round trip.\<close>

definition digit_char :: "nat \<Rightarrow> char" where
  "digit_char d = ''0123456789'' ! d"

fun nat_digits :: "nat \<Rightarrow> string" where
  "nat_digits n = (if n < 10 then [digit_char n] else nat_digits (n div 10) @ [digit_char (n mod 10)])"

declare nat_digits.simps [simp del]

definition FormatInt :: "int64 \<Rightarrow> string" where
  "FormatInt x = (if sint x < 0 then ''-'' @ nat_digits (nat (- sint x)) else nat_digits (nat (sint x)))"

text \<open>The value of a digit, and of a string of digits; \<open>None\<close> for any other character.\<close>

definition char_digit :: "char \<Rightarrow> nat option" where
  "char_digit c = (let k = of_char c :: nat in if 48 \<le> k \<and> k \<le> 57 then Some (k - 48) else None)"

fun digits_value :: "string \<Rightarrow> nat \<Rightarrow> nat option" where
  "digits_value [] acc = Some acc"
| "digits_value (c # cs) acc =
     (case char_digit c of None \<Rightarrow> None | Some d \<Rightarrow> digits_value cs (10 * acc + d))"

text \<open>\<open>ParseInt(s, 10, 64)\<close>: an optional sign, at least one digit, and a value in range. The
  error does not keep which of these failed.\<close>

definition ParseInt :: "string \<Rightarrow> int64 res" where
  "ParseInt s =
     (let neg = (s \<noteq> '''' \<and> hd s = CHR ''-'');
          ds = (if s \<noteq> '''' \<and> (hd s = CHR ''-'' \<or> hd s = CHR ''+'') then tl s else s)
      in if ds = '''' then Inl (Errorf ''strconv.ParseInt: parsing %q'' [s])
         else case digits_value ds 0 of
                None \<Rightarrow> Inl (Errorf ''strconv.ParseInt: parsing %q'' [s])
              | Some v \<Rightarrow>
                  if (if neg then v \<le> 2 ^ 63 else v < 2 ^ 63)
                  then Inr (if neg then - word_of_int (int v) else word_of_int (int v))
                  else Inl (Errorf ''strconv.ParseInt: parsing %q'' [s]))"

lemma char_digit_of: "d < 10 \<Longrightarrow> char_digit (digit_char d) = Some d"
proof -
  assume "d < 10"
  then have "d \<in> set [0..<10]" by simp
  then show ?thesis
    by (auto simp: upt_rec digit_char_def char_digit_def Let_def)
qed

lemma digits_value_append:
  "digits_value (xs @ ys) acc = Option.bind (digits_value xs acc) (digits_value ys)"
  by (induction xs acc rule: digits_value.induct) (auto split: option.split)

lemma digits_value_nat: "digits_value (nat_digits n) 0 = Some n"
proof (induction n rule: nat_digits.induct)
  case (1 n)
  then show ?case
    by (subst nat_digits.simps) (simp add: char_digit_of digits_value_append)
qed

lemma hd_nat_digits: "\<exists>d cs. d < 10 \<and> nat_digits n = digit_char d # cs"
proof (induction n rule: nat_digits.induct)
  case (1 n)
  show ?case
  proof (cases "n < 10")
    case True
    then show ?thesis by (subst nat_digits.simps) auto
  next
    case False
    with 1 obtain d cs where "d < 10" "nat_digits (n div 10) = digit_char d # cs" by blast
    with False show ?thesis by (subst nat_digits.simps) auto
  qed
qed

lemma digit_char_sign: "d < 10 \<Longrightarrow> digit_char d \<noteq> CHR ''-'' \<and> digit_char d \<noteq> CHR ''+''"
proof -
  assume "d < 10"
  then have "d \<in> set [0..<10]" by simp
  then show ?thesis by (auto simp: upt_rec digit_char_def)
qed

lemma ParseInt_digits:
  "ParseInt (nat_digits n) = (if n < 2 ^ 63 then Inr (word_of_int (int n))
     else Inl (Errorf ''strconv.ParseInt: parsing %q'' [nat_digits n]))"
proof -
  obtain d cs where "d < 10" "nat_digits n = digit_char d # cs" using hd_nat_digits by blast
  with digit_char_sign [of d] digits_value_nat [of n] show ?thesis
    by (simp add: ParseInt_def Let_def)
qed

lemma ParseInt_minus_digits:
  "n \<le> 2 ^ 63 \<Longrightarrow> ParseInt (''-'' @ nat_digits n) = Inr (- word_of_int (int n))"
proof -
  obtain d cs where "nat_digits n = digit_char d # cs" using hd_nat_digits by blast
  then show "n \<le> 2 ^ 63 \<Longrightarrow> ParseInt (''-'' @ nat_digits n) = Inr (- word_of_int (int n))"
    using digits_value_nat [of n] by (simp add: ParseInt_def Let_def)
qed

text \<open>Parsing what \<open>FormatInt\<close> prints gives the number back, for every 64-bit integer, negative ones and the
  smallest included.\<close>

theorem ParseInt_FormatInt: "ParseInt (FormatInt x) = Inr x"
proof (cases "sint x < 0")
  case True
  have "- (2 ^ 63) \<le> sint x" using sint_greater_eq [of x] by simp
  with True have "nat (- sint x) \<le> 2 ^ 63" by (simp add: nat_le_iff)
  from ParseInt_minus_digits [OF this] True show ?thesis by (simp add: FormatInt_def)
next
  case False
  have "sint x < 2 ^ 63" using sint_less [of x] by simp
  with False have "nat (sint x) < 2 ^ 63" by (simp add: nat_less_iff)
  with False ParseInt_digits [of "nat (sint x)"] show ?thesis by (simp add: FormatInt_def)
qed

text \<open>\<open>ParseUint(s, 10, 64)\<close>: no sign.\<close>

definition ParseUint :: "string \<Rightarrow> 64 word res" where
  "ParseUint s =
     (if s = '''' then Inl (Errorf ''strconv.ParseUint: parsing %q'' [s])
      else case digits_value s 0 of
             None \<Rightarrow> Inl (Errorf ''strconv.ParseUint: parsing %q'' [s])
           | Some v \<Rightarrow>
               if v < 2 ^ 64 then Inr (word_of_nat v)
               else Inl (Errorf ''strconv.ParseUint: parsing %q'' [s]))"

lemma ParseUint_nat_digits: "n < 2 ^ 64 \<Longrightarrow> ParseUint (nat_digits n) = Inr (word_of_nat n)"
proof -
  obtain d cs where "nat_digits n = digit_char d # cs" using hd_nat_digits by blast
  then show "n < 2 ^ 64 \<Longrightarrow> ParseUint (nat_digits n) = Inr (word_of_nat n)"
    using digits_value_nat [of n] by (simp add: ParseUint_def)
qed

lemma ParseUint_digits: "ParseUint (nat_digits (unat x)) = Inr (x :: 64 word)"
  using ParseUint_nat_digits [of "unat x"] unsigned_less [where ?'a = nat and w = x] by simp

end
