(* ===== verification/Provider.thy ===== *)
theory Provider
  imports Model Go_Strconv
begin

section \<open>The hyperscaler boundary (internal/provider) and Hetzner Cloud (internal/provider/hetzner)\<close>

text \<open>
  \<open>HyperscalerProvider\<close> as a record of methods, and the Hetzner implementation of it. The client library
  \<open>hcloud-go\<close> is not part of the repository: the calls that the code makes to it are the record
  \<open>hcloud\<close>, an argument of the model.
\<close>

record ServerSpec =
  ss_Name :: string
  ss_ServerType :: string
  ss_Region :: string
  ss_Image :: string
  ss_ClusterID :: string

record ServerInfo =
  si_ID :: string
  si_Name :: string
  si_Status :: string
  si_PublicIPv4 :: string

record 'w hyperscaler_provider =
  ProvisionServer :: "ServerSpec \<Rightarrow> 'w \<Rightarrow> string res \<times> 'w"
  DeprovisionServer :: "string \<Rightarrow> 'w \<Rightarrow> go_error option \<times> 'w"
  GetServer :: "string \<Rightarrow> 'w \<Rightarrow> ServerInfo res \<times> 'w"
  ListServers :: "'w \<Rightarrow> ServerInfo list res \<times> 'w"

section \<open>The Hetzner provider\<close>

text \<open>The parts of \<open>hcloud.Server\<close> and \<open>hcloud.ServerCreateOpts\<close> that the code reads and writes.\<close>

record hcloud_server =
  hs_ID :: int64
  hs_Name :: string
  hs_Status :: string
  hs_IPv4 :: "string option"

record hcloud_create_opts =
  ho_Name :: string
  ho_ServerType :: string
  ho_Image :: string
  ho_Location :: string
  ho_Labels :: "(string \<times> string) list"

record 'w hcloud =
  hc_GetByName :: "string \<Rightarrow> 'w \<Rightarrow> hcloud_server option res \<times> 'w"
  hc_GetByID :: "int64 \<Rightarrow> 'w \<Rightarrow> hcloud_server option res \<times> 'w"
  hc_Create :: "hcloud_create_opts \<Rightarrow> 'w \<Rightarrow> hcloud_server res \<times> 'w"
  hc_DeleteWithResult :: "hcloud_server \<Rightarrow> 'w \<Rightarrow> go_error option \<times> 'w"
  hc_All :: "'w \<Rightarrow> hcloud_server list res \<times> 'w"

definition validateSpec :: "ServerSpec \<Rightarrow> go_error option" where
  "validateSpec spec = errors_join
     ((if ss_Name spec = '''' then [Errors_New ''name is required''] else []) @
      (if ss_ServerType spec = '''' then [Errors_New ''serverType is required''] else []) @
      (if ss_Region spec = '''' then [Errors_New ''region is required''] else []) @
      (if ss_Image spec = '''' then [Errors_New ''image is required''] else []) @
      (if ss_ClusterID spec = '''' then [Errors_New ''clusterID is required''] else []))"

definition create_opts :: "ServerSpec \<Rightarrow> hcloud_create_opts" where
  "create_opts spec = \<lparr>ho_Name = ss_Name spec, ho_ServerType = ss_ServerType spec, ho_Image = ss_Image spec,
     ho_Location = ss_Region spec,
     ho_Labels = [(''managed-by'', ''lx-container-weaver''), (''cluster-id'', ss_ClusterID spec)]\<rparr>"

definition Provider_ProvisionServer :: "'w hcloud \<Rightarrow> ServerSpec \<Rightarrow> 'w \<Rightarrow> string res \<times> 'w" where
  "Provider_ProvisionServer h spec w =
     (case validateSpec spec of
        Some err \<Rightarrow> (Inl (Wrapf ''%w: %s'' [] (Sentinel (ProviderErr ErrInvalidSpec))), w)
      | None \<Rightarrow>
          (case hc_GetByName h (ss_Name spec) w of
             (Inl err, w1) \<Rightarrow>
               (Inl (Wrapf ''hetzner: provision cluster %q: check existing server: %w'' [ss_ClusterID spec] err), w1)
           | (Inr (Some existing), w1) \<Rightarrow> (Inr (FormatInt (hs_ID existing)), w1)
           | (Inr None, w1) \<Rightarrow>
               (case hc_Create h (create_opts spec) w1 of
                  (Inl err, w2) \<Rightarrow>
                    (Inl (Wrapf ''hetzner: provision cluster %q: create server: %w'' [ss_ClusterID spec] err), w2)
                | (Inr server, w2) \<Rightarrow> (Inr (FormatInt (hs_ID server)), w2))))"

definition Provider_DeprovisionServer :: "'w hcloud \<Rightarrow> string \<Rightarrow> 'w \<Rightarrow> go_error option \<times> 'w" where
  "Provider_DeprovisionServer h serverID w =
     (case ParseInt serverID of
        Inl err \<Rightarrow> (Some (Wrapf ''hetzner: deprovision server %q: invalid server ID format: %w'' [serverID] err), w)
      | Inr sid \<Rightarrow>
          (case hc_GetByID h sid w of
             (Inl err, w1) \<Rightarrow> (Some (Wrapf ''hetzner: deprovision server %q: %w'' [serverID] err), w1)
           | (Inr None, w1) \<Rightarrow>
               (Some (Wrapf ''hetzner: deprovision server %q: %w'' [serverID]
                        (Sentinel (ProviderErr ErrServerNotFound))), w1)
           | (Inr (Some server), w1) \<Rightarrow>
               (case hc_DeleteWithResult h server w1 of
                  (Some err, w2) \<Rightarrow> (Some (Wrapf ''hetzner: deprovision server %q: %w'' [serverID] err), w2)
                | (None, w2) \<Rightarrow> (None, w2))))"

definition serverToInfo :: "hcloud_server \<Rightarrow> ServerInfo" where
  "serverToInfo s = \<lparr>si_ID = FormatInt (hs_ID s), si_Name = hs_Name s, si_Status = hs_Status s,
     si_PublicIPv4 = (case hs_IPv4 s of None \<Rightarrow> '''' | Some ip \<Rightarrow> ip)\<rparr>"

definition Provider_GetServer :: "'w hcloud \<Rightarrow> string \<Rightarrow> 'w \<Rightarrow> ServerInfo res \<times> 'w" where
  "Provider_GetServer h serverID w =
     (case ParseInt serverID of
        Inl err \<Rightarrow> (Inl (Wrapf ''hetzner: get server %q: invalid server ID format: %w'' [serverID] err), w)
      | Inr sid \<Rightarrow>
          (case hc_GetByID h sid w of
             (Inl err, w1) \<Rightarrow> (Inl (Wrapf ''hetzner: get server %q: %w'' [serverID] err), w1)
           | (Inr None, w1) \<Rightarrow>
               (Inl (Wrapf ''hetzner: get server %q: %w'' [serverID]
                       (Sentinel (ProviderErr ErrServerNotFound))), w1)
           | (Inr (Some server), w1) \<Rightarrow> (Inr (serverToInfo server), w1)))"

definition Provider_ListServers :: "'w hcloud \<Rightarrow> 'w \<Rightarrow> ServerInfo list res \<times> 'w" where
  "Provider_ListServers h w =
     (case hc_All h w of
        (Inl err, w1) \<Rightarrow> (Inl (Wrapf ''hetzner: list servers: %w'' [] err), w1)
      | (Inr servers, w1) \<Rightarrow> (Inr (map serverToInfo servers), w1))"

text \<open>\<open>hetzner.New\<close>: a provider on the client that the library makes for a token.\<close>

definition hetzner_New :: "(string \<Rightarrow> 'w hcloud) \<Rightarrow> string \<Rightarrow> 'w hyperscaler_provider res" where
  "hetzner_New NewClient apiToken =
     (if apiToken = '''' then Inl (Errors_New ''hetzner: api token must not be empty'')
      else (let h = NewClient apiToken in
        Inr \<lparr>ProvisionServer = Provider_ProvisionServer h, DeprovisionServer = Provider_DeprovisionServer h,
             GetServer = Provider_GetServer h, ListServers = Provider_ListServers h\<rparr>))"

section \<open>Properties\<close>

text \<open>
  What the cloud API documents: \<open>servers\<close> is the set of servers by ID; names are unique; the look-ups
  read it, \<open>Create\<close> adds one server under a new ID with the name asked for, \<open>Delete\<close> removes one. Nothing is
  assumed about calls that fail.
\<close>

definition hcloud_ok :: "'w hcloud \<Rightarrow> ('w \<Rightarrow> int64 \<Rightarrow> hcloud_server option) \<Rightarrow> bool" where
  "hcloud_ok h servers \<longleftrightarrow>
     (\<forall>w k s. servers w k = Some s \<longrightarrow> hs_ID s = k) \<and>
     (\<forall>w k k' s s'. servers w k = Some s \<longrightarrow> servers w k' = Some s' \<longrightarrow> hs_Name s = hs_Name s' \<longrightarrow> s = s') \<and>
     (\<forall>w n r w'. hc_GetByName h n w = (Inr r, w') \<longrightarrow> servers w' = servers w \<and>
        (case r of None \<Rightarrow> \<forall>s \<in> ran (servers w). hs_Name s \<noteq> n
         | Some s \<Rightarrow> s \<in> ran (servers w) \<and> hs_Name s = n)) \<and>
     (\<forall>w k r w'. hc_GetByID h k w = (Inr r, w') \<longrightarrow> servers w' = servers w \<and> r = servers w k) \<and>
     (\<forall>w opts s w'. hc_Create h opts w = (Inr s, w') \<longrightarrow> servers w (hs_ID s) = None \<and>
        servers w' = (servers w)(hs_ID s \<mapsto> s) \<and> hs_Name s = ho_Name opts) \<and>
     (\<forall>w s w'. hc_DeleteWithResult h s w = (None, w') \<longrightarrow> servers w' = (servers w)(hs_ID s := None))"

lemma hcloud_okD:
  assumes "hcloud_ok h servers"
  shows "servers w k = Some s \<Longrightarrow> hs_ID s = k"
    and "servers w k = Some s \<Longrightarrow> servers w k' = Some s' \<Longrightarrow> hs_Name s = hs_Name s' \<Longrightarrow> s = s'"
    and "hc_GetByName h n w = (Inr None, w') \<Longrightarrow> servers w' = servers w \<and> (\<forall>s \<in> ran (servers w). hs_Name s \<noteq> n)"
    and "hc_GetByName h n w = (Inr (Some s), w') \<Longrightarrow> servers w' = servers w \<and> s \<in> ran (servers w) \<and> hs_Name s = n"
    and "hc_GetByID h k w = (Inr r, w') \<Longrightarrow> servers w' = servers w \<and> r = servers w k"
    and "hc_Create h opts w = (Inr s, w') \<Longrightarrow> servers w (hs_ID s) = None \<and>
        servers w' = (servers w)(hs_ID s \<mapsto> s) \<and> hs_Name s = ho_Name opts"
    and "hc_DeleteWithResult h s w = (None, w') \<Longrightarrow> servers w' = (servers w)(hs_ID s := None)"
  using assms unfolding hcloud_ok_def by (blast | fastforce)+

text \<open>What a successful \<open>ProvisionServer\<close> leaves: exactly one server of the name, whose ID is the result;
  all other servers untouched.\<close>

lemma ProvisionServer_ok:
  assumes "hcloud_ok h servers" and "Provider_ProvisionServer h spec w = (Inr sid, w')"
  shows "\<exists>s. sid = FormatInt (hs_ID s) \<and> hs_Name s = ss_Name spec \<and> servers w' (hs_ID s) = Some s \<and>
     servers w' = (if \<exists>t \<in> ran (servers w). hs_Name t = ss_Name spec then servers w
                   else (servers w)(hs_ID s \<mapsto> s)) \<and> validateSpec spec = None"
proof -
  note ok = hcloud_okD [OF assms(1)]
  obtain r w1 where g: "hc_GetByName h (ss_Name spec) w = (r, w1)" by fastforce
  show ?thesis
  proof (cases "validateSpec spec")
    case None
    show ?thesis
    proof (cases r)
      case (Inl e)
      with None g assms(2) show ?thesis by (simp add: Provider_ProvisionServer_def)
    next
      case (Inr found)
      show ?thesis
      proof (cases found)
        case (Some s)
        with Inr None g assms(2) have "sid = FormatInt (hs_ID s)" "w' = w1"
          by (simp_all add: Provider_ProvisionServer_def)
        moreover from g Inr Some ok(4) have "servers w1 = servers w" "s \<in> ran (servers w)" "hs_Name s = ss_Name spec"
          by blast+
        moreover from this(2) have "servers w (hs_ID s) = Some s" using ok(1) by (auto simp: ran_def)
        ultimately show ?thesis using None by auto
      next
        case None': None
        obtain c w2 where c: "hc_Create h (create_opts spec) w1 = (c, w2)" by fastforce
        with Inr None None' g assms(2) obtain s where s: "c = Inr s" "sid = FormatInt (hs_ID s)" "w' = w2"
          by (auto simp: Provider_ProvisionServer_def split: sum.splits)
        from g Inr None' ok(3) have "servers w1 = servers w" "\<forall>t \<in> ran (servers w). hs_Name t \<noteq> ss_Name spec"
          by blast+
        with c s ok(6) [of "create_opts spec" w1 s w2] None show ?thesis by (auto simp: create_opts_def)
      qed
    qed
  next
    case (Some e)
    with assms(2) show ?thesis by (simp add: Provider_ProvisionServer_def)
  qed
qed


lemma GetServer_ok:
  assumes "ParseInt sid = Inr k" and "Provider_GetServer h sid w = (Inr info, w')"
  shows "\<exists>s. hc_GetByID h k w = (Inr (Some s), w') \<and> info = serverToInfo s"
proof -
  obtain r w1 where g: "hc_GetByID h k w = (r, w1)" by fastforce
  with assms show ?thesis by (auto simp: Provider_GetServer_def split: sum.splits option.splits)
qed

lemma DeprovisionServer_ok:
  assumes "ParseInt sid = Inr k" and "Provider_DeprovisionServer h sid w = (None, w')"
  shows "\<exists>s w1. hc_GetByID h k w = (Inr (Some s), w1) \<and> hc_DeleteWithResult h s w1 = (None, w')"
proof -
  obtain r w1 where g: "hc_GetByID h k w = (r, w1)" by fastforce
  show ?thesis
  proof (cases "\<exists>s. r = Inr (Some s)")
    case True
    then obtain s where s: "r = Inr (Some s)" ..
    obtain e w2 where "hc_DeleteWithResult h s w1 = (e, w2)" by fastforce
    with assms g s show ?thesis by (auto simp: Provider_DeprovisionServer_def split: option.splits)
  next
    case False
    with assms g show ?thesis by (auto simp: Provider_DeprovisionServer_def split: sum.splits option.splits)
  qed
qed

lemma server_not_found:
  assumes "ParseInt sid = Inr k" and "hc_GetByID h k w = (Inr None, w')"
  shows "\<exists>e. Provider_GetServer h sid w = (Inl e, w') \<and> errors_is e (ProviderErr ErrServerNotFound)"
    and "\<exists>e. Provider_DeprovisionServer h sid w = (Some e, w') \<and> errors_is e (ProviderErr ErrServerNotFound)"
  using assms by (simp_all add: Provider_GetServer_def Provider_DeprovisionServer_def)

text \<open>Life cycle of a server: what \<open>ProvisionServer\<close> returns is found by \<open>GetServer\<close> under the asked
  name; after a successful \<open>DeprovisionServer\<close> of that ID, \<open>GetServer\<close> and a second \<open>DeprovisionServer\<close>
  report \<open>ErrServerNotFound\<close> whenever the API answers.\<close>

theorem provision_lifecycle:
  assumes "hcloud_ok h servers" and "Provider_ProvisionServer h spec w = (Inr sid, w1)"
  shows "(\<forall>info w2. Provider_GetServer h sid w1 = (Inr info, w2) \<longrightarrow>
            si_ID info = sid \<and> si_Name info = ss_Name spec \<and> servers w2 = servers w1) \<and>
     (\<forall>w2 r w3. Provider_DeprovisionServer h sid w1 = (None, w2) \<longrightarrow> hc_GetByID h (projr (ParseInt sid)) w2 = (Inr r, w3) \<longrightarrow>
            (\<exists>e. Provider_GetServer h sid w2 = (Inl e, w3) \<and> errors_is e (ProviderErr ErrServerNotFound)) \<and>
            (\<exists>e. Provider_DeprovisionServer h sid w2 = (Some e, w3) \<and> errors_is e (ProviderErr ErrServerNotFound)))"
proof -
  note ok = hcloud_okD [OF assms(1)]
  obtain s where s: "sid = FormatInt (hs_ID s)" "hs_Name s = ss_Name spec" "servers w1 (hs_ID s) = Some s"
    using ProvisionServer_ok [OF assms] by blast
  note parse = ParseInt_FormatInt [of "hs_ID s", folded s(1)]
  have "si_ID info = sid \<and> si_Name info = ss_Name spec \<and> servers w2 = servers w1"
    if g: "Provider_GetServer h sid w1 = (Inr info, w2)" for info w2
  proof -
    from GetServer_ok [OF parse g] obtain x where "hc_GetByID h (hs_ID s) w1 = (Inr (Some x), w2)"
      "info = serverToInfo x" by blast
    with ok(5) [of "hs_ID s" w1 "Some x" w2] s show ?thesis by (simp add: serverToInfo_def)
  qed
  moreover have gone: "r = None"
    if d: "Provider_DeprovisionServer h sid w1 = (None, w2)" and g: "hc_GetByID h (hs_ID s) w2 = (Inr r, w3)" for w2 r w3
  proof -
    from DeprovisionServer_ok [OF parse d] obtain x wx where x: "hc_GetByID h (hs_ID s) w1 = (Inr (Some x), wx)"
      "hc_DeleteWithResult h x wx = (None, w2)" by blast
    from ok(5) [OF x(1)] s(3) have "x = s" "servers wx = servers w1" by simp_all
    with ok(7) [OF x(2)] have "servers w2 = (servers w1)(hs_ID s := None)" by simp
    with ok(5) [OF g] show "r = None" by simp
  qed
  ultimately show ?thesis
    unfolding parse sum.sel by (intro conjI allI impI) (metis server_not_found [OF parse])+
qed

subsection \<open>An account with room for one server\<close>

definition ex_servers :: "hcloud_server option \<Rightarrow> int64 \<Rightarrow> hcloud_server option" where
  "ex_servers w = (case w of None \<Rightarrow> Map.empty | Some s \<Rightarrow> [hs_ID s \<mapsto> s])"

definition ex_hcloud :: "hcloud_server option hcloud" where
  "ex_hcloud = \<lparr>
     hc_GetByName = (\<lambda>n w. (Inr (case w of None \<Rightarrow> None | Some s \<Rightarrow> if hs_Name s = n then Some s else None), w)),
     hc_GetByID = (\<lambda>k w. (Inr (case w of None \<Rightarrow> None | Some s \<Rightarrow> if hs_ID s = k then Some s else None), w)),
     hc_Create = (\<lambda>opts w. case w of
        None \<Rightarrow> (let s = \<lparr>hs_ID = 42, hs_Name = ho_Name opts, hs_Status = ''running'', hs_IPv4 = None\<rparr>
                 in (Inr s, Some s))
      | Some s \<Rightarrow> (Inl (Errors_New ''quota exceeded''), w)),
     hc_DeleteWithResult = (\<lambda>s w. (None, case w of None \<Rightarrow> None | Some t \<Rightarrow> if hs_ID t = hs_ID s then None else w)),
     hc_All = (\<lambda>w. (Inr (case w of None \<Rightarrow> [] | Some s \<Rightarrow> [s]), w))\<rparr>"

lemma ex_hcloud_ok: "hcloud_ok ex_hcloud ex_servers"
  by (auto simp: hcloud_ok_def ex_hcloud_def ex_servers_def Let_def split: option.splits if_splits)

definition ex_spec :: ServerSpec where
  "ex_spec = \<lparr>ss_Name = ''n1'', ss_ServerType = ''cx21'', ss_Region = ''fsn1'', ss_Image = ''ubuntu-22.04'',
     ss_ClusterID = ''c1''\<rparr>"

lemma ex_spec_valid: "validateSpec ex_spec = None" "ss_Name ex_spec = ''n1''"
  by (simp_all add: validateSpec_def ex_spec_def)

lemma ex_provision:
  "\<exists>s. Provider_ProvisionServer ex_hcloud ex_spec None = (Inr (FormatInt 42), Some s) \<and> hs_ID s = 42 \<and>
     hs_Name s = ''n1''"
  by (simp add: Provider_ProvisionServer_def ex_spec_valid ex_hcloud_def create_opts_def Let_def)


theorem provision_lifecycle_witness:
  "\<exists>s e. Provider_ProvisionServer ex_hcloud ex_spec None = (Inr (FormatInt 42), Some s) \<and>
     Provider_DeprovisionServer ex_hcloud (FormatInt 42) (Some s) = (None, None) \<and>
     Provider_GetServer ex_hcloud (FormatInt 42) None = (Inl e, None) \<and> errors_is e (ProviderErr ErrServerNotFound)"
proof -
  obtain s where s: "Provider_ProvisionServer ex_hcloud ex_spec None = (Inr (FormatInt 42), Some s)" "hs_ID s = 42"
    using ex_provision by blast
  have d: "Provider_DeprovisionServer ex_hcloud (FormatInt 42) (Some s) = (None, None)"
    using s(2) by (simp add: Provider_DeprovisionServer_def ParseInt_FormatInt ex_hcloud_def)
  have g: "hc_GetByID ex_hcloud (projr (ParseInt (FormatInt 42))) None = (Inr None, None)"
    by (simp add: ex_hcloud_def)
  from provision_lifecycle [OF ex_hcloud_ok s(1)] d g s(1) show ?thesis by blast
qed

end
