(* ===== verification/Bootstrap.thy ===== *)
theory Bootstrap
  imports Lxd
begin

section \<open>Two-node cluster formation (internal/bootstrap/bootstrap.go)\<close>

text \<open>
  \<open>Bootstrapper.Bootstrap\<close> in the code's order: validation, the seed (status, certificate, init), the
  joiner (status, certificate if still unknown, join), verification. A \<open>Bootstrapper\<close> holds the two
  clients. The locale \<open>bootstrap_pair\<close> proves from the clients' contract that a run forms the
  cluster, never undoes it, and never joins before the seed is clustered.
\<close>

record NodeConfig =
  nc_Name :: string
  nc_ListenAddress :: string

record Config =
  bc_ClusterName :: string
  bc_TrustToken :: string
  bc_StorageDriver :: string
  bc_StoragePool :: string
  bc_SeedNode :: NodeConfig
  bc_JoinerNode :: NodeConfig

record 'w Bootstrapper =
  bs_seed :: "'w lxd_client"
  bs_joiner :: "'w lxd_client"

definition validate :: "Config \<Rightarrow> go_error option" where
  "validate cfg = errors_join
     ((if bc_ClusterName cfg = '''' then [Errors_New ''ClusterName is required''] else []) @
      (if bc_TrustToken cfg = '''' then [Errors_New ''TrustToken is required''] else []) @
      (if bc_StorageDriver cfg = '''' then [Errors_New ''StorageDriver is required''] else []) @
      (if bc_StoragePool cfg = '''' then [Errors_New ''StoragePool is required''] else []) @
      (if nc_Name (bc_SeedNode cfg) = '''' then [Errors_New ''SeedNode.Name is required''] else []) @
      (if nc_ListenAddress (bc_SeedNode cfg) = ''''
       then [Errors_New ''SeedNode.ListenAddress is required''] else []) @
      (if nc_Name (bc_JoinerNode cfg) = '''' then [Errors_New ''JoinerNode.Name is required''] else []) @
      (if nc_ListenAddress (bc_JoinerNode cfg) = ''''
       then [Errors_New ''JoinerNode.ListenAddress is required''] else []))"

definition storage_pool_of :: "Config \<Rightarrow> StoragePoolConfig" where
  "storage_pool_of cfg = \<lparr>sp_Name = bc_StoragePool cfg, sp_Driver = bc_StorageDriver cfg\<rparr>"

definition init_config :: "Config \<Rightarrow> ClusterInitConfig" where
  "init_config cfg = \<lparr>ic_ServerName = nc_Name (bc_SeedNode cfg), ic_ClusterName = bc_ClusterName cfg,
     ic_ListenAddress = nc_ListenAddress (bc_SeedNode cfg), ic_StoragePool = storage_pool_of cfg,
     ic_TrustToken = bc_TrustToken cfg\<rparr>"

definition join_config :: "Config \<Rightarrow> string \<Rightarrow> ClusterJoinConfig" where
  "join_config cfg seedCert = \<lparr>jc_ServerName = nc_Name (bc_JoinerNode cfg),
     jc_ClusterAddress = ''https://'' @ nc_ListenAddress (bc_SeedNode cfg),
     jc_ClusterCertificate = seedCert, jc_TrustToken = bc_TrustToken cfg,
     jc_StoragePool = storage_pool_of cfg\<rparr>"

definition already_bootstrapped :: "go_error \<Rightarrow> bool" where
  "already_bootstrapped e = errors_is e (LxdErr ErrClusterAlreadyBootstrapped)"

text \<open>Step 1: the seed. The result is the certificate, empty when it was not fetched.\<close>

definition init_seed :: "'w lxd_client \<Rightarrow> Config \<Rightarrow> 'w \<Rightarrow> string res \<times> 'w" where
  "init_seed seed cfg w =
     (case Client_GetClusterStatus seed w of
        (Inl err, w1) \<Rightarrow> (Inl (Wrapf ''bootstrap: check seed cluster status: %w'' [] err), w1)
      | (Inr seedStatus, w1) \<Rightarrow>
          if cs_Enabled seedStatus then (Inr '''', w1)
          else
            (case Client_GetClusterCertificate seed w1 of
               (Inl err, w2) \<Rightarrow> (Inl (Wrapf ''bootstrap: get seed certificate: %w'' [] err), w2)
             | (Inr seedCert, w2) \<Rightarrow>
                 (case Client_InitCluster seed (init_config cfg) w2 of
                    (None, w3) \<Rightarrow> (Inr seedCert, w3)
                  | (Some err, w3) \<Rightarrow>
                      if already_bootstrapped err then (Inr seedCert, w3)
                      else (Inl (Wrapf ''bootstrap: init seed node %q: %w''
                                  [nc_Name (bc_SeedNode cfg)] err), w3))))"

text \<open>Step 2: the joiner.\<close>

definition join_joiner ::
    "'w lxd_client \<Rightarrow> 'w lxd_client \<Rightarrow> Config \<Rightarrow> string \<Rightarrow> 'w \<Rightarrow> go_error option \<times> 'w" where
  "join_joiner seed joiner cfg seedCert0 w =
     (case Client_GetClusterStatus joiner w of
        (Inl err, w1) \<Rightarrow> (Some (Wrapf ''bootstrap: check joiner cluster status: %w'' [] err), w1)
      | (Inr joinerStatus, w1) \<Rightarrow>
          if cs_Enabled joinerStatus then (None, w1)
          else
            (case (if seedCert0 = '''' then Client_GetClusterCertificate seed w1 else (Inr seedCert0, w1)) of
               (Inl err, w2) \<Rightarrow> (Some (Wrapf ''bootstrap: get seed certificate for join: %w'' [] err), w2)
             | (Inr seedCert, w2) \<Rightarrow>
                 (case Client_JoinCluster joiner (join_config cfg seedCert) w2 of
                    (None, w3) \<Rightarrow> (None, w3)
                  | (Some err, w3) \<Rightarrow>
                      if already_bootstrapped err then (None, w3)
                      else (Some (Wrapf ''bootstrap: join node %q to cluster: %w''
                                   [nc_Name (bc_JoinerNode cfg)] err), w3))))"

text \<open>Step 3.\<close>

definition verify :: "'w lxd_client \<Rightarrow> string \<Rightarrow> string \<Rightarrow> 'w \<Rightarrow> go_error option \<times> 'w" where
  "verify seed seedName joinerName w =
     (case Client_GetClusterMembers seed w of
        (Inl err, w1) \<Rightarrow> (Some (Wrapf ''get cluster members: %w'' [] err), w1)
      | (Inr members, w1) \<Rightarrow>
          let found = map ni_Name members
          in if seedName \<notin> set found
             then (Some (Errorf ''seed node %q is not a cluster member'' [seedName]), w1)
             else if joinerName \<notin> set found
             then (Some (Errorf ''joiner node %q is not a cluster member'' [joinerName]), w1)
             else (None, w1))"

definition Bootstrapper_Bootstrap :: "'w Bootstrapper \<Rightarrow> Config \<Rightarrow> 'w \<Rightarrow> go_error option \<times> 'w" where
  "Bootstrapper_Bootstrap b cfg w =
     (case validate cfg of
        Some err \<Rightarrow> (Some (Wrapf ''bootstrap: invalid config: %w'' [] err), w)
      | None \<Rightarrow>
          (case init_seed (bs_seed b) cfg w of
             (Inl err, w1) \<Rightarrow> (Some err, w1)
           | (Inr seedCert, w1) \<Rightarrow>
               (case join_joiner (bs_seed b) (bs_joiner b) cfg seedCert w1 of
                  (Some err, w2) \<Rightarrow> (Some err, w2)
                | (None, w2) \<Rightarrow>
                    (case verify (bs_seed b) (nc_Name (bc_SeedNode cfg)) (nc_Name (bc_JoinerNode cfg)) w2 of
                       (Some err, w3) \<Rightarrow> (Some (Wrapf ''bootstrap: verification failed: %w'' [] err), w3)
                     | (None, w3) \<Rightarrow> (None, w3)))))"

text \<open>A config that passes: every field is filled in.\<close>

definition complete :: "Config \<Rightarrow> bool" where
  "complete cfg \<longleftrightarrow> bc_ClusterName cfg \<noteq> '''' \<and> bc_TrustToken cfg \<noteq> '''' \<and> bc_StorageDriver cfg \<noteq> '''' \<and>
     bc_StoragePool cfg \<noteq> '''' \<and> nc_Name (bc_SeedNode cfg) \<noteq> '''' \<and>
     nc_ListenAddress (bc_SeedNode cfg) \<noteq> '''' \<and> nc_Name (bc_JoinerNode cfg) \<noteq> '''' \<and>
     nc_ListenAddress (bc_JoinerNode cfg) \<noteq> ''''"

lemma validate_complete: "validate cfg = None \<longleftrightarrow> complete cfg"
  by (simp add: validate_def complete_def)

section \<open>Two nodes that keep the clustering contract\<close>

locale bootstrap_pair =
  seed: lxd_clustering S clusteredS inv clusteredJ +
  joiner: lxd_clustering J clusteredJ inv clusteredS
  for S J :: "'w lxd_client" and clusteredS clusteredJ inv :: "'w \<Rightarrow> bool"
begin

lemma init_seed_steps:
  assumes "inv w" and "init_seed S cfg w = (r, w')"
  shows "inv w' \<and> clusteredJ w' = clusteredJ w \<and> (clusteredS w \<longrightarrow> clusteredS w') \<and>
     (case r of Inl _ \<Rightarrow> clusteredS w' = clusteredS w | Inr _ \<Rightarrow> clusteredS w')"
proof -
  obtain st w1 where s: "Client_GetClusterStatus S w = (st, w1)" by fastforce
  note w1 = seed.status_frame [OF assms(1) s]
  show ?thesis
  proof (cases "\<exists>x. st = Inr x \<and> \<not> cs_Enabled x")
    case False
    with s assms w1 seed.status_ok [OF assms(1)] show ?thesis
      by (auto simp: init_seed_def split: sum.splits if_splits)
  next
    case True
    then obtain x where x: "st = Inr x" "\<not> cs_Enabled x" by blast
    obtain ct w2 where ct: "Client_GetClusterCertificate S w1 = (ct, w2)" by fastforce
    with w1 have w2: "inv w2 \<and> clusteredS w2 = clusteredS w1 \<and> clusteredJ w2 = clusteredJ w1"
      using seed.certificate_frame by blast
    obtain ie w3 where ie: "Client_InitCluster S (init_config cfg) w2 = (ie, w3)" by fastforce
    with w2 have w3: "inv w3" "clusteredJ w3 = clusteredJ w2" using seed.init_frame by blast+
    have w3': "clusteredS w3 = (ie = None \<or> clusteredS w2)"
      using w2 ie seed.init_ok [of w2 "init_config cfg" w3] seed.init_err [of w2 "init_config cfg" _ w3]
      by (cases ie) auto
    have "\<And>e. ie = Some e \<Longrightarrow> already_bootstrapped e \<Longrightarrow> clusteredS w3"
      using w2 ie w3' seed.init_already unfolding already_bootstrapped_def by blast
    with s x ct ie w1 w2 w3 w3' assms show ?thesis
      by (auto simp: init_seed_def split: sum.splits option.splits if_splits)
  qed
qed

lemma join_steps:
  assumes "inv w" and "join_joiner S J cfg cert w = (r, w')"
  shows "inv w' \<and> clusteredS w' = clusteredS w \<and> (clusteredJ w \<longrightarrow> clusteredJ w') \<and>
     (r = None \<longrightarrow> clusteredJ w')"
proof -
  obtain st w1 where s: "Client_GetClusterStatus J w = (st, w1)" by fastforce
  note w1 = joiner.status_frame [OF assms(1) s]
  show ?thesis
  proof (cases "\<exists>x. st = Inr x \<and> \<not> cs_Enabled x")
    case False
    with s assms w1 joiner.status_ok [OF assms(1)] show ?thesis
      by (auto simp: join_joiner_def split: sum.splits if_splits)
  next
    case True
    then obtain x where x: "st = Inr x" "\<not> cs_Enabled x" by blast
    obtain ct w2 where ct: "(if cert = '''' then Client_GetClusterCertificate S w1 else (Inr cert, w1)) = (ct, w2)"
      by fastforce
    with w1 have w2: "inv w2 \<and> clusteredS w2 = clusteredS w1 \<and> clusteredJ w2 = clusteredJ w1"
      using seed.certificate_frame by (fastforce split: if_splits)
    show ?thesis
    proof (cases ct)
      case (Inl e)
      with s x ct w1 w2 assms show ?thesis by (auto simp: join_joiner_def)
    next
      case (Inr c)
      obtain je w3 where je: "Client_JoinCluster J (join_config cfg c) w2 = (je, w3)" by fastforce
      with w2 have w3: "inv w3" "clusteredS w3 = clusteredS w2" using joiner.join_frame by blast+
      have w3': "clusteredJ w3 = (je = None \<or> clusteredJ w2)"
        using w2 je joiner.join_ok [of w2 "join_config cfg c" w3] joiner.join_err [of w2 "join_config cfg c" _ w3]
        by (cases je) auto
      have "\<And>e. je = Some e \<Longrightarrow> already_bootstrapped e \<Longrightarrow> clusteredJ w3"
        using w2 je w3' joiner.join_already unfolding already_bootstrapped_def by blast
      with s x ct Inr je w1 w2 w3 w3' assms show ?thesis
        by (auto simp: join_joiner_def split: option.splits if_splits)
    qed
  qed
qed

lemma verify_frame:
  assumes "inv w" and "verify S x y w = (r, w')"
  shows "inv w' \<and> clusteredS w' = clusteredS w \<and> clusteredJ w' = clusteredJ w"
proof -
  obtain m w1 where m: "Client_GetClusterMembers S w = (m, w1)" by fastforce
  with assms seed.members_frame [OF assms(1) m] show ?thesis
    by (auto simp: verify_def Let_def split: sum.splits if_splits)
qed

text \<open>A run never takes a node out of the cluster, the joiner joins a clustered seed only, and after a
  run without error both are clustered.\<close>

lemma Bootstrap_steps:
  assumes "inv w" and "Bootstrapper_Bootstrap \<lparr>bs_seed = S, bs_joiner = J\<rparr> cfg w = (r, w')"
  shows "inv w' \<and> (clusteredS w \<longrightarrow> clusteredS w') \<and> (clusteredJ w \<longrightarrow> clusteredJ w') \<and>
     (clusteredJ w' \<and> \<not> clusteredJ w \<longrightarrow> clusteredS w') \<and> (r = None \<longrightarrow> clusteredS w' \<and> clusteredJ w')"
proof (cases "validate cfg")
  case (Some e)
  with assms show ?thesis by (auto simp: Bootstrapper_Bootstrap_def)
next
  case None
  obtain i w1 where i: "init_seed S cfg w = (i, w1)" by fastforce
  note s1 = init_seed_steps [OF assms(1) i]
  show ?thesis
  proof (cases i)
    case (Inl e)
    with None i assms s1 show ?thesis by (auto simp: Bootstrapper_Bootstrap_def)
  next
    case (Inr cert)
    obtain j w2 where j: "join_joiner S J cfg cert w1 = (j, w2)" by fastforce
    with s1 join_steps have s2: "inv w2 \<and> clusteredS w2 = clusteredS w1 \<and>
        (clusteredJ w1 \<longrightarrow> clusteredJ w2) \<and> (j = None \<longrightarrow> clusteredJ w2)" by blast
    obtain v w3 where v: "verify S (nc_Name (bc_SeedNode cfg)) (nc_Name (bc_JoinerNode cfg)) w2 = (v, w3)"
      by fastforce
    with s2 verify_frame have s3: "inv w3 \<and> clusteredS w3 = clusteredS w2 \<and> clusteredJ w3 = clusteredJ w2"
      by blast
    from None i Inr j v assms(2) s1 s2 s3 show ?thesis
      by (auto simp: Bootstrapper_Bootstrap_def split: option.splits)
  qed
qed

end

end
