(* ===== verification/Workflow.thy ===== *)
theory Workflow
  imports Bootstrap
begin

section \<open>The node bootstrap workflow (internal/bootstrap/workflow.go)\<close>

text \<open>
  A readiness check is a name and a stateful test. \<open>Workflow.Run\<close> runs the checks in order, stops at the
  first failure, and calls the bootstrapper only when all have passed.
\<close>

record 'w ReadinessChecker =
  rc_Name :: string
  rc_Check :: "'w \<Rightarrow> go_error option \<times> 'w"

definition LXDReadinessCheck :: "string \<Rightarrow> 'w lxd_client \<Rightarrow> 'w ReadinessChecker" where
  "LXDReadinessCheck name client = \<lparr>rc_Name = name,
     rc_Check = (\<lambda>w. case Client_GetClusterStatus client w of
        (Inl err, w1) \<Rightarrow> (Some (Wrapf ''LXD endpoint not ready: %w'' [] err), w1)
      | (Inr _, w1) \<Rightarrow> (None, w1))\<rparr>"

record Result =
  wr_NodeName :: string
  wr_Ready :: bool
  wr_FailedStep :: string
  wr_Err :: "go_error option"

record 'w Workflow =
  wf_checks :: "'w ReadinessChecker list"
  wf_bootstrapper :: "'w Bootstrapper"

fun run_checks :: "'w ReadinessChecker list \<Rightarrow> Result \<Rightarrow> 'w \<Rightarrow> (Result + unit) \<times> 'w" where
  "run_checks [] result w = (Inr (), w)"
| "run_checks (check # checks) result w =
     (case rc_Check check w of
        (Some err, w1) \<Rightarrow>
          (Inl (result\<lparr>wr_FailedStep := ''readiness:'' @ rc_Name check,
                  wr_Err := Some (Wrapf ''readiness check %q failed: %w'' [rc_Name check] err)\<rparr>), w1)
      | (None, w1) \<Rightarrow> run_checks checks result w1)"

definition Workflow_Run :: "'w Workflow \<Rightarrow> string \<Rightarrow> Config \<Rightarrow> 'w \<Rightarrow> Result \<times> 'w" where
  "Workflow_Run flow nodeName cfg w =
     (let result = \<lparr>wr_NodeName = nodeName, wr_Ready = False, wr_FailedStep = '''', wr_Err = None\<rparr>
      in case run_checks (wf_checks flow) result w of
           (Inl failed, w1) \<Rightarrow> (failed, w1)
         | (Inr _, w1) \<Rightarrow>
             (case Bootstrapper_Bootstrap (wf_bootstrapper flow) cfg w1 of
                (Some err, w2) \<Rightarrow> (result\<lparr>wr_FailedStep := ''bootstrap'', wr_Err := Some err\<rparr>, w2)
              | (None, w2) \<Rightarrow> (result\<lparr>wr_Ready := True\<rparr>, w2)))"

text \<open>The checks up to and including the first that fails, and the state after them.\<close>

inductive checks_pass :: "'w ReadinessChecker list \<Rightarrow> 'w \<Rightarrow> 'w \<Rightarrow> bool" where
  "checks_pass [] w w"
| "rc_Check check w = (None, w1) \<Longrightarrow> checks_pass checks w1 w2 \<Longrightarrow> checks_pass (check # checks) w w2"

inductive_simps checks_pass_simps: "checks_pass [] w w'" "checks_pass (check # checks) w w'"

lemma run_checks_pass:
  "run_checks checks result w = (Inr u, w') \<longleftrightarrow> checks_pass checks w w'"
proof (induction checks arbitrary: w)
  case (Cons c cs)
  obtain r w1 where c: "rc_Check c w = (r, w1)" by fastforce
  show ?case
  proof (cases r)
    case None
    with c Cons.IH [of w1] show ?thesis by (simp add: checks_pass_simps)
  next
    case (Some e)
    with c show ?thesis by (simp add: checks_pass_simps)
  qed
qed (simp add: checks_pass_simps eq_commute)

lemma run_checks_fail:
  assumes "run_checks checks result w = (Inl failed, w')"
  shows "\<exists>pre check post w1 err. checks = pre @ check # post \<and> checks_pass pre w w1 \<and>
     rc_Check check w1 = (Some err, w') \<and>
     failed = result\<lparr>wr_FailedStep := ''readiness:'' @ rc_Name check,
       wr_Err := Some (Wrapf ''readiness check %q failed: %w'' [rc_Name check] err)\<rparr>"
  using assms
proof (induction checks arbitrary: w)
  case (Cons c cs)
  obtain r w1 where c: "rc_Check c w = (r, w1)" by fastforce
  show ?case
  proof (cases r)
    case (Some err)
    with c Cons.prems show ?thesis
      by (intro exI [of _ "[]"] exI [of _ c] exI [of _ cs] exI [of _ w] exI [of _ err])
        (auto simp: checks_pass_simps)
  next
    case None
    with c Cons.prems have "run_checks cs result w1 = (Inl failed, w')" by simp
    from Cons.IH [OF this] obtain pre check post w2 err where "cs = pre @ check # post" "checks_pass pre w1 w2"
      "rc_Check check w2 = (Some err, w')"
      "failed = result\<lparr>wr_FailedStep := ''readiness:'' @ rc_Name check,
         wr_Err := Some (Wrapf ''readiness check %q failed: %w'' [rc_Name check] err)\<rparr>" by blast
    moreover from this c None have "c # cs = (c # pre) @ check # post" "checks_pass (c # pre) w w2"
      by (simp_all add: checks_pass_simps)
    ultimately show ?thesis by blast
  qed
qed simp

end
