(* ===== verification/Orchestrator.thy ===== *)
theory Orchestrator
  imports Repository Scheduler Provider Workflow
begin

section \<open>The reconciliation loop (internal/orchestrator)\<close>

text \<open>
  The struct \<open>Orchestrator\<close> with its optional collaborators (a nil interface is \<open>None\<close>) and one
  reconciliation pass: the syncs, the placement step, the scale-out. Dereferencing the nil node of a
  scheduler result panics; such a run is \<open>None\<close>. The random bytes for node names come from the argument
  \<open>rnd\<close> (\<open>crypto/rand.Read\<close>). The second half relates the placement loop to a pure bin packing.
\<close>

record 'w Orchestrator =
  o_provider :: "'w hyperscaler_provider option"
  o_bootstrap :: "(string \<Rightarrow> Config \<Rightarrow> 'w \<Rightarrow> Result \<times> 'w) option"
  o_clusterRepo :: "'w cluster_repository option"
  o_nodeRepo :: "'w node_repository option"
  o_instanceRepo :: "'w instance_repository option"
  o_nodeSyncer :: "(string \<Rightarrow> 'w \<Rightarrow> go_error option \<times> 'w) option"
  o_instanceSyncer :: "(string \<Rightarrow> 'w \<Rightarrow> go_error option \<times> 'w) option"
  o_scheduler :: "scheduler option"

text \<open>\<open>New\<close> with no option, and the options.\<close>

definition new_orchestrator :: "'w Orchestrator" where
  "new_orchestrator = \<lparr>o_provider = None, o_bootstrap = None, o_clusterRepo = None, o_nodeRepo = None,
     o_instanceRepo = None, o_nodeSyncer = None, o_instanceSyncer = None, o_scheduler = None\<rparr>"

definition WithProvider :: "'w hyperscaler_provider \<Rightarrow> 'w Orchestrator \<Rightarrow> 'w Orchestrator" where
  "WithProvider p orch = orch\<lparr>o_provider := Some p\<rparr>"

definition WithBootstrapWorkflow ::
    "(string \<Rightarrow> Config \<Rightarrow> 'w \<Rightarrow> Result \<times> 'w) \<Rightarrow> 'w Orchestrator \<Rightarrow> 'w Orchestrator" where
  "WithBootstrapWorkflow r orch = orch\<lparr>o_bootstrap := Some r\<rparr>"

definition WithClusterRepository :: "'w cluster_repository \<Rightarrow> 'w Orchestrator \<Rightarrow> 'w Orchestrator" where
  "WithClusterRepository r orch = orch\<lparr>o_clusterRepo := Some r\<rparr>"

definition WithNodeSyncer ::
    "(string \<Rightarrow> 'w \<Rightarrow> go_error option \<times> 'w) \<Rightarrow> 'w Orchestrator \<Rightarrow> 'w Orchestrator" where
  "WithNodeSyncer s orch = orch\<lparr>o_nodeSyncer := Some s\<rparr>"

definition WithInstanceSyncer ::
    "(string \<Rightarrow> 'w \<Rightarrow> go_error option \<times> 'w) \<Rightarrow> 'w Orchestrator \<Rightarrow> 'w Orchestrator" where
  "WithInstanceSyncer s orch = orch\<lparr>o_instanceSyncer := Some s\<rparr>"

definition WithNodeRepository :: "'w node_repository \<Rightarrow> 'w Orchestrator \<Rightarrow> 'w Orchestrator" where
  "WithNodeRepository r orch = orch\<lparr>o_nodeRepo := Some r\<rparr>"

definition WithInstanceRepository :: "'w instance_repository \<Rightarrow> 'w Orchestrator \<Rightarrow> 'w Orchestrator" where
  "WithInstanceRepository r orch = orch\<lparr>o_instanceRepo := Some r\<rparr>"

definition WithScheduler :: "scheduler \<Rightarrow> 'w Orchestrator \<Rightarrow> 'w Orchestrator" where
  "WithScheduler s orch = orch\<lparr>o_scheduler := Some s\<rparr>"

subsection \<open>Reading the cluster's configuration\<close>

definition configStringFromMap :: "json_map \<Rightarrow> string \<Rightarrow> string \<times> bool" where
  "configStringFromMap m k =
     (case m of
        None \<Rightarrow> ('''', False)
      | Some f \<Rightarrow>
          (case f k of
             None \<Rightarrow> ('''', False)
           | Some v \<Rightarrow> (case v of JString s \<Rightarrow> (s, True) | _ \<Rightarrow> ('''', False))))"

definition config_get :: "json_map \<Rightarrow> string \<Rightarrow> string" where
  "config_get m k = fst (configStringFromMap m k)"

definition serverSpecFromCluster :: "cluster \<Rightarrow> string \<Rightarrow> ServerSpec res" where
  "serverSpecFromCluster c nodeName =
     (let get = config_get (c_HyperscalerConfig c);
          spec = \<lparr>ss_Name = nodeName, ss_ServerType = get ''server_type'', ss_Region = get ''region'',
                   ss_Image = get ''image'', ss_ClusterID = c_ID c\<rparr>;
          missing = (if ss_ServerType spec = '''' then [''server_type''] else []) @
                    (if ss_Region spec = '''' then [''region''] else []) @
                    (if ss_Image spec = '''' then [''image''] else [])
      in if missing \<noteq> []
         then Inl (Errorf ''cluster hyperscaler_config is missing required scale-out fields: %v'' missing)
         else Inr spec)"

definition bootstrapConfigFromCluster :: "cluster \<Rightarrow> string \<Rightarrow> Config" where
  "bootstrapConfigFromCluster c newNodeName =
     (let sc = config_get (c_ScalingConfig c); hc = config_get (c_HyperscalerConfig c)
      in \<lparr>bc_ClusterName = c_Name c, bc_TrustToken = sc ''bootstrap_trust_token'',
          bc_StorageDriver = sc ''storage_driver'', bc_StoragePool = sc ''storage_pool'',
          bc_SeedNode = \<lparr>nc_Name = sc ''seed_node_name'', nc_ListenAddress = sc ''seed_node_address''\<rparr>,
          bc_JoinerNode = \<lparr>nc_Name = newNodeName, nc_ListenAddress = hc ''listen_address''\<rparr>\<rparr>)"

type_synonym 'w rand_source = "nat \<Rightarrow> 'w \<Rightarrow> byte list res \<times> 'w"

definition generateNodeName :: "'w rand_source \<Rightarrow> string \<Rightarrow> 'w \<Rightarrow> string res \<times> 'w" where
  "generateNodeName rnd clusterName w =
     (case rnd 4 w of
        (Inl err, w1) \<Rightarrow> (Inl (Wrapf ''generate node name: %w'' [] err), w1)
      | (Inr b, w1) \<Rightarrow> (Inr (clusterName @ ''-scale-'' @ hex_bytes b), w1))"

subsection \<open>Placement\<close>

definition request_for :: "inst \<Rightarrow> request" where
  "request_for i = \<lparr>rq_CPULimit = i_CPULimit i, rq_MemoryLimit = i_MemoryLimit i, rq_DiskLimit = i_DiskLimit i\<rparr>"

text \<open>The inner loop: the first entry with the instance's ID is replaced in the local slice.\<close>

fun refresh :: "inst \<Rightarrow> inst list \<Rightarrow> inst list" where
  "refresh placed [] = []"
| "refresh placed (x # xs) = (if i_ID x = i_ID placed then placed # xs else x # refresh placed xs)"

text \<open>The loop over the indices of the slice; an entry is read when its turn comes.\<close>

fun schedule_loop ::
    "'w instance_repository \<Rightarrow> scheduler \<Rightarrow> node list \<Rightarrow> nat list \<Rightarrow> inst list \<Rightarrow> bool \<Rightarrow> 'w \<Rightarrow>
     (bool \<times> inst list \<times> 'w) option" where
  "schedule_loop R sched nodes [] instances scaleOut w = Some (scaleOut, instances, w)"
| "schedule_loop R sched nodes (k # ks) instances scaleOut w =
     (let i = instances ! k in
      if i_NodeID i \<noteq> '''' then schedule_loop R sched nodes ks instances scaleOut w
      else
        (case sched nodes instances (request_for i) of
           (result, Some err) \<Rightarrow>
             if errors_is err (SchedulerErr ErrNoCapacity)
             then schedule_loop R sched nodes ks instances True w
             else schedule_loop R sched nodes ks instances scaleOut w
         | (result, None) \<Rightarrow>
             (case sr_Node result of
                None \<Rightarrow> None
              | Some n \<Rightarrow>
                  let placed = i\<lparr>i_NodeID := n_ID n\<rparr> in
                  (case UpdateInstance R placed w of
                     (Inl updateErr, w1) \<Rightarrow> schedule_loop R sched nodes ks instances scaleOut w1
                   | (Inr _, w1) \<Rightarrow> schedule_loop R sched nodes ks (refresh placed instances) scaleOut w1))))"

definition scheduleCluster :: "'w Orchestrator \<Rightarrow> cluster \<Rightarrow> 'w \<Rightarrow> (bool \<times> 'w) option" where
  "scheduleCluster orch c w =
     (case (o_scheduler orch, o_nodeRepo orch, o_instanceRepo orch) of
        (Some sched, Some N, Some I) \<Rightarrow>
          (case ListNodes N (c_ID c) w of
             (Inl err, w1) \<Rightarrow> Some (False, w1)
           | (Inr nodes, w1) \<Rightarrow>
               (case ListInstances I (c_ID c) w1 of
                  (Inl err, w2) \<Rightarrow> Some (False, w2)
                | (Inr instances, w2) \<Rightarrow>
                    map_option (\<lambda>(b, _, w3). (b, w3))
                      (schedule_loop I sched nodes [0..<length instances] instances False w2)))
      | _ \<Rightarrow> Some (False, w))"

subsection \<open>Scale-out\<close>

text \<open>Step 1: may a server be provisioned?\<close>

definition scale_out_guard :: "'w Orchestrator \<Rightarrow> cluster \<Rightarrow> 'w \<Rightarrow> bool \<times> 'w" where
  "scale_out_guard orch c w =
     (case o_nodeRepo orch of
        None \<Rightarrow> (True, w)
      | Some N \<Rightarrow>
          (case ListNodes N (c_ID c) w of
             (Inl err, w1) \<Rightarrow> (False, w1)
           | (Inr nodes, w1) \<Rightarrow> (\<not> list_ex (\<lambda>n. n_Status n = NodeStatusProvisioning) nodes, w1)))"

text \<open>Step 4: the node record, \<open>None\<close> when there is none.\<close>

definition provisioning_node :: "cluster \<Rightarrow> string \<Rightarrow> string \<Rightarrow> node" where
  "provisioning_node c nodeName serverID = zero_node\<lparr>n_ClusterID := c_ID c, n_Name := nodeName,
     n_HyperscalerServerID := serverID, n_Status := NodeStatusProvisioning\<rparr>"

definition record_node :: "'w Orchestrator \<Rightarrow> cluster \<Rightarrow> string \<Rightarrow> string \<Rightarrow> 'w \<Rightarrow> node option \<times> 'w" where
  "record_node orch c nodeName serverID w =
     (case o_nodeRepo orch of
        None \<Rightarrow> (None, w)
      | Some N \<Rightarrow>
          (case CreateNode N (provisioning_node c nodeName serverID) w of
             (Inl err, w1) \<Rightarrow> (None, w1)
           | (Inr n, w1) \<Rightarrow> (Some n, w1)))"

text \<open>Step 5: bootstrap and the final status.\<close>

definition finish_node :: "'w Orchestrator \<Rightarrow> cluster \<Rightarrow> string \<Rightarrow> node option \<Rightarrow> 'w \<Rightarrow> 'w" where
  "finish_node orch c nodeName nodeRecord w =
     (case o_bootstrap orch of
        None \<Rightarrow> w
      | Some run \<Rightarrow>
          (case run nodeName (bootstrapConfigFromCluster c nodeName) w of
             (result, w1) \<Rightarrow>
               (case (nodeRecord, o_nodeRepo orch) of
                  (Some n, Some N) \<Rightarrow>
                    if wr_Ready result then snd (UpdateNode N (n\<lparr>n_Status := NodeStatusOnline\<rparr>) w1)
                    else snd (UpdateNode N (n\<lparr>n_Status := NodeStatusError\<rparr>) w1)
                | _ \<Rightarrow> w1)))"

definition executeScaleOut ::
    "'w rand_source \<Rightarrow> 'w Orchestrator \<Rightarrow> 'w hyperscaler_provider \<Rightarrow> cluster \<Rightarrow> 'w \<Rightarrow> 'w" where
  "executeScaleOut rnd orch prov c w =
     (case scale_out_guard orch c w of
        (False, w1) \<Rightarrow> w1
      | (True, w1) \<Rightarrow>
          (case generateNodeName rnd (c_Name c) w1 of
             (Inl nameErr, w2) \<Rightarrow> w2
           | (Inr nodeName, w2) \<Rightarrow>
               (case serverSpecFromCluster c nodeName of
                  Inl specErr \<Rightarrow> w2
                | Inr spec \<Rightarrow>
                    (case ProvisionServer prov spec w2 of
                       (Inl provErr, w3) \<Rightarrow> w3
                     | (Inr serverID, w3) \<Rightarrow>
                         (let (nodeRecord, w4) = record_node orch c nodeName serverID w3
                          in finish_node orch c nodeName nodeRecord w4)))))"

subsection \<open>One pass\<close>

definition sync_step :: "(string \<Rightarrow> 'w \<Rightarrow> go_error option \<times> 'w) option \<Rightarrow> string \<Rightarrow> 'w \<Rightarrow> 'w" where
  "sync_step syncer c w = (case syncer of None \<Rightarrow> w | Some s \<Rightarrow> snd (s c w))"

definition reconcileCluster :: "'w rand_source \<Rightarrow> 'w Orchestrator \<Rightarrow> cluster \<Rightarrow> 'w \<Rightarrow> 'w option" where
  "reconcileCluster rnd orch c w =
     (let w1 = sync_step (o_nodeSyncer orch) (c_ID c) w;
          w2 = sync_step (o_instanceSyncer orch) (c_ID c) w1
      in case scheduleCluster orch c w2 of
           None \<Rightarrow> None
         | Some (scaleOutRequired, w3) \<Rightarrow>
             (case o_provider orch of
                None \<Rightarrow> Some w3
              | Some prov \<Rightarrow> Some (if scaleOutRequired then executeScaleOut rnd orch prov c w3 else w3)))"

fun reconcile_all :: "'w rand_source \<Rightarrow> 'w Orchestrator \<Rightarrow> cluster list \<Rightarrow> 'w \<Rightarrow> 'w option" where
  "reconcile_all rnd orch [] w = Some w"
| "reconcile_all rnd orch (c # cs) w =
     (case reconcileCluster rnd orch c w of None \<Rightarrow> None | Some w1 \<Rightarrow> reconcile_all rnd orch cs w1)"

definition reconcile :: "'w rand_source \<Rightarrow> 'w Orchestrator \<Rightarrow> 'w \<Rightarrow> 'w option" where
  "reconcile rnd orch w =
     (case o_clusterRepo orch of
        None \<Rightarrow> Some w
      | Some C \<Rightarrow>
          (case ListClusters C w of
             (Inl err, w1) \<Rightarrow> Some w1
           | (Inr clusters, w1) \<Rightarrow> reconcile_all rnd orch clusters w1))"

text \<open>\<open>Run\<close> for a number of ticks.\<close>

fun orchestrator_run :: "'w rand_source \<Rightarrow> 'w Orchestrator \<Rightarrow> nat \<Rightarrow> 'w \<Rightarrow> 'w option" where
  "orchestrator_run rnd orch 0 w = Some w"
| "orchestrator_run rnd orch (Suc n) w =
     (case reconcile rnd orch w of None \<Rightarrow> None | Some w1 \<Rightarrow> orchestrator_run rnd orch n w1)"

end
