(* ===== verification/Placement.thy ===== *)
theory Placement
  imports Orchestrator
begin

section \<open>The placement step as a pure bin packing\<close>

text \<open>
  \<open>place_loop\<close> is the loop of \<open>scheduleCluster\<close> with \<open>BinPacking\<close> and no store: the specification of one
  placement pass. Its invariants are proved here; the refinement by the loop with an instance store
  follows in the second half.
\<close>

definition place :: "node \<Rightarrow> nat \<Rightarrow> inst list \<Rightarrow> inst list" where
  "place n k L = L[k := (L ! k)\<lparr>i_NodeID := n_ID n\<rparr>]"

fun place_loop :: "node list \<Rightarrow> nat list \<Rightarrow> inst list \<Rightarrow> bool \<Rightarrow> bool \<times> inst list" where
  "place_loop nodes [] L b = (b, L)"
| "place_loop nodes (k # ks) L b =
     (if i_NodeID (L ! k) \<noteq> '''' then place_loop nodes ks L b
      else
        (case sr_Node (fst (BinPacking_Schedule nodes L (request_for (L ! k)))) of
           None \<Rightarrow> place_loop nodes ks L True
         | Some n \<Rightarrow> place_loop nodes ks (place n k L) b))"

lemma limit_of_placed [simp]: "limit_of r (i\<lparr>i_NodeID := x\<rparr>) = limit_of r i"
  by (cases r) simp_all

lemma request_of_request_for [simp]: "request_of r (request_for i) = limit_of r i"
  by (cases r) (simp_all add: request_for_def)

lemma length_place [simp]: "length (place n k L) = length L"
  by (simp add: place_def)

lemma nth_place:
  "k < length L \<Longrightarrow> place n k L ! j = (if j = k then (L ! k)\<lparr>i_NodeID := n_ID n\<rparr> else L ! j)"
  by (simp add: place_def nth_list_update)

lemma limits_place: "map (limit_of r) (place n k L) = map (limit_of r) L"
  by (simp add: place_def map_update) (metis list_update_beyond list_update_id map_update not_le nth_map)

lemma no_overflow_place [simp]: "no_overflow (place n k L) = no_overflow L"
proof -
  have all: "(\<forall>i \<in> set M. 0 \<le> sint (limit_of r i)) \<longleftrightarrow> (\<forall>x \<in> set (map (limit_of r) M). 0 \<le> sint x)" for r M
    by simp
  have sum: "(\<Sum>i \<leftarrow> M. sint (limit_of r i)) = (\<Sum>x \<leftarrow> map (limit_of r) M. sint x)" for r M
    by (simp add: comp_def)
  show ?thesis unfolding no_overflow_def all sum limits_place ..
qed

lemma committed_place:
  assumes "k < length L" and "i_NodeID (L ! k) = ''''" and "n_ID n \<noteq> ''''"
  shows "committed r nid (place n k L) =
     committed r nid L + (if nid = n_ID n then sint (limit_of r (L ! k)) else 0)"
proof -
  have L: "L = take k L @ L ! k # drop (Suc k) L" using assms(1) by (rule id_take_nth_drop)
  have P: "place n k L = take k L @ (L ! k)\<lparr>i_NodeID := n_ID n\<rparr> # drop (Suc k) L"
    using assms(1) by (simp add: place_def upd_conv_take_nth_drop)
  show ?thesis
    unfolding P by (subst (3) L) (use assms in \<open>simp add: committed_append committed_Cons\<close>)
qed

lemma Schedule_node:
  assumes "no_overflow L"
  shows "case sr_Node (fst (BinPacking_Schedule nodes L req)) of
      None \<Rightarrow> (\<forall>n \<in> set nodes. \<not> can_host n L req) \<and>
        BinPacking_Schedule nodes L req =
          (\<lparr>sr_Node = None, sr_ScaleOutRequired = True\<rparr>, Some (Sentinel (SchedulerErr ErrNoCapacity)))
    | Some n \<Rightarrow> n \<in> set nodes \<and> can_host n L req \<and>
        BinPacking_Schedule nodes L req = (\<lparr>sr_Node = Some n, sr_ScaleOutRequired = False\<rparr>, None)"
  by (cases rule: Schedule_cases [OF assms, of req nodes, case_names none some])
    (auto simp: filter_empty_conv)

text \<open>What stays and what grows along the loop.\<close>

definition node_ids_ok :: "node list \<Rightarrow> bool" where
  "node_ids_ok nodes \<longleftrightarrow> distinct (map n_ID nodes) \<and> (\<forall>n \<in> set nodes. n_ID n \<noteq> '''')"

lemma place_loop_step:
  assumes "no_overflow L" and "node_ids_ok nodes" and "k < length L" and "i_NodeID (L ! k) = ''''"
    and "sr_Node (fst (BinPacking_Schedule nodes L (request_for (L ! k)))) = Some n"
  shows "n \<in> set nodes" and "n_Status n = NodeStatusOnline" and "n_ID n \<noteq> ''''"
    and "m \<in> set nodes \<Longrightarrow> within_capacity m L \<Longrightarrow> within_capacity m (place n k L)"
    and "committed r nid L \<le> committed r nid (place n k L)"
proof -
  have n: "n \<in> set nodes" "can_host n L (request_for (L ! k))"
    using Schedule_node [OF assms(1), of nodes "request_for (L ! k)"] assms(5) by simp_all
  then show "n \<in> set nodes" "n_Status n = NodeStatusOnline" by (simp_all add: can_host_def)
  from n(1) assms(2) show id: "n_ID n \<noteq> ''''" by (simp add: node_ids_ok_def)
  note c = committed_place [OF assms(3,4) id]
  have "0 \<le> sint (limit_of r (L ! k))" for r using assms(1,3) by (auto simp: no_overflow_def)
  then show "committed r nid L \<le> committed r nid (place n k L)" by (simp add: c)
  show "within_capacity m (place n k L)" if m: "m \<in> set nodes" "within_capacity m L"
  proof (cases "n_ID m = n_ID n")
    case True
    with m n assms(2) have "m = n" by (auto simp: node_ids_ok_def distinct_map inj_on_def)
    with n(2) c show ?thesis by (simp add: within_capacity_def can_host_def)
  next
    case False
    with m c show ?thesis by (simp add: within_capacity_def)
  qed
qed

definition placed_from :: "node list \<Rightarrow> inst \<Rightarrow> inst \<Rightarrow> bool" where
  "placed_from nodes i i' \<longleftrightarrow> i' = i \<or> i_NodeID i = '''' \<and>
     (\<exists>n \<in> set nodes. n_Status n = NodeStatusOnline \<and> n_ID n \<noteq> '''' \<and> i' = i\<lparr>i_NodeID := n_ID n\<rparr>)"

lemma placed_from_refl [simp]: "placed_from nodes i i"
  by (simp add: placed_from_def)

lemma placed_from_placed: "i_NodeID i \<noteq> '''' \<Longrightarrow> placed_from nodes i i' \<Longrightarrow> i' = i"
  by (simp add: placed_from_def)

lemma place_loop_grows:
  assumes "no_overflow L" and "node_ids_ok nodes" and "\<forall>k \<in> set ks. k < length L"
    and "place_loop nodes ks L b = (b', L')"
  shows "length L' = length L \<and> no_overflow L' \<and> committed r nid L \<le> committed r nid L' \<and>
     (\<forall>m \<in> set nodes. within_capacity m L \<longrightarrow> within_capacity m L') \<and> (b \<longrightarrow> b') \<and>
     (\<forall>j. (j \<notin> set ks \<longrightarrow> L' ! j = L ! j) \<and> placed_from nodes (L ! j) (L' ! j))"
  using assms
proof (induction ks arbitrary: L b)
  case (Cons k ks)
  show ?case
  proof (cases "i_NodeID (L ! k) = ''''")
    case False
    with Cons.prems have "place_loop nodes ks L b = (b', L')" "\<forall>k \<in> set ks. k < length L" by simp_all
    from Cons.IH [OF Cons.prems(1,2) this(2,1)] False show ?thesis by auto
  next
    case empty: True
    show ?thesis
    proof (cases "sr_Node (fst (BinPacking_Schedule nodes L (request_for (L ! k))))")
      case None
      with Cons.prems empty have "place_loop nodes ks L True = (b', L')" "\<forall>k \<in> set ks. k < length L" by simp_all
      from Cons.IH [OF Cons.prems(1,2) this(2,1)] show ?thesis by auto
    next
      case (Some n)
      from Cons.prems have k: "k < length L" by simp
      note st = place_loop_step [OF Cons.prems(1,2) k empty Some]
      from Some Cons.prems empty have p: "place_loop nodes ks (place n k L) b = (b', L')"
        and ks: "\<forall>j \<in> set ks. j < length (place n k L)" "no_overflow (place n k L)" by simp_all
      note ih = Cons.IH [OF ks(2) Cons.prems(2) ks(1) p]
      have "committed r nid L \<le> committed r nid L'" using ih st(5) by (meson order_trans)
      moreover have "(j \<notin> set (k # ks) \<longrightarrow> L' ! j = L ! j) \<and> placed_from nodes (L ! j) (L' ! j)" for j
      proof (cases "j = k")
        case True
        have "i_NodeID (place n k L ! k) \<noteq> ''''" using st(3) by (simp add: nth_place [OF k])
        moreover have "placed_from nodes (place n k L ! k) (L' ! k)" using ih by blast
        ultimately have "L' ! k = (L ! k)\<lparr>i_NodeID := n_ID n\<rparr>"
          using placed_from_placed nth_place [OF k, of n k] by metis
        with True empty st(1-3) show ?thesis by (auto simp: placed_from_def)
      next
        case False
        with nth_place [OF k, of n j] have "place n k L ! j = L ! j" by simp
        with ih have "j \<notin> set ks \<longrightarrow> L' ! j = L ! j" "placed_from nodes (L ! j) (L' ! j)" by metis+
        then show ?thesis by simp
      qed
      ultimately show ?thesis using ih st(4) by auto
    qed
  qed
qed auto

lemma can_host_anti:
  assumes "\<And>r. committed r (n_ID n) L \<le> committed r (n_ID n) L'" and "can_host n L' req"
  shows "can_host n L req"
  using assms unfolding can_host_def by (meson add_right_mono order_trans)

text \<open>The flag, and why an instance is left without a node: no node had room, and none has at the end.\<close>

lemma place_loop_unplaced:
  assumes "no_overflow L" and "node_ids_ok nodes" and "distinct ks" and "\<forall>k \<in> set ks. k < length L"
    and "place_loop nodes ks L b = (b', L')"
  shows "(b' \<longleftrightarrow> b \<or> (\<exists>k \<in> set ks. i_NodeID (L' ! k) = '''')) \<and>
     (\<forall>k \<in> set ks. i_NodeID (L' ! k) = '''' \<longrightarrow> (\<forall>n \<in> set nodes. \<not> can_host n L' (request_for (L' ! k))))"
  using assms
proof (induction ks arbitrary: L b)
  case (Cons k ks)
  from Cons.prems have k: "k < length L" "k \<notin> set ks" and ks: "distinct ks" "\<forall>j \<in> set ks. j < length L"
    by simp_all
  show ?case
  proof (cases "i_NodeID (L ! k) = ''''")
    case False
    with Cons.prems have p: "place_loop nodes ks L b = (b', L')" by simp
    have "L' ! k = L ! k" using place_loop_grows [OF Cons.prems(1,2) ks(2) p] k(2) by blast
    with Cons.IH [OF Cons.prems(1,2) ks p] False show ?thesis by auto
  next
    case empty: True
    show ?thesis
    proof (cases "sr_Node (fst (BinPacking_Schedule nodes L (request_for (L ! k))))")
      case None
      with Cons.prems empty have p: "place_loop nodes ks L True = (b', L')" by simp
      have same: "L' ! k = L ! k" and grow: "committed r nid L \<le> committed r nid L'" for r nid
        using place_loop_grows [OF Cons.prems(1,2) ks(2) p] k(2) by blast+
      have "\<forall>n \<in> set nodes. \<not> can_host n L (request_for (L ! k))"
        using Schedule_node [OF Cons.prems(1), of nodes "request_for (L ! k)"] None by simp
      then have "\<forall>n \<in> set nodes. \<not> can_host n L' (request_for (L' ! k))"
        using can_host_anti [OF grow] unfolding same by blast
      with Cons.IH [OF Cons.prems(1,2) ks p] empty same show ?thesis by auto
    next
      case (Some n)
      note st = place_loop_step [OF Cons.prems(1,2) k(1) empty Some]
      from Some Cons.prems empty have p: "place_loop nodes ks (place n k L) b = (b', L')" by simp
      from ks Cons.prems(1) have pre: "no_overflow (place n k L)" "\<forall>j \<in> set ks. j < length (place n k L)"
        by simp_all
      have "L' ! k = place n k L ! k" using place_loop_grows [OF pre(1) Cons.prems(2) pre(2) p] k(2) by blast
      then have "i_NodeID (L' ! k) \<noteq> ''''" using st(3) k(1) by (simp add: nth_place)
      with Cons.IH [OF pre(1) Cons.prems(2) ks(1) pre(2) p] show ?thesis by auto
    qed
  qed
qed simp

section \<open>The loop on an instance store\<close>

lemma refresh_nth:
  "distinct (map i_ID L) \<Longrightarrow> k < length L \<Longrightarrow> i_ID p = i_ID (L ! k) \<Longrightarrow> refresh p L = L[k := p]"
proof (induction L arbitrary: k)
  case (Cons x xs)
  show ?case
  proof (cases k)
    case (Suc j)
    with Cons.prems have "i_ID x \<noteq> i_ID p" by auto
    with Suc Cons show ?thesis by simp
  qed (use Cons.prems in simp)
qed simp

text \<open>The slice and the rows say the same, up to the timestamps.\<close>

definition tracks :: "inst list \<Rightarrow> (string \<Rightarrow> inst option) \<Rightarrow> bool" where
  "tracks L T \<longleftrightarrow> distinct (map i_ID L) \<and> (\<forall>i \<in> set L. \<exists>i'. T (i_ID i) = Some i' \<and> inst_data i' = inst_data i)"

lemma map_id_place [simp]: "map i_ID (place n k L) = map i_ID L"
  by (simp add: place_def map_update) (metis list_update_beyond list_update_id map_update not_le nth_map)

lemma tracks_place:
  assumes "tracks L T" and "k < length L" and "inst_data i' = inst_data ((L ! k)\<lparr>i_NodeID := n_ID n\<rparr>)"
  shows "tracks (place n k L) (T(i_ID (L ! k) \<mapsto> i'))"
proof -
  have "\<exists>x'. (T(i_ID (L ! k) \<mapsto> i')) (i_ID x) = Some x' \<and> inst_data x' = inst_data x"
    if x: "x \<in> set (place n k L)" for x
  proof -
    from x obtain j where j: "j < length L" "x = place n k L ! j" by (auto simp: in_set_conv_nth)
    show ?thesis
    proof (cases "j = k")
      case True
      with j assms show ?thesis by (simp add: nth_place)
    next
      case False
      with j assms(1,2) have "i_ID (L ! j) \<noteq> i_ID (L ! k)"
        by (auto simp: tracks_def distinct_conv_nth)
      with j False assms(1,2) show ?thesis by (simp add: nth_place tracks_def)
    qed
  qed
  with assms(1) show ?thesis by (simp add: tracks_def)
qed

context lenient_instance_repo
begin

text \<open>With \<open>BinPacking\<close> and a store that keeps its contract the loop never panics and computes the pure bin
  packing; rows of other instances, and rows of instances that are not placed, stay as they are.\<close>

lemma schedule_loop_refines:
  assumes "inv w" and "tracks L (insts w)" and "no_overflow L" and "node_ids_ok nodes"
    and "\<forall>k \<in> set ks. k < length L" and "place_loop nodes ks L b = (b', L')"
  shows "\<exists>w'. schedule_loop R BinPacking_Schedule nodes ks L b w = Some (b', L', w') \<and>
     inv w' \<and> rest w' = rest w \<and> tracks L' (insts w') \<and>
     (\<forall>x. x \<notin> i_ID ` set L \<longrightarrow> insts w' x = insts w x) \<and>
     (\<forall>j < length L. L' ! j = L ! j \<longrightarrow> insts w' (i_ID (L ! j)) = insts w (i_ID (L ! j)))"
  using assms
proof (induction ks arbitrary: L b w)
  case (Cons k ks)
  from Cons.prems have k: "k < length L" and ks: "\<forall>j \<in> set ks. j < length L" by simp_all
  note sched = Schedule_node [OF Cons.prems(3), of nodes "request_for (L ! k)"]
  show ?case
  proof (cases "i_NodeID (L ! k) = ''''")
    case False
    with Cons.prems have p: "place_loop nodes ks L b = (b', L')" by simp
    from Cons.IH [OF Cons.prems(1-4) ks p] False show ?thesis by (simp add: Let_def)
  next
    case empty: True
    show ?thesis
    proof (cases "sr_Node (fst (BinPacking_Schedule nodes L (request_for (L ! k))))")
      case None
      with Cons.prems empty have p: "place_loop nodes ks L True = (b', L')" by simp
      from Cons.IH [OF Cons.prems(1-4) ks p] empty None sched show ?thesis by (simp add: Let_def)
    next
      case (Some n)
      note st = place_loop_step [OF Cons.prems(3,4) k empty Some]
      let ?p = "(L ! k)\<lparr>i_NodeID := n_ID n\<rparr>"
      from Some Cons.prems empty have p: "place_loop nodes ks (place n k L) b = (b', L')" by simp
      obtain row where row: "insts w (i_ID (L ! k)) = Some row" "inst_data row = inst_data (L ! k)"
        using Cons.prems(2) nth_mem [OF k] unfolding tracks_def by blast
      note f = inst_data_fields [OF row(2)]
      have "\<exists>i' w'. UpdateInstance R ?p w = (Inr i', w')"
      proof (rule update_total [OF Cons.prems(1)])
        show "insts w (i_ID ?p) \<noteq> None" using row by simp
        show "x = i_ID ?p" if "insts w x = Some j" "i_ClusterID j = i_ClusterID ?p" "i_Name j = i_Name ?p" for x j
          using inst_name [OF Cons.prems(1) that(1) row(1)] that(2,3) f by simp
      qed
      then obtain i' w1 where u: "UpdateInstance R ?p w = (Inr i', w1)" by blast
      note u' = update_ok [OF Cons.prems(1) u]
      have ref: "refresh ?p L = place n k L"
        using Cons.prems(2) k by (simp add: refresh_nth tracks_def place_def)
      have t: "tracks (place n k L) (insts w1)"
        using tracks_place [OF Cons.prems(2) k, of i' n] u' by simp
      from Cons.prems(3) ks have pre: "no_overflow (place n k L)" "\<forall>j \<in> set ks. j < length (place n k L)" by simp_all
      note ih = Cons.IH [OF u' [THEN conjunct1] t pre(1) Cons.prems(4) pre(2) p, unfolded length_place]
      then obtain w' where
        w': "schedule_loop R BinPacking_Schedule nodes ks (place n k L) b w1 = Some (b', L', w')"
          "inv w'" "rest w' = rest w1" "tracks L' (insts w')"
          "\<forall>x. x \<notin> i_ID ` set (place n k L) \<longrightarrow> insts w' x = insts w1 x"
          "\<forall>j < length L. L' ! j = place n k L ! j \<longrightarrow> insts w' (i_ID (place n k L ! j)) = insts w1 (i_ID (place n k L ! j))"
        by blast
      have ids: "i_ID ` set (place n k L) = i_ID ` set L"
        by (metis list.set_map map_id_place)
      have new: "i_NodeID (L' ! k) \<noteq> ''''"
      proof -
        have "placed_from nodes (place n k L ! k) (L' ! k)"
          using place_loop_grows [OF pre(1) Cons.prems(4) pre(2) p] by blast
        with st(3) k show ?thesis using placed_from_placed [of "place n k L ! k" nodes "L' ! k"]
          by (simp add: nth_place)
      qed
      have "insts w' (i_ID (L ! j)) = insts w (i_ID (L ! j))" if j: "j < length L" "L' ! j = L ! j" for j
      proof -
        from j new empty have jk: "j \<noteq> k" by auto
        with k have e: "place n k L ! j = L ! j" by (simp add: nth_place)
        from Cons.prems(2) j k jk have "i_ID (L ! j) \<noteq> i_ID (L ! k)"
          by (auto simp: tracks_def distinct_conv_nth)
        with u' have "insts w1 (i_ID (L ! j)) = insts w (i_ID (L ! j))" by simp
        with w'(6) [rule_format, OF j(1)] j(2) e show ?thesis by simp
      qed
      then have unplaced: "\<forall>j < length L. L' ! j = L ! j \<longrightarrow> insts w' (i_ID (L ! j)) = insts w (i_ID (L ! j))" by blast
      have "insts w' x = insts w x" if "x \<notin> i_ID ` set L" for x
      proof -
        from that k have "x \<noteq> i_ID (L ! k)" by auto
        with u' have "insts w1 x = insts w x" by simp
        with w'(5) [rule_format, of x] that ids show ?thesis by simp
      qed
      then have others: "\<forall>x. x \<notin> i_ID ` set L \<longrightarrow> insts w' x = insts w x" by blast
      have "schedule_loop R BinPacking_Schedule nodes (k # ks) L b w = Some (b', L', w')"
        using empty Some sched u ref w'(1) by (simp add: Let_def)
      with w'(2-4) u' unplaced others show ?thesis by (intro exI [of _ w'] conjI) simp_all
    qed
  qed
qed auto

end

section \<open>The pass cannot panic\<close>

text \<open>\<open>BinPacking\<close> never returns a nil node with a nil error, whatever the limits add up to.\<close>

lemma BinPacking_node: "BinPacking_Schedule nodes L req = (res, None) \<Longrightarrow> sr_Node res \<noteq> None"
  by (auto simp: BinPacking_Schedule_def Let_def split: if_splits)

lemma schedule_loop_total:
  "\<exists>b L' w'. schedule_loop R BinPacking_Schedule nodes ks L b0 w = Some (b, L', w')"
proof (induction ks arbitrary: L b0 w)
  case (Cons k ks)
  obtain res e where s: "BinPacking_Schedule nodes L (request_for (L ! k)) = (res, e)" by fastforce
  show ?case
  proof (cases e)
    case None
    with s BinPacking_node obtain n where "sr_Node res = Some n" by blast
    with s None Cons.IH show ?thesis by (auto simp: Let_def split: prod.split sum.split)
  next
    case (Some err)
    with s Cons.IH show ?thesis by (auto simp: Let_def)
  qed
qed simp

lemma scheduleCluster_total:
  assumes "o_scheduler orch = None \<or> o_scheduler orch = Some BinPacking_Schedule"
  shows "\<exists>b w'. scheduleCluster orch c w = Some (b, w')"
proof (cases "\<exists>N I. o_scheduler orch = Some BinPacking_Schedule \<and> o_nodeRepo orch = Some N \<and> o_instanceRepo orch = Some I")
  case True
  then obtain N I where orch: "o_scheduler orch = Some BinPacking_Schedule" "o_nodeRepo orch = Some N"
    "o_instanceRepo orch = Some I" by blast
  obtain ns w1 where ns: "ListNodes N (c_ID c) w = (ns, w1)" by fastforce
  show ?thesis
  proof (cases ns)
    case nodes: (Inr nodes)
    obtain il w2 where il: "ListInstances I (c_ID c) w1 = (il, w2)" by fastforce
    show ?thesis
    proof (cases il)
      case (Inr L)
      obtain b L' w' where "schedule_loop I BinPacking_Schedule nodes [0..<length L] L False w2 = Some (b, L', w')"
        using schedule_loop_total [of I nodes "[0..<length L]" L False w2] by blast
      with orch ns nodes il Inr show ?thesis by (simp add: scheduleCluster_def)
    qed (use orch ns nodes il in \<open>auto simp: scheduleCluster_def\<close>)
  qed (use orch ns in \<open>auto simp: scheduleCluster_def\<close>)
next
  case False
  with assms show ?thesis by (auto simp: scheduleCluster_def split: option.split)
qed

lemma reconcileCluster_total:
  assumes "o_scheduler orch = None \<or> o_scheduler orch = Some BinPacking_Schedule"
  shows "\<exists>w'. reconcileCluster rnd orch c w = Some w'"
proof -
  obtain b w' where "scheduleCluster orch c (sync_step (o_instanceSyncer orch) (c_ID c) (sync_step (o_nodeSyncer orch) (c_ID c) w)) = Some (b, w')"
    using scheduleCluster_total [OF assms] by blast
  then show ?thesis by (auto simp: reconcileCluster_def Let_def split: option.split)
qed

lemma reconcile_all_total:
  assumes "o_scheduler orch = None \<or> o_scheduler orch = Some BinPacking_Schedule"
  shows "\<exists>w'. reconcile_all rnd orch cs w = Some w'"
proof (induction cs arbitrary: w)
  case (Cons c cs)
  obtain w1 where "reconcileCluster rnd orch c w = Some w1" using reconcileCluster_total [OF assms] by blast
  with Cons show ?case by simp
qed simp

lemma reconcile_total:
  assumes "o_scheduler orch = None \<or> o_scheduler orch = Some BinPacking_Schedule"
  shows "\<exists>w'. reconcile rnd orch w = Some w'"
  using reconcile_all_total [OF assms] by (auto simp: reconcile_def split: option.split sum.split prod.split)



end
