(* ===== verification/Guard.thy ===== *)
theory Guard
  imports Repository
begin

section \<open>The start-up guard (internal/bootstrap/guard.go)\<close>

text \<open>
  \<open>Guard.Run\<close> with its optional lock, and the same run as the atomic steps of one manager among
  several that share the repository and the lock. \<open>guard_step\<close> is one call of a manager; the deferred
  unlock is a step of its own. The locale \<open>guard_system\<close> proves mutual
  exclusion from the contracts of lock and repository.
\<close>

type_synonym 'w coordinator = "'w \<Rightarrow> go_error option \<times> 'w"

text \<open>What runs under the lock (or without one).\<close>

definition guard_body :: "'w cluster_repository \<Rightarrow> 'w coordinator \<Rightarrow> 'w \<Rightarrow> go_error option \<times> 'w" where
  "guard_body repo coordinator w =
     (case ListClusters repo w of
        (Inl err, w1) \<Rightarrow> (Some (Wrapf ''bootstrap guard: list clusters: %w'' [] err), w1)
      | (Inr clusters, w1) \<Rightarrow> if clusters \<noteq> [] then (None, w1) else coordinator w1)"

definition Guard_Run ::
    "'w cluster_repository \<Rightarrow> 'w bootstrap_locker option \<Rightarrow> bool \<Rightarrow> 'w coordinator \<Rightarrow> 'w \<Rightarrow>
     go_error option \<times> 'w" where
  "Guard_Run repo lock enabled coordinator w =
     (if \<not> enabled then (None, w)
      else case lock of
        None \<Rightarrow> guard_body repo coordinator w
      | Some l \<Rightarrow>
          (case TryLock l w of
             (Inl err, w1) \<Rightarrow> (Some (Wrapf ''bootstrap guard: acquire lock: %w'' [] err), w1)
           | (Inr acquired, w1) \<Rightarrow>
               if \<not> acquired then (None, w1)
               else
                 (let (r, w2) = guard_body repo coordinator w1;
                      (_, w3) = Unlock l w2
                  in (r, w3))))"

text \<open>A guard with its options; \<open>Run\<close> reads the two fields.\<close>

record 'w Guard =
  gd_repo :: "'w cluster_repository"
  gd_locker :: "'w bootstrap_locker option"

definition WithLocker :: "'w bootstrap_locker \<Rightarrow> 'w Guard \<Rightarrow> 'w Guard" where
  "WithLocker l g = g\<lparr>gd_locker := Some l\<rparr>"

definition NewGuard :: "'w cluster_repository \<Rightarrow> ('w Guard \<Rightarrow> 'w Guard) list \<Rightarrow> 'w Guard" where
  "NewGuard repo opts = fold (\<lambda>opt g. opt g) opts \<lparr>gd_repo = repo, gd_locker = None\<rparr>"

lemma NewGuard_fields [simp]:
  "gd_repo (NewGuard repo [WithLocker l]) = repo" "gd_locker (NewGuard repo [WithLocker l]) = Some l"
  by (simp_all add: NewGuard_def WithLocker_def)

text \<open>The coordinator that the manager program installs.\<close>

definition noopCoordinator :: "'w coordinator" where
  "noopCoordinator w = (None, w)"

section \<open>Several managers\<close>

text \<open>Where one manager is in \<open>Guard.Run\<close>: before the lock, before the listing, before the coordinator,
  before the unlock (with the result to return), returned.\<close>

datatype guard_pc = Start | Locked | Chosen | Unlocking "go_error option" | Returned "go_error option"

inductive guard_step ::
    "'w cluster_repository \<Rightarrow> 'w bootstrap_locker \<Rightarrow> 'w coordinator \<Rightarrow> guard_pc \<Rightarrow> 'w \<Rightarrow> guard_pc \<Rightarrow> 'w \<Rightarrow> bool"
  for repo l coordinator where
  lock_error: "TryLock l w = (Inl err, w') \<Longrightarrow> guard_step repo l coordinator Start w
      (Returned (Some (Wrapf ''bootstrap guard: acquire lock: %w'' [] err))) w'"
| lock_busy: "TryLock l w = (Inr False, w') \<Longrightarrow> guard_step repo l coordinator Start w (Returned None) w'"
| lock_got: "TryLock l w = (Inr True, w') \<Longrightarrow> guard_step repo l coordinator Start w Locked w'"
| list_error: "ListClusters repo w = (Inl err, w') \<Longrightarrow> guard_step repo l coordinator Locked w
      (Unlocking (Some (Wrapf ''bootstrap guard: list clusters: %w'' [] err))) w'"
| list_some: "ListClusters repo w = (Inr (c # cs), w') \<Longrightarrow> guard_step repo l coordinator Locked w (Unlocking None) w'"
| list_none: "ListClusters repo w = (Inr [], w') \<Longrightarrow> guard_step repo l coordinator Locked w Chosen w'"
| run: "coordinator w = (r, w') \<Longrightarrow> guard_step repo l coordinator Chosen w (Unlocking r) w'"
| unlock: "Unlock l w = (u, w') \<Longrightarrow> guard_step repo l coordinator (Unlocking r) w (Returned r) w'"

inductive_cases guard_stepE: "guard_step repo l coordinator pc w pc' w'"
inductive_simps guard_step_Start: "guard_step repo l coordinator Start w pc' w'"
inductive_simps guard_step_Locked: "guard_step repo l coordinator Locked w pc' w'"
inductive_simps guard_step_Chosen: "guard_step repo l coordinator Chosen w pc' w'"
inductive_simps guard_step_Unlocking: "guard_step repo l coordinator (Unlocking r) w pc' w'"

lemmas guard_step_from = guard_step_Start guard_step_Locked guard_step_Chosen guard_step_Unlocking

definition critical :: "guard_pc \<Rightarrow> bool" where
  "critical pc \<longleftrightarrow> (case pc of Locked \<Rightarrow> True | Chosen \<Rightarrow> True | Unlocking _ \<Rightarrow> True | _ \<Rightarrow> False)"

lemma critical_simps [simp]:
  "\<not> critical Start" "critical Locked" "critical Chosen" "critical (Unlocking r)" "\<not> critical (Returned r)"
  by (simp_all add: critical_def)

text \<open>One manager alone.\<close>

inductive guard_steps ::
    "'w cluster_repository \<Rightarrow> 'w bootstrap_locker \<Rightarrow> 'w coordinator \<Rightarrow> guard_pc \<Rightarrow> 'w \<Rightarrow> guard_pc \<Rightarrow> 'w \<Rightarrow> bool"
  for repo l coordinator where
  stop: "guard_steps repo l coordinator pc w pc w"
| step: "guard_step repo l coordinator pc w pc1 w1 \<Longrightarrow> guard_steps repo l coordinator pc1 w1 pc2 w2 \<Longrightarrow>
     guard_steps repo l coordinator pc w pc2 w2"

text \<open>Any number of managers, each with its own lock object: each step is a step of one of them.\<close>

inductive managers_step ::
    "'w cluster_repository \<Rightarrow> (nat \<Rightarrow> 'w bootstrap_locker) \<Rightarrow> 'w coordinator \<Rightarrow>
     (nat \<Rightarrow> guard_pc) \<times> 'w \<Rightarrow> (nat \<Rightarrow> guard_pc) \<times> 'w \<Rightarrow> bool"
  for repo l coordinator where
  "guard_step repo (l m) coordinator (pcs m) w pc' w' \<Longrightarrow>
     managers_step repo l coordinator (pcs, w) (pcs(m := pc'), w')"

lemma unlocking_steps:
  "guard_steps repo l coordinator (Unlocking r) w (Returned r') w' \<longleftrightarrow> r' = r \<and> w' = snd (Unlock l w)"
proof -
  have ret: "guard_steps repo l coordinator (Returned a) v pc v' \<longleftrightarrow> pc = Returned a \<and> v' = v" for a v pc v'
    by (auto elim: guard_steps.cases guard_step.cases intro: guard_steps.stop)
  show ?thesis
    by (cases "Unlock l w") (subst guard_steps.simps, auto simp: guard_step_Unlocking ret)
qed

text \<open>A manager that is not disturbed computes what \<open>Guard.Run\<close> computes.\<close>

lemma steps_Guard_Run:
  "guard_steps repo l coordinator Start w (Returned r) w' \<longleftrightarrow>
     Guard_Run repo (Some l) True coordinator w = (r, w')"
proof -
  have ret: "guard_steps repo l coordinator (Returned a) v pc v' \<longleftrightarrow> pc = Returned a \<and> v' = v" for a v pc v'
    by (auto elim: guard_steps.cases guard_step.cases intro: guard_steps.stop)
  have chosen: "guard_steps repo l coordinator Chosen v (Returned r) w' \<longleftrightarrow>
      (\<exists>v1. coordinator v = (r, v1) \<and> w' = snd (Unlock l v1))" for v
    by (subst guard_steps.simps) (auto simp: guard_step_Chosen unlocking_steps)
  have nil: "(\<forall>y ys. xs \<noteq> y # ys) \<longleftrightarrow> xs = []" for xs :: "cluster list"
    by (cases xs) auto
  have locked: "guard_steps repo l coordinator Locked v (Returned r) w' \<longleftrightarrow>
      (\<exists>v1. guard_body repo coordinator v = (r, v1) \<and> w' = snd (Unlock l v1))" for v
    by (subst guard_steps.simps)
      (auto simp: guard_step_Locked unlocking_steps chosen guard_body_def neq_Nil_conv nil split: sum.splits prod.splits)
  show ?thesis
    by (subst guard_steps.simps)
      (auto simp: guard_step_Start ret locked Guard_Run_def split: sum.splits prod.splits if_splits)
qed

section \<open>Mutual exclusion\<close>

text \<open>
  The contract of the coordinator: it leaves the lock alone. \<open>bare\<close> tells that no cluster is registered.
\<close>

definition keeps_lock :: "('w \<Rightarrow> bool) \<Rightarrow> (nat \<Rightarrow> 'w \<Rightarrow> bool) \<Rightarrow> 'w coordinator \<Rightarrow> bool" where
  "keeps_lock ok holds coordinator \<longleftrightarrow>
     (\<forall>w r w'. coordinator w = (r, w') \<longrightarrow> ok w \<longrightarrow> ok w' \<and> (\<forall>k. holds k w' = holds k w))"

text \<open>
  At most one manager is between lock and unlock, it holds the lock then, and a manager that is about to
  run the coordinator is right that there is no cluster.
\<close>

definition guard_inv :: "('w \<Rightarrow> bool) \<Rightarrow> (nat \<Rightarrow> 'w \<Rightarrow> bool) \<Rightarrow> ('w \<Rightarrow> bool) \<Rightarrow> (nat \<Rightarrow> guard_pc) \<times> 'w \<Rightarrow> bool" where
  "guard_inv ok holds bare s \<longleftrightarrow>
     ok (snd s) \<and>
     (\<forall>m m'. critical (fst s m) \<longrightarrow> critical (fst s m') \<longrightarrow> m = m') \<and>
     (\<forall>m. critical (fst s m) \<longrightarrow> holds m (snd s)) \<and>
     (\<forall>m. fst s m = Chosen \<longrightarrow> bare (snd s))"

locale guard_system = lockers L holds inv rest
  for L :: "nat \<Rightarrow> 'w bootstrap_locker" and holds :: "nat \<Rightarrow> 'w \<Rightarrow> bool" and inv :: "'w \<Rightarrow> bool" and rest :: "'w \<Rightarrow> 'r" +
  fixes R :: "'w cluster_repository" and bare :: "'w \<Rightarrow> bool"
  assumes bare_rest: "rest w' = rest w \<Longrightarrow> bare w' = bare w"
    and list_frame: "inv w \<Longrightarrow> ListClusters R w = (r, w') \<Longrightarrow>
          inv w' \<and> (\<forall>k. holds k w' = holds k w) \<and> bare w' = bare w"
    and list_bare: "ListClusters R w = (Inr cs, w') \<Longrightarrow> (cs = []) = bare w"
begin

text \<open>What a step does to the lock, for a manager outside and inside the critical section.\<close>

lemma enter_step:
  assumes "guard_step R (L m) coordinator pc w pc' w'" and "\<not> critical pc" and "inv w"
  shows "inv w' \<and> bare w' = bare w \<and> pc' \<noteq> Chosen \<and>
     (if critical pc' then (\<forall>k. \<not> holds k w) \<and> holds m w' else \<forall>k. holds k w' = holds k w)"
  using assms
proof (cases rule: guard_step.cases)
  case (lock_error err)
  with assms(3) try_not [of w m "Inl err" w'] bare_rest [of w' w] show ?thesis by simp
next
  case lock_busy
  with assms(3) try_not [of w m "Inr False" w'] bare_rest [of w' w] show ?thesis by simp
next
  case lock_got
  with assms(3) try_true [of w m w'] bare_rest [of w' w] show ?thesis by simp
qed simp_all

lemma inside_step:
  assumes "guard_step R (L m) coordinator pc w pc' w'" and "critical pc" and "keeps_lock inv holds coordinator"
    and "pc = Chosen \<longrightarrow> bare w" and "holds m w" and "inv w"
  shows "inv w' \<and> (critical pc' \<longrightarrow> holds m w') \<and> (pc' = Chosen \<longrightarrow> bare w')"
  using assms
proof (cases rule: guard_step.cases)
  case (list_error err)
  with assms list_frame [of w "Inl err" w'] show ?thesis by simp
next
  case (list_some c cs)
  with assms list_frame [of w "Inr (c # cs)" w'] show ?thesis by simp
next
  case list_none
  with assms list_frame [of w "Inr []" w'] list_bare [of w "[]" w'] show ?thesis by simp
next
  case (run r)
  with assms show ?thesis by (simp add: keeps_lock_def)
next
  case (unlock u r)
  with assms(6) lockers.unlock [OF lockers_axioms, of w m u w'] show ?thesis by simp
qed simp_all

lemma managers_step_inv:
  assumes "managers_step R L coordinator s s'" and "guard_inv inv holds bare s" and "keeps_lock inv holds coordinator"
  shows "guard_inv inv holds bare s'"
  using assms(1)
proof cases
  case (1 m pcs w pc' w')
  note inv = assms(2) [unfolded guard_inv_def 1 fst_conv snd_conv]
  show ?thesis
  proof (cases "critical (pcs m)")
    case True
    with inv have "holds m w" "pcs m = Chosen \<longrightarrow> bare w" "inv w" and alone: "\<And>k. critical (pcs k) \<Longrightarrow> k = m" by blast+
    note s = inside_step [OF 1(3) True assms(3) this(2,1,3)]
    have "pcs k \<noteq> Chosen" if "k \<noteq> m" for k using alone [of k] that by auto
    with 1 s alone show ?thesis by (auto simp: guard_inv_def)
  next
    case False
    from inv have "inv w" by blast
    note s = enter_step [OF 1(3) False this]
    have "\<not> critical (pcs k)" if "critical pc'" for k using inv s that by auto
    with 1 s inv show ?thesis by (auto simp: guard_inv_def split: if_splits)
  qed
qed

lemma guard_reach:
  assumes "(managers_step R L coordinator)\<^sup>*\<^sup>* (\<lambda>m. Start, w) s" and "keeps_lock inv holds coordinator" and "inv w"
  shows "guard_inv inv holds bare s"
  using assms(1)
proof (induction rule: rtranclp_induct)
  case base
  show ?case using assms(3) by (simp add: guard_inv_def)
next
  case (step s t)
  from managers_step_inv [OF step(2,3) assms(2)] show ?case .
qed

end

end
