(* ===== verification/Formation.thy ===== *)
theory Formation
  imports World Workflow Guard
begin

section \<open>Cluster formation on LXD nodes and stores\<close>

text \<open>
  The bootstrap code on the state \<open>world\<close>: \<open>bootstrap_pair\<close> is interpreted on two LXD nodes, and
  \<open>guard_system\<close> on the in-memory lock and cluster store.
\<close>

lemma lxd_at_clustering:
  "Client_GetClusterStatus (lxd_at ep) w =
     (Inr (case f_clusterStatus (w_lxd w ep) of
             None \<Rightarrow> \<lparr>cs_Enabled = f_clustered (w_lxd w ep), cs_ServerName = '''', cs_ClusterAddress = ''''\<rparr>
           | Some s \<Rightarrow> s), w)"
  "Client_GetClusterCertificate (lxd_at ep) w =
     (if f_certificate (w_lxd w ep) = ''''
      then Inl (Errorf ''fake lxd: get cluster certificate: no certificate seeded'' [])
      else Inr (f_certificate (w_lxd w ep)), w)"
  "Client_InitCluster (lxd_at ep) ic w =
     (fst (Fake_InitCluster ic (w_lxd w ep)), w\<lparr>w_lxd := (w_lxd w)(ep := snd (Fake_InitCluster ic (w_lxd w ep)))\<rparr>)"
  "Client_JoinCluster (lxd_at ep) jc w =
     (fst (Fake_JoinCluster jc (w_lxd w ep)), w\<lparr>w_lxd := (w_lxd w)(ep := snd (Fake_JoinCluster jc (w_lxd w ep)))\<rparr>)"
  by (auto simp: lxd_at_def fake_client_def lift_fake_def Fake_GetClusterStatus_def
      Fake_GetClusterCertificate_def split: option.splits prod.splits)

text \<open>
  The node at \<open>ep\<close> keeps the clustering contract: its two records of the clustering state agree, and an
  injected error is not the error that reports a clustered node.
\<close>

definition steady :: "Fake \<Rightarrow> bool" where
  "steady f \<longleftrightarrow> fake_ok f \<and>
     (\<forall>e. f_InitError f = Some e \<or> f_JoinError f = Some e \<longrightarrow> \<not> already_bootstrapped e)"

lemma Fake_InitCluster_effect:
  assumes "steady f"
  shows "steady (snd (Fake_InitCluster ic f)) \<and>
     (case fst (Fake_InitCluster ic f) of
        None \<Rightarrow> \<not> f_clustered f \<and> f_clustered (snd (Fake_InitCluster ic f))
      | Some e \<Rightarrow> f_clustered (snd (Fake_InitCluster ic f)) = f_clustered f \<and>
          already_bootstrapped e = (f_clustered f \<and> f_InitError f = None))"
  using assms by (auto simp: steady_def fake_ok_def fake_simps already_bootstrapped_def Let_def split: option.splits)

lemma Fake_JoinCluster_effect:
  assumes "steady f"
  shows "steady (snd (Fake_JoinCluster jc f)) \<and>
     (case fst (Fake_JoinCluster jc f) of
        None \<Rightarrow> \<not> f_clustered f \<and> f_clustered (snd (Fake_JoinCluster jc f))
      | Some e \<Rightarrow> f_clustered (snd (Fake_JoinCluster jc f)) = f_clustered f \<and>
          already_bootstrapped e = (f_clustered f \<and> f_JoinError f = None))"
  using assms by (auto simp: steady_def fake_ok_def fake_simps already_bootstrapped_def Let_def split: option.splits)

lemma steady_status:
  "steady f \<Longrightarrow> cs_Enabled (case f_clusterStatus f of
      None \<Rightarrow> \<lparr>cs_Enabled = f_clustered f, cs_ServerName = '''', cs_ClusterAddress = ''''\<rparr> | Some s \<Rightarrow> s) =
    f_clustered f"
  by (auto simp: steady_def fake_ok_def split: option.splits)

text \<open>The nodes other than \<open>ep\<close>, and the stores.\<close>

definition others :: "string \<Rightarrow> 'z world_scheme \<Rightarrow> (string \<Rightarrow> Fake option) \<times> 'z world_scheme" where
  "others ep w = (\<lambda>e. if e = ep then None else Some (w_lxd w e), w\<lparr>w_lxd := \<lambda>_. New\<rparr>)"

lemma others_upd [simp]: "others ep (w\<lparr>w_lxd := (w_lxd w)(ep := f)\<rparr>) = others ep w"
  by (auto simp: others_def)

interpretation lxd_node: lxd_clustering "lxd_at ep" "\<lambda>w. f_clustered (w_lxd w ep)"
  "\<lambda>w. \<forall>e. steady (w_lxd w e)" "others ep" for ep
proof (unfold_locales, goal_cases)
  case (5 w ic r w')
  then show ?case
    using Fake_InitCluster_effect [of "w_lxd w ep" ic] by (auto simp: lxd_at_clustering)
next
  case (6 w ic w')
  then show ?case
    using Fake_InitCluster_effect [of "w_lxd w ep" ic] by (auto simp: lxd_at_clustering)
next
  case (7 w ic e w')
  then show ?case
    using Fake_InitCluster_effect [of "w_lxd w ep" ic] by (auto simp: lxd_at_clustering)
next
  case (8 w ic e w')
  then show ?case
    using Fake_InitCluster_effect [of "w_lxd w ep" ic] by (auto simp: lxd_at_clustering already_bootstrapped_def)
next
  case (9 w jc r w')
  then show ?case
    using Fake_JoinCluster_effect [of "w_lxd w ep" jc] by (auto simp: lxd_at_clustering)
next
  case (10 w jc w')
  then show ?case
    using Fake_JoinCluster_effect [of "w_lxd w ep" jc] by (auto simp: lxd_at_clustering)
next
  case (11 w jc e w')
  then show ?case
    using Fake_JoinCluster_effect [of "w_lxd w ep" jc] by (auto simp: lxd_at_clustering)
next
  case (12 w jc e w')
  then show ?case
    using Fake_JoinCluster_effect [of "w_lxd w ep" jc] by (auto simp: lxd_at_clustering already_bootstrapped_def)
qed (auto simp: lxd_at_clustering lxd_at_reads steady_status)

text \<open>The contract for what a pair needs of the other node.\<close>

lemma lxd_clustering_weaken:
  assumes "lxd_clustering C cl iv oth" and "\<And>w w'. oth w' = oth w \<Longrightarrow> oth' w' = oth' w"
  shows "lxd_clustering C cl iv oth'"
proof -
  from assms(1) have c: "lxd_clustering C cl iv oth" .
  show ?thesis
    using c assms(2) unfolding lxd_clustering_def by meson
qed

text \<open>Two distinct endpoints are a pair: neither client touches the other node.\<close>

lemma bootstrap_pair_at:
  assumes "eps \<noteq> epj"
  shows "bootstrap_pair (lxd_at eps) (lxd_at epj) (\<lambda>w :: 'z world_scheme. f_clustered (w_lxd w eps))
     (\<lambda>w. f_clustered (w_lxd w epj)) (\<lambda>w. \<forall>e. steady (w_lxd w e))"
proof -
  have pair: "lxd_clustering (lxd_at a) (\<lambda>w :: 'z world_scheme. f_clustered (w_lxd w a))
      (\<lambda>w. \<forall>e. steady (w_lxd w e)) (\<lambda>w. f_clustered (w_lxd w b))" if "b \<noteq> a" for a b
  proof (rule lxd_clustering_weaken [OF lxd_node.lxd_clustering_axioms])
    fix w w' :: "'z world_scheme"
    assume "others a w' = others a w"
    with that show "f_clustered (w_lxd w' b) = f_clustered (w_lxd w b)"
      by (auto simp: others_def fun_eq_iff dest: spec [of _ b])
  qed
  show ?thesis
    unfolding bootstrap_pair_def using pair [of epj eps] pair [of eps epj] assms by blast
qed

interpretation pair: bootstrap_pair "lxd_at ''10.0.0.1:8443''" "lxd_at ''10.0.0.2:8443''"
  "\<lambda>w. f_clustered (w_lxd w ''10.0.0.1:8443'')" "\<lambda>w. f_clustered (w_lxd w ''10.0.0.2:8443'')"
  "\<lambda>w. \<forall>e. steady (w_lxd w e)"
  by (rule bootstrap_pair_at) simp

subsection \<open>The steps on two nodes\<close>

abbreviation upd_lxd :: "string \<Rightarrow> Fake \<Rightarrow> 'z world_scheme \<Rightarrow> 'z world_scheme" where
  "upd_lxd ep f w \<equiv> w\<lparr>w_lxd := (w_lxd w)(ep := f)\<rparr>"

lemma init_seed_at:
  assumes "steady (w_lxd w ep)"
  shows "init_seed (lxd_at ep) cfg w =
     (let s = w_lxd w ep; s1 = s\<lparr>f_InitCalls := f_InitCalls s @ [init_config cfg]\<rparr>
      in if f_clustered s then (Inr '''', w)
         else if f_certificate s = ''''
         then (Inl (Wrapf ''bootstrap: get seed certificate: %w'' []
                (Errorf ''fake lxd: get cluster certificate: no certificate seeded'' [])), w)
         else case f_InitError s of
                Some e \<Rightarrow> (Inl (Wrapf ''bootstrap: init seed node %q: %w'' [nc_Name (bc_SeedNode cfg)] e),
                            upd_lxd ep s1 w)
              | None \<Rightarrow> (Inr (f_certificate s),
                            upd_lxd ep (mark_clustered (nc_Name (bc_SeedNode cfg)) s1) w))"
  using assms steady_status [OF assms]
  by (auto simp: init_seed_def lxd_at_clustering Fake_InitCluster_def steady_def Let_def init_config_def
      split: option.splits)

lemma join_joiner_at:
  assumes "steady (w_lxd w epj)"
  shows "join_joiner (lxd_at eps) (lxd_at epj) cfg cert w =
     (let s = w_lxd w eps; j = w_lxd w epj; c = (if cert = '''' then f_certificate s else cert);
          j1 = j\<lparr>f_JoinCalls := f_JoinCalls j @ [join_config cfg c]\<rparr>
      in if f_clustered j then (None, w)
         else if c = ''''
         then (Some (Wrapf ''bootstrap: get seed certificate for join: %w'' []
                (Errorf ''fake lxd: get cluster certificate: no certificate seeded'' [])), w)
         else case f_JoinError j of
                Some e \<Rightarrow> (Some (Wrapf ''bootstrap: join node %q to cluster: %w''
                              [nc_Name (bc_JoinerNode cfg)] e), upd_lxd epj j1 w)
              | None \<Rightarrow> (None, upd_lxd epj (mark_clustered (nc_Name (bc_JoinerNode cfg)) j1) w))"
  using assms steady_status [OF assms]
  by (auto simp: join_joiner_def lxd_at_clustering Fake_JoinCluster_def steady_def Let_def join_config_def
      split: option.splits)

definition members_of :: "Fake \<Rightarrow> string set" where
  "members_of f = ni_Name ` snd ` set (f_nodes f)"

lemma verify_at:
  "verify (lxd_at ep) x y w =
     (if x \<notin> members_of (w_lxd w ep) then Some (Errorf ''seed node %q is not a cluster member'' [x])
      else if y \<notin> members_of (w_lxd w ep) then Some (Errorf ''joiner node %q is not a cluster member'' [y])
      else None, w)"
  by (simp add: verify_def lxd_at_reads members_of_def Let_def image_image)

lemma mark_clustered_fields [simp]:
  "f_clustered (mark_clustered x f)" "f_nodes (mark_clustered x f) = f_nodes f"
  "f_certificate (mark_clustered x f) = f_certificate f"
  "f_InitCalls (mark_clustered x f) = f_InitCalls f" "f_JoinCalls (mark_clustered x f) = f_JoinCalls f"
  "f_InitError (mark_clustered x f) = f_InitError f" "f_JoinError (mark_clustered x f) = f_JoinError f"
  by (simp_all add: mark_clustered_def Let_def)

lemma members_of_simps [simp]:
  "members_of (mark_clustered x f) = members_of f" "members_of (f\<lparr>f_InitCalls := ic\<rparr>) = members_of f"
  "members_of (f\<lparr>f_JoinCalls := jc\<rparr>) = members_of f"
  by (simp_all add: members_of_def)

text \<open>Both nodes after a run, and the result.\<close>

definition seed_after :: "Config \<Rightarrow> Fake \<Rightarrow> Fake" where
  "seed_after cfg s =
     (if complete cfg \<and> \<not> f_clustered s \<and> f_certificate s \<noteq> ''''
      then (let s1 = s\<lparr>f_InitCalls := f_InitCalls s @ [init_config cfg]\<rparr>
            in if f_InitError s = None then mark_clustered (nc_Name (bc_SeedNode cfg)) s1 else s1)
      else s)"

definition joiner_after :: "Config \<Rightarrow> Fake \<Rightarrow> Fake \<Rightarrow> Fake" where
  "joiner_after cfg s j =
     (if complete cfg \<and> f_clustered (seed_after cfg s) \<and> \<not> f_clustered j \<and> f_certificate s \<noteq> ''''
      then (let j1 = j\<lparr>f_JoinCalls := f_JoinCalls j @ [join_config cfg (f_certificate s)]\<rparr>
            in if f_JoinError j = None then mark_clustered (nc_Name (bc_JoinerNode cfg)) j1 else j1)
      else j)"

lemma Bootstrap_at:
  assumes "eps \<noteq> epj" and "steady (w_lxd w eps)" and "steady (w_lxd w epj)"
    and b: "Bootstrapper_Bootstrap \<lparr>bs_seed = lxd_at eps, bs_joiner = lxd_at epj\<rparr> cfg w = (r, w')"
  defines "s \<equiv> seed_after cfg (w_lxd w eps)"
    and "j \<equiv> joiner_after cfg (w_lxd w eps) (w_lxd w epj)"
  shows "w' = w\<lparr>w_lxd := (w_lxd w)(eps := s, epj := j)\<rparr> \<and>
     (r = None \<longleftrightarrow> complete cfg \<and> f_clustered s \<and> f_clustered j \<and>
        {nc_Name (bc_SeedNode cfg), nc_Name (bc_JoinerNode cfg)} \<subseteq> members_of (w_lxd w eps))"
proof (cases "complete cfg")
  case False
  then obtain e where "validate cfg = Some e" using validate_complete [of cfg] by auto
  with False b show ?thesis
    by (auto simp: Bootstrapper_Bootstrap_def s_def j_def seed_after_def joiner_after_def)
next
  case True
  then have v: "validate cfg = None" using validate_complete [of cfg] by simp
  note b = b [unfolded Bootstrapper_Bootstrap_def v option.case Bootstrapper.select_convs]
  have same: "(w_lxd w)(eps := x, epj := w_lxd w epj) = (w_lxd w)(eps := x)" for x
    using assms(1) by auto
  obtain i w1 where i: "init_seed (lxd_at eps) cfg w = (i, w1)" by fastforce
  from i True assms(2) have s: "w1 = upd_lxd eps s w \<and>
      (case i of Inl _ \<Rightarrow> \<not> f_clustered s
       | Inr c \<Rightarrow> f_clustered s \<and> (c = '''' \<or> c = f_certificate (w_lxd w eps)))"
    by (auto simp: init_seed_at s_def seed_after_def Let_def split: if_splits option.splits)
  show ?thesis
  proof (cases i)
    case (Inl e)
    with b i s same show ?thesis by (auto simp: j_def joiner_after_def s_def)
  next
    case (Inr c)
    obtain q w2 where q: "join_joiner (lxd_at eps) (lxd_at epj) cfg c w1 = (q, w2)" by fastforce
    have cert: "f_certificate s = f_certificate (w_lxd w eps)"
      by (simp add: s_def seed_after_def Let_def)
    have j0: "w_lxd w1 epj = w_lxd w epj" "w_lxd w1 eps = s" using s assms(1) by auto
    from q True assms(3) s Inr cert assms(1) same have j: "w2 = upd_lxd epj j w1 \<and> (q = None \<longleftrightarrow> f_clustered j)"
      by (auto simp: join_joiner_at j0 j_def joiner_after_def s_def [symmetric] Let_def
          split: if_splits option.splits)
    have mem: "members_of (w_lxd w2 eps) = members_of (w_lxd w eps)"
      using j j0 assms(1) by (simp add: s_def seed_after_def Let_def)
    have w2: "w2 = w\<lparr>w_lxd := (w_lxd w)(eps := s, epj := j)\<rparr>"
      using s j by simp
    show ?thesis
    proof (cases q)
      case None
      with b i Inr q j s w2 mem True show ?thesis
        by (auto simp: verify_at split: if_splits)
    next
      case (Some e)
      with b i Inr q j s w2 show ?thesis by auto
    qed
  qed
qed

section \<open>Properties of the bootstrap\<close>


text \<open>C32. The calls that one run sends. \<open>InitCluster\<close> goes to the seed once, if it is not clustered and
  has a certificate; \<open>JoinCluster\<close> goes to the joiner once, if it is not clustered and the seed is
  clustered by then, with the seed's certificate and address. So a retry never initialises a clustered
  seed again, and a join is never tried before the seed is clustered.\<close>

theorem bootstrap_calls:
  fixes w :: "'z world_scheme"
  assumes "eps \<noteq> epj" and "\<forall>e. steady (w_lxd w e)"
    and "Bootstrapper_Bootstrap \<lparr>bs_seed = lxd_at eps, bs_joiner = lxd_at epj\<rparr> cfg w = (r, w')"
  shows "f_InitCalls (w_lxd w' eps) = f_InitCalls (w_lxd w eps) @
       (if complete cfg \<and> \<not> f_clustered (w_lxd w eps) \<and> f_certificate (w_lxd w eps) \<noteq> ''''
        then [init_config cfg] else []) \<and>
     f_JoinCalls (w_lxd w' epj) = f_JoinCalls (w_lxd w epj) @
       (if complete cfg \<and> f_clustered (w_lxd w' eps) \<and> \<not> f_clustered (w_lxd w epj) \<and>
           f_certificate (w_lxd w eps) \<noteq> ''''
        then [join_config cfg (f_certificate (w_lxd w eps))] else []) \<and>
     f_JoinCalls (w_lxd w' eps) = f_JoinCalls (w_lxd w eps) \<and>
     f_InitCalls (w_lxd w' epj) = f_InitCalls (w_lxd w epj)"
proof -
  from assms(2) have st: "steady (w_lxd w eps)" "steady (w_lxd w epj)" by simp_all
  note b = Bootstrap_at [OF assms(1) st assms(3), THEN conjunct1]
  from assms(1) show ?thesis
    unfolding b by (simp add: seed_after_def joiner_after_def Let_def)
qed

text \<open>Bootstrap is idempotent: after a run without error, a further run with the same config returns
  nil and changes nothing.\<close>

theorem bootstrap_idempotent:
  fixes w :: "'z world_scheme"
  assumes "eps \<noteq> epj" and "\<forall>e. steady (w_lxd w e)"
    and "Bootstrapper_Bootstrap \<lparr>bs_seed = lxd_at eps, bs_joiner = lxd_at epj\<rparr> cfg w = (None, w')"
  shows "Bootstrapper_Bootstrap \<lparr>bs_seed = lxd_at eps, bs_joiner = lxd_at epj\<rparr> cfg w' = (None, w')"
proof -
  from assms(2) have st: "steady (w_lxd w eps)" "steady (w_lxd w epj)" by simp_all
  note b = Bootstrap_at [OF assms(1) st assms(3)]
  have keep: "\<forall>e. steady (w_lxd w' e)" and c: "f_clustered (w_lxd w' eps)" "f_clustered (w_lxd w' epj)"
    using bootstrap_pair.Bootstrap_steps [OF bootstrap_pair_at [OF assms(1)] assms(2,3)] by simp_all
  obtain r w2 where r: "Bootstrapper_Bootstrap \<lparr>bs_seed = lxd_at eps, bs_joiner = lxd_at epj\<rparr> cfg w' = (r, w2)"
    by fastforce
  from keep have st': "steady (w_lxd w' eps)" "steady (w_lxd w' epj)" by simp_all
  from c have after: "seed_after cfg (w_lxd w' eps) = w_lxd w' eps"
    "joiner_after cfg (w_lxd w' eps) (w_lxd w' epj) = w_lxd w' epj"
    by (simp_all add: seed_after_def joiner_after_def)
  have mem: "members_of (w_lxd w' eps) = members_of (w_lxd w eps)"
    using b assms(1) by (simp add: seed_after_def Let_def)
  from Bootstrap_at [OF assms(1) st' r] after b c mem r show ?thesis by simp
qed

text \<open>Whatever the nodes answer, a run keeps the clustering contract, never takes a node out of its
  cluster, and joins the joiner only to a clustered seed.\<close>

theorem bootstrap_progress:
  fixes w :: "'z world_scheme"
  assumes "eps \<noteq> epj" and "\<forall>e. steady (w_lxd w e)"
    and "Bootstrapper_Bootstrap \<lparr>bs_seed = lxd_at eps, bs_joiner = lxd_at epj\<rparr> cfg w = (r, w')"
  shows "(\<forall>e. steady (w_lxd w' e)) \<and> (\<forall>e. f_clustered (w_lxd w e) \<longrightarrow> f_clustered (w_lxd w' e)) \<and>
     (f_clustered (w_lxd w' epj) \<and> \<not> f_clustered (w_lxd w epj) \<longrightarrow> f_clustered (w_lxd w' eps))"
proof -
  from assms(2) have st: "steady (w_lxd w eps)" "steady (w_lxd w epj)" by simp_all
  note b = Bootstrap_at [OF assms(1) st assms(3), THEN conjunct1]
  from bootstrap_pair.Bootstrap_steps [OF bootstrap_pair_at [OF assms(1)] assms(2,3)] show ?thesis
    unfolding b by auto
qed

subsection \<open>A concrete pair of nodes\<close>

definition pair_member :: "string \<Rightarrow> NodeInfo" where
  "pair_member name = \<lparr>ni_Name = name, ni_URL = '''', ni_Status = ''Online'', ni_Message = '''',
     ni_Architecture = '''', ni_Description = '''', ni_Roles = []\<rparr>"

definition ex_pair :: world where
  "ex_pair = \<lparr>mem_clusters = [], mem_nodes = [], mem_insts = [], mem_locked = False, mem_env = ex_supply,
     w_lxd = (\<lambda>_. New)(''10.0.0.1:8443'' := SetClusterCertificate ''PEM''
       (AddNode (pair_member ''lxd1'') (AddNode (pair_member ''lxd2'') New)))\<rparr>"

definition ex_cfg :: Config where
  "ex_cfg = \<lparr>bc_ClusterName = ''prod'', bc_TrustToken = ''s3cr3t'', bc_StorageDriver = ''dir'',
     bc_StoragePool = ''default'',
     bc_SeedNode = \<lparr>nc_Name = ''lxd1'', nc_ListenAddress = ''10.0.0.1:8443''\<rparr>,
     bc_JoinerNode = \<lparr>nc_Name = ''lxd2'', nc_ListenAddress = ''10.0.0.2:8443''\<rparr>\<rparr>"

definition ex_bootstrapper :: "world Bootstrapper" where
  "ex_bootstrapper = \<lparr>bs_seed = lxd_at ''10.0.0.1:8443'', bs_joiner = lxd_at ''10.0.0.2:8443''\<rparr>"

lemma ex_pair_steady: "\<forall>e. steady (w_lxd ex_pair e)"
  by (simp add: ex_pair_def steady_def fake_ok_def New_def AddNode_def SetClusterCertificate_def)

lemma ex_pair_run: "\<exists>w'. Bootstrapper_Bootstrap ex_bootstrapper ex_cfg ex_pair = (None, w')"
proof -
  obtain r w' where b: "Bootstrapper_Bootstrap ex_bootstrapper ex_cfg ex_pair = (r, w')" by fastforce
  have "complete ex_cfg" by (simp add: complete_def ex_cfg_def)
  moreover have "f_certificate (w_lxd ex_pair ''10.0.0.1:8443'') \<noteq> ''''"
    "\<And>e. f_InitError (w_lxd ex_pair e) = None \<and> f_JoinError (w_lxd ex_pair e) = None"
    by (simp_all add: ex_pair_def New_def AddNode_def SetClusterCertificate_def)
  moreover have "{''lxd1'', ''lxd2''} \<subseteq> members_of (w_lxd ex_pair ''10.0.0.1:8443'')"
    by (simp add: members_of_def ex_pair_def New_def AddNode_def SetClusterCertificate_def pair_member_def)
  ultimately have "r = None"
    using Bootstrap_at [OF _ _ _ b [unfolded ex_bootstrapper_def]] ex_pair_steady
    by (simp add: seed_after_def joiner_after_def Let_def) (simp add: ex_cfg_def)
  with b show ?thesis by blast
qed


theorem bootstrap_calls_witness:
  "\<exists>w'. Bootstrapper_Bootstrap ex_bootstrapper ex_cfg ex_pair = (None, w') \<and>
     f_InitCalls (w_lxd w' ''10.0.0.1:8443'') = [init_config ex_cfg] \<and>
     f_JoinCalls (w_lxd w' ''10.0.0.1:8443'') = []"
proof -
  obtain w' where b: "Bootstrapper_Bootstrap ex_bootstrapper ex_cfg ex_pair = (None, w')" using ex_pair_run ..
  have "complete ex_cfg" by (simp add: complete_def ex_cfg_def)
  with bootstrap_calls [OF _ ex_pair_steady b [unfolded ex_bootstrapper_def]] b show ?thesis
    by (auto simp: ex_pair_def New_def AddNode_def SetClusterCertificate_def)
qed

theorem bootstrap_idempotent_witness:
  "\<exists>w'. Bootstrapper_Bootstrap ex_bootstrapper ex_cfg ex_pair = (None, w') \<and>
     Bootstrapper_Bootstrap ex_bootstrapper ex_cfg w' = (None, w')"
proof -
  obtain w' where b: "Bootstrapper_Bootstrap ex_bootstrapper ex_cfg ex_pair = (None, w')" using ex_pair_run ..
  from bootstrap_idempotent [OF _ ex_pair_steady b [unfolded ex_bootstrapper_def]] b show ?thesis
    by (auto simp: ex_bootstrapper_def)
qed

theorem bootstrap_progress_witness:
  "\<exists>w'. Bootstrapper_Bootstrap ex_bootstrapper ex_cfg ex_pair = (None, w') \<and> (\<forall>e. steady (w_lxd w' e))"
proof -
  obtain w' where b: "Bootstrapper_Bootstrap ex_bootstrapper ex_cfg ex_pair = (None, w')" using ex_pair_run ..
  from bootstrap_progress [OF _ ex_pair_steady b [unfolded ex_bootstrapper_def]] b show ?thesis by auto
qed

section \<open>The workflow\<close>

lemma Workflow_Run_checks:
  "Workflow_Run flow nodeName cfg w =
     (case run_checks (wf_checks flow) \<lparr>wr_NodeName = nodeName, wr_Ready = False, wr_FailedStep = '''', wr_Err = None\<rparr> w of
        (Inl failed, w1) \<Rightarrow> (failed, w1)
      | (Inr _, w1) \<Rightarrow>
          (case Bootstrapper_Bootstrap (wf_bootstrapper flow) cfg w1 of
             (r, w2) \<Rightarrow> (\<lparr>wr_NodeName = nodeName, wr_Ready = (r = None),
                            wr_FailedStep = (if r = None then '''' else ''bootstrap''), wr_Err = r\<rparr>, w2)))"
  by (auto simp: Workflow_Run_def Let_def split: sum.splits prod.splits option.splits)

text \<open>The outcome of a workflow run. Either a readiness check fails, all before it having passed: then
  the bootstrap is not attempted (the state is the one after the check), the result is not ready and names
  the check. Or all pass: then the bootstrap decides, and the result is ready exactly when it returns
  nil.\<close>

theorem workflow_run_outcome:
  assumes "Workflow_Run flow nodeName cfg w = (result, w')"
  shows "wr_NodeName result = nodeName \<and>
     ((\<exists>pre check post w1 err. wf_checks flow = pre @ check # post \<and> checks_pass pre w w1 \<and>
         rc_Check check w1 = (Some err, w') \<and> \<not> wr_Ready result \<and>
         wr_FailedStep result = ''readiness:'' @ rc_Name check \<and>
         wr_Err result = Some (Wrapf ''readiness check %q failed: %w'' [rc_Name check] err)) \<or>
      (\<exists>w1 r. checks_pass (wf_checks flow) w w1 \<and>
         Bootstrapper_Bootstrap (wf_bootstrapper flow) cfg w1 = (r, w') \<and>
         wr_Ready result = (r = None) \<and> wr_Err result = r \<and>
         wr_FailedStep result = (if r = None then '''' else ''bootstrap'')))"
proof -
  let ?init = "\<lparr>wr_NodeName = nodeName, wr_Ready = False, wr_FailedStep = '''', wr_Err = None\<rparr>"
  obtain c w1 where c: "run_checks (wf_checks flow) ?init w = (c, w1)" by fastforce
  show ?thesis
  proof (cases c)
    case (Inl failed)
    with c assms have "result = failed" "w' = w1" by (simp_all add: Workflow_Run_checks)
    with run_checks_fail [OF c [unfolded Inl]] show ?thesis by fastforce
  next
    case (Inr u)
    obtain r w2 where r: "Bootstrapper_Bootstrap (wf_bootstrapper flow) cfg w1 = (r, w2)" by fastforce
    from c [unfolded Inr run_checks_pass] r c assms Inr show ?thesis
      by (intro conjI disjI2 exI [of _ w1] exI [of _ r]) (auto simp: Workflow_Run_checks)
  qed
qed

theorem workflow_run_outcome_witness:
  "\<exists>result w'. Workflow_Run \<lparr>wf_checks = [LXDReadinessCheck ''lxd1'' (lxd_at ''10.0.0.1:8443'')],
      wf_bootstrapper = ex_bootstrapper\<rparr> ''lxd2'' ex_cfg ex_pair = (result, w') \<and>
     wr_Ready result \<and> wr_NodeName result = ''lxd2''"
proof -
  let ?flow = "\<lparr>wf_checks = [LXDReadinessCheck ''lxd1'' (lxd_at ''10.0.0.1:8443'')], wf_bootstrapper = ex_bootstrapper\<rparr>"
  obtain result w' where r: "Workflow_Run ?flow ''lxd2'' ex_cfg ex_pair = (result, w')" by fastforce
  obtain w1 where b: "Bootstrapper_Bootstrap ex_bootstrapper ex_cfg ex_pair = (None, w1)" using ex_pair_run ..
  from r b have "wr_Ready result"
    by (auto simp: Workflow_Run_checks LXDReadinessCheck_def lxd_at_clustering)
  with workflow_run_outcome [OF r] r show ?thesis by auto
qed

section \<open>The guard on the in-memory lock and stores\<close>

interpretation memory_guard: guard_system "\<lambda>_. memory_lock" "\<lambda>_. mem_locked" "\<lambda>_. True"
  "\<lambda>s. (mem_clusters s, mem_nodes s, mem_insts s, mem_env s, mem.more s)" memory_clusters
  "\<lambda>s. mem_clusters s = []"
  by unfold_locales (auto simp: memory_interfaces ClusterStore_ListClusters_def)

text \<open>Several managers run the guard at the same time, their calls interleaved in any way. At every
  moment at most one of them is between taking and releasing the lock, and a manager that is about to
  call its coordinator does so while no cluster is registered: the check cannot be overtaken.\<close>

theorem guard_mutual_exclusion:
  assumes "(managers_step memory_clusters (\<lambda>_. memory_lock) coordinator)\<^sup>*\<^sup>* (\<lambda>m. Start, w) (pcs, w')"
    and "keeps_lock (\<lambda>_. True) (\<lambda>_. mem_locked) coordinator"
  shows "(critical (pcs m) \<and> critical (pcs m') \<longrightarrow> m = m') \<and> (critical (pcs m) \<longrightarrow> mem_locked w') \<and>
     (pcs m = Chosen \<longrightarrow> mem_clusters w' = [])"
  using memory_guard.guard_reach [OF assms TrueI] by (auto simp: guard_inv_def)

theorem guard_mutual_exclusion_witness:
  "\<exists>pcs w'. (managers_step memory_clusters (\<lambda>_. memory_lock) noopCoordinator)\<^sup>*\<^sup>* (\<lambda>m. Start, mem_init ex_supply) (pcs, w') \<and>
     critical (pcs 0) \<and> \<not> critical (pcs 1)"
proof -
  have "guard_step memory_clusters memory_lock noopCoordinator Start (mem_init ex_supply) Locked
      ((mem_init ex_supply)\<lparr>mem_locked := True\<rparr>)"
    by (rule guard_step.lock_got) (simp add: memory_interfaces Lock_TryLock_def mem_init_def)
  then have "managers_step memory_clusters (\<lambda>_. memory_lock) noopCoordinator (\<lambda>m. Start, mem_init ex_supply)
      ((\<lambda>m. Start)(0 := Locked), (mem_init ex_supply)\<lparr>mem_locked := True\<rparr>)"
    by (rule managers_step.intros)
  then have s: "(managers_step memory_clusters (\<lambda>_. memory_lock) noopCoordinator)\<^sup>*\<^sup>* (\<lambda>m. Start, mem_init ex_supply)
      ((\<lambda>m. Start)(0 := Locked), (mem_init ex_supply)\<lparr>mem_locked := True\<rparr>)" by simp
  have "keeps_lock (\<lambda>_. True) (\<lambda>_. mem_locked) noopCoordinator" by (simp add: keeps_lock_def noopCoordinator_def)
  from guard_mutual_exclusion [OF s this, of 0 1] s show ?thesis
    by (intro exI [of _ "(\<lambda>m. Start)(0 := Locked)"] exI [of _ "(mem_init ex_supply)\<lparr>mem_locked := True\<rparr>"]) simp
qed

text \<open>\<open>Guard.Run\<close> on every branch: disabled, locked by another manager or with a cluster registered it
  does nothing; otherwise it returns what the coordinator returns, which runs with the lock held, and
  the lock is released whether the coordinator fails or not.\<close>

theorem guard_run_outcome:
  "Guard_Run memory_clusters (Some memory_lock) enabled coordinator w =
     (if enabled \<and> \<not> mem_locked w \<and> mem_clusters w = []
      then (let (r, w') = coordinator (w\<lparr>mem_locked := True\<rparr>) in (r, w'\<lparr>mem_locked := False\<rparr>))
      else (None, w))"
  by (auto simp: Guard_Run_def guard_body_def memory_interfaces Lock_TryLock_def Lock_Unlock_def
      ClusterStore_ListClusters_def split: prod.splits)

end
