(* ===== verification/Control.thy ===== *)
theory Control
  imports Inventory Placement Formation
begin

section \<open>Reconciliation on the in-memory stores\<close>

text \<open>
  The reconciliation loop with the stores of \<open>Memory_Store\<close>, the \<open>BinPacking\<close> scheduler and the syncs of
  \<open>Inventory\<close>: what a placement pass does to the rows, what a scale-out does on every branch, and how
  scale-out and node sync interact.
\<close>

subsection \<open>The rows of one cluster\<close>

definition insts_of :: "string \<Rightarrow> 'z mem_scheme \<Rightarrow> inst list" where
  "insts_of c w = filter (\<lambda>i. i_ClusterID i = c) (map snd (mem_insts w))"

definition nodes_of :: "string \<Rightarrow> 'z mem_scheme \<Rightarrow> node list" where
  "nodes_of c w = filter (\<lambda>n. n_ClusterID n = c) (map snd (mem_nodes w))"

lemma memory_lists:
  "ListNodes memory_nodes c w = (Inr (nodes_of c w), w)"
  "ListInstances memory_instances c w = (Inr (insts_of c w), w)"
  by (simp_all add: memory_list nodes_of_def insts_of_def)

lemma insts_of_rows:
  assumes "mem_inv w"
  shows "distinct (map i_ID (insts_of c w))"
    and "i \<in> set (insts_of c w) \<longleftrightarrow> map_of (mem_insts w) (i_ID i) = Some i \<and> i_ClusterID i = c"
proof -
  note ok = mem_instance.list_ok [OF assms memory_lists(2) [of c w]]
  then show "distinct (map i_ID (insts_of c w))" by simp
  show "i \<in> set (insts_of c w) \<longleftrightarrow> map_of (mem_insts w) (i_ID i) = Some i \<and> i_ClusterID i = c"
    using ok mem_instance.inst_key [OF assms, of _ i] by (auto simp: ran_def)
qed

lemma nodes_of_rows:
  assumes "mem_inv w"
  shows "distinct (map n_ID (nodes_of c w))"
    and "n \<in> set (nodes_of c w) \<longleftrightarrow> map_of (mem_nodes w) (n_ID n) = Some n \<and> n_ClusterID n = c"
proof -
  note ok = mem_node.list_ok [OF assms memory_lists(1) [of c w]]
  then show "distinct (map n_ID (nodes_of c w))" by simp
  show "n \<in> set (nodes_of c w) \<longleftrightarrow> map_of (mem_nodes w) (n_ID n) = Some n \<and> n_ClusterID n = c"
    using ok mem_node.node_key [OF assms, of _ n] by (auto simp: ran_def)
qed

text \<open>The commitments depend on the rows up to timestamps and order only.\<close>

lemma committed_data: "committed r nid (map inst_data L) = committed r nid L"
  by (induction L) (auto simp: committed_Cons inst_data_def intro: arg_cong [of _ _ sint] resource.induct [of _ r])

lemma committed_same_data:
  assumes "mset (map inst_data L) = mset (map inst_data M)"
  shows "committed r nid L = committed r nid M"
  using committed_mset [OF assms, of r nid] by (simp add: committed_data)

lemma same_data_mset:
  assumes "distinct (map i_ID L)" and "distinct (map i_ID M)" and "inst_data ` set L = inst_data ` set M"
  shows "mset (map inst_data L) = mset (map inst_data M)"
proof -
  have d: "distinct (map inst_data L)" if "distinct (map i_ID L)" for L
  proof -
    have "map i_ID L = map i_ID (map inst_data L)" by (simp add: inst_data_def)
    with that show ?thesis by (metis distinct_map)
  qed
  have "set (map inst_data L) = set (map inst_data M)" using assms(3) by simp
  with d [OF assms(1)] d [OF assms(2)] show ?thesis by (metis set_eq_iff_mset_eq_distinct)
qed

subsection \<open>The placement pass\<close>

lemmas memory_placement_loop =
  lenient_instance_repo.schedule_loop_refines [OF mem_instance.lenient_instance_repo_axioms]

text \<open>The orchestrator has the in-memory stores and the bin-packing scheduler.\<close>

definition memory_backed :: "'z mem_scheme Orchestrator \<Rightarrow> bool" where
  "memory_backed orch \<longleftrightarrow> o_scheduler orch = Some BinPacking_Schedule \<and> o_nodeRepo orch = Some memory_nodes \<and>
     o_instanceRepo orch = Some memory_instances"

text \<open>The limits of the cluster's instances do not overflow, and its nodes have IDs.\<close>

definition sane :: "string \<Rightarrow> 'z mem_scheme \<Rightarrow> bool" where
  "sane c w \<longleftrightarrow> mem_inv w \<and> no_overflow (insts_of c w) \<and> (\<forall>n \<in> set (nodes_of c w). n_ID n \<noteq> '''')"

lemma placement_pass:
  assumes "memory_backed orch" and "sane (c_ID c) w"
  obtains b L' w' where "scheduleCluster orch c w = Some (b, w')"
    and "place_loop (nodes_of (c_ID c) w) [0..<length (insts_of (c_ID c) w)] (insts_of (c_ID c) w) False = (b, L')"
    and "mem_inv w'" and "mem_nodes w' = mem_nodes w" and "mem_clusters w' = mem_clusters w"
    and "mem_locked w' = mem_locked w" and "mem.more w' = mem.more w"
    and "mset (map inst_data L') = mset (map inst_data (insts_of (c_ID c) w'))"
    and "tracks L' (map_of (mem_insts w'))"
    and "\<And>x. x \<notin> i_ID ` set (insts_of (c_ID c) w) \<Longrightarrow> map_of (mem_insts w') x = map_of (mem_insts w) x"
    and "\<And>j. j < length (insts_of (c_ID c) w) \<Longrightarrow> L' ! j = insts_of (c_ID c) w ! j \<Longrightarrow>
       map_of (mem_insts w') (i_ID (L' ! j)) = map_of (mem_insts w) (i_ID (L' ! j))"
proof -
  let ?L = "insts_of (c_ID c) w" and ?N = "nodes_of (c_ID c) w"
  from assms(2) have inv: "mem_inv w" and no: "no_overflow ?L" by (simp_all add: sane_def)
  have ids: "node_ids_ok ?N" using assms(2) nodes_of_rows(1) [OF inv] by (simp add: node_ids_ok_def sane_def)
  have tr: "tracks ?L (map_of (mem_insts w))"
    using insts_of_rows [OF inv] by (auto simp: tracks_def)
  obtain b L' where p: "place_loop ?N [0..<length ?L] ?L False = (b, L')" by fastforce
  have idx: "\<forall>k \<in> set [0..<length ?L]. k < length ?L" by simp
  obtain w' where w': "schedule_loop memory_instances BinPacking_Schedule ?N [0..<length ?L] ?L False w = Some (b, L', w')"
    "mem_inv w'" "(mem_clusters w', mem_nodes w', mem_locked w', mem.more w') =
       (mem_clusters w, mem_nodes w, mem_locked w, mem.more w)"
    "tracks L' (map_of (mem_insts w'))"
    "\<forall>x. x \<notin> i_ID ` set ?L \<longrightarrow> map_of (mem_insts w') x = map_of (mem_insts w) x"
    "\<forall>j < length ?L. L' ! j = ?L ! j \<longrightarrow> map_of (mem_insts w') (i_ID (?L ! j)) = map_of (mem_insts w) (i_ID (?L ! j))"
    using memory_placement_loop [OF inv tr no ids idx p] by blast
  have len: "length L' = length ?L" and pf: "placed_from ?N (?L ! j) (L' ! j)" for j
    using place_loop_grows [OF no ids idx p, of CPU "''''"] by auto
  have same_id: "i_ID (L' ! j) = i_ID (?L ! j) \<and> i_ClusterID (L' ! j) = i_ClusterID (?L ! j)" for j
    using pf [of j] by (auto simp: placed_from_def)
  have "map i_ID L' = map i_ID ?L"
    using len same_id by (auto intro: nth_equalityI)
  then have idset: "i_ID ` set L' = i_ID ` set ?L" by (metis list.set_map)
  have inC: "i_ClusterID i = c_ID c" if "i \<in> set L'" for i
  proof -
    from that obtain j where "j < length ?L" "i = L' ! j" using len by (auto simp: in_set_conv_nth)
    moreover from this(1) have "i_ClusterID (?L ! j) = c_ID c" using nth_mem insts_of_rows(2) [OF inv] by metis
    ultimately show ?thesis using same_id [of j] by simp
  qed
  have data: "inst_data ` set L' = inst_data ` set (insts_of (c_ID c) w')"
  proof (intro equalityI subsetI)
    fix x assume "x \<in> inst_data ` set L'"
    then obtain i i' where i: "i \<in> set L'" "x = inst_data i" "map_of (mem_insts w') (i_ID i) = Some i'" "inst_data i' = inst_data i"
      using w'(4) by (auto simp: tracks_def)
    with inst_data_fields [OF i(4)] inC [OF i(1)] have "i' \<in> set (insts_of (c_ID c) w')"
      by (simp add: insts_of_rows(2) [OF w'(2)])
    with i show "x \<in> inst_data ` set (insts_of (c_ID c) w')" by (metis imageI)
  next
    fix x assume "x \<in> inst_data ` set (insts_of (c_ID c) w')"
    then obtain i' where i': "x = inst_data i'" "map_of (mem_insts w') (i_ID i') = Some i'" "i_ClusterID i' = c_ID c"
      by (auto simp: insts_of_rows(2) [OF w'(2)])
    have "i_ID i' \<in> i_ID ` set ?L"
    proof (rule ccontr)
      assume n: "i_ID i' \<notin> i_ID ` set ?L"
      with w'(5) i'(2) have "map_of (mem_insts w) (i_ID i') = Some i'" by metis
      with i'(3) have "i' \<in> set ?L" by (simp add: insts_of_rows(2) [OF inv])
      with n show False by blast
    qed
    then obtain i where "i \<in> set L'" "i_ID i = i_ID i'" using idset by (metis image_iff)
    with w'(4) i'(1,2) show "x \<in> inst_data ` set L'" by (fastforce simp: tracks_def)
  qed
  show thesis
  proof (rule that)
    show "scheduleCluster orch c w = Some (b, w')"
      using assms(1) w'(1) by (simp add: scheduleCluster_def memory_backed_def memory_lists)
    show "place_loop ?N [0..<length ?L] ?L False = (b, L')" by (rule p)
    show "mset (map inst_data L') = mset (map inst_data (insts_of (c_ID c) w'))"
      by (rule same_data_mset) (use w'(4) data insts_of_rows(1) [OF w'(2)] in \<open>simp_all add: tracks_def\<close>)
    show "map_of (mem_insts w') (i_ID (L' ! j)) = map_of (mem_insts w) (i_ID (L' ! j))"
      if "j < length ?L" "L' ! j = ?L ! j" for j using w'(6) that by simp
  qed (use w' in simp_all)
qed

lemma request_for_data: "inst_data i = inst_data j \<Longrightarrow> request_for i = request_for j"
  using inst_data_fields [of i j] by (simp add: request_for_def)

text \<open>What became of each stored instance, from what became of each listed one.\<close>

lemma placed_rows:
  assumes "mem_inv w" and "length L' = length (insts_of c w)" and "\<And>j. placed_from N (insts_of c w ! j) (L' ! j)"
    and "tracks L' (map_of (mem_insts w2))"
    and "\<And>x. x \<notin> i_ID ` set (insts_of c w) \<Longrightarrow> map_of (mem_insts w2) x = map_of (mem_insts w) x"
    and "\<And>j. j < length (insts_of c w) \<Longrightarrow> L' ! j = insts_of c w ! j \<Longrightarrow>
       map_of (mem_insts w2) (i_ID (L' ! j)) = map_of (mem_insts w) (i_ID (L' ! j))"
  shows "map_of (mem_insts w2) k = map_of (mem_insts w) k \<or>
    (\<exists>i i' n. map_of (mem_insts w) k = Some i \<and> map_of (mem_insts w2) k = Some i' \<and>
       i_ClusterID i = c \<and> i_NodeID i = '''' \<and> n \<in> set N \<and>
       n_Status n = NodeStatusOnline \<and> inst_data i' = inst_data (i\<lparr>i_NodeID := n_ID n\<rparr>))"
proof (cases "k \<in> i_ID ` set (insts_of c w)")
  case True
  let ?L = "insts_of c w"
  from True obtain j where j: "j < length ?L" "k = i_ID (?L ! j)" by (auto simp: in_set_conv_nth)
  from j(1) have row: "map_of (mem_insts w) k = Some (?L ! j)" "i_ClusterID (?L ! j) = c"
    using insts_of_rows(2) [OF assms(1), of "?L ! j" c] j(2) by simp_all
  have "L' ! j \<in> set L'" using j assms(2) by simp
  with assms(4) obtain i' where i': "map_of (mem_insts w2) (i_ID (L' ! j)) = Some i'" "inst_data i' = inst_data (L' ! j)"
    by (auto simp: tracks_def)
  from assms(3) [of j] show ?thesis
    unfolding placed_from_def
  proof (elim disjE conjE bexE)
    assume "L' ! j = ?L ! j"
    with assms(6) [OF j(1)] j(2) show ?thesis by simp
  next
    fix n assume "i_NodeID (?L ! j) = ''''" "n \<in> set N" "n_Status n = NodeStatusOnline"
      "L' ! j = (?L ! j)\<lparr>i_NodeID := n_ID n\<rparr>"
    with row i' j(2) show ?thesis by (intro disjI2 exI [of _ "?L ! j"] exI [of _ i'] exI [of _ n]) simp
  qed
next
  case False
  with assms(5) show ?thesis by blast
qed

text \<open>Two lists of instances with the same data, one listed again after the pass.\<close>

lemma same_data_index:
  assumes "mset (map inst_data L') = mset (map inst_data L)" and "i \<in> set L"
  shows "\<exists>k < length L'. inst_data i = inst_data (L' ! k)"
proof -
  from assms(1) have "inst_data ` set L' = inst_data ` set L" by (metis list.set_map set_mset_mset)
  with assms(2) have "inst_data i \<in> inst_data ` set L'" by blast
  then show ?thesis by (auto simp: in_set_conv_nth)
qed

lemma same_data_unplaced:
  assumes "mset (map inst_data L') = mset (map inst_data L)"
  shows "(\<exists>k < length L'. i_NodeID (L' ! k) = '''') \<longleftrightarrow> (\<exists>i \<in> set L. i_NodeID i = '''')"
proof
  assume "\<exists>k < length L'. i_NodeID (L' ! k) = ''''"
  then obtain k where k: "k < length L'" "i_NodeID (L' ! k) = ''''" by blast
  with same_data_index [OF assms [symmetric], of "L' ! k"] obtain m where m: "m < length L" "inst_data (L' ! k) = inst_data (L ! m)"
    by auto
  with k inst_data_fields [OF m(2)] show "\<exists>i \<in> set L. i_NodeID i = ''''" by (metis nth_mem)
next
  assume "\<exists>i \<in> set L. i_NodeID i = ''''"
  then obtain i where i: "i \<in> set L" "i_NodeID i = ''''" by blast
  with same_data_index [OF assms i(1)] inst_data_fields show "\<exists>k < length L'. i_NodeID (L' ! k) = ''''" by metis
qed

text \<open>C33. A placement pass is safe: it touches no node, and no instance but unplaced ones of the cluster,
  which get a node of the cluster that is online and otherwise keep their data; and a node whose
  instances fit within its capacity before the pass is within capacity after it, however many instances the pass
  placed.\<close>

theorem placement_pass_sound:
  assumes "memory_backed orch" and "sane (c_ID c) w" and "scheduleCluster orch c w = Some (b, w')"
  shows "mem_inv w' \<and> mem_nodes w' = mem_nodes w \<and> mem_clusters w' = mem_clusters w \<and>
     (\<forall>k. map_of (mem_insts w') k = map_of (mem_insts w) k \<or>
        (\<exists>i i' n. map_of (mem_insts w) k = Some i \<and> map_of (mem_insts w') k = Some i' \<and>
           i_ClusterID i = c_ID c \<and> i_NodeID i = '''' \<and> n \<in> set (nodes_of (c_ID c) w) \<and>
           n_Status n = NodeStatusOnline \<and> inst_data i' = inst_data (i\<lparr>i_NodeID := n_ID n\<rparr>))) \<and>
     (\<forall>n \<in> set (nodes_of (c_ID c) w). within_capacity n (insts_of (c_ID c) w) \<longrightarrow>
        within_capacity n (insts_of (c_ID c) w'))"
proof (rule placement_pass [OF assms(1,2)])
  let ?L = "insts_of (c_ID c) w" and ?N = "nodes_of (c_ID c) w"
  fix b2 L' w2
  assume s: "scheduleCluster orch c w = Some (b2, w2)"
    and p: "place_loop ?N [0..<length ?L] ?L False = (b2, L')"
    and frame: "mem_inv w2" "mem_nodes w2 = mem_nodes w" "mem_clusters w2 = mem_clusters w"
    and ms: "mset (map inst_data L') = mset (map inst_data (insts_of (c_ID c) w2))"
    and tr: "tracks L' (map_of (mem_insts w2))"
    and out: "\<And>x. x \<notin> i_ID ` set ?L \<Longrightarrow> map_of (mem_insts w2) x = map_of (mem_insts w) x"
    and keep: "\<And>j. j < length ?L \<Longrightarrow> L' ! j = ?L ! j \<Longrightarrow>
       map_of (mem_insts w2) (i_ID (L' ! j)) = map_of (mem_insts w) (i_ID (L' ! j))"
  from assms(2) have inv: "mem_inv w" and no: "no_overflow ?L" by (simp_all add: sane_def)
  have ids: "node_ids_ok ?N" using assms(2) nodes_of_rows(1) [OF inv] by (simp add: node_ids_ok_def sane_def)
  have g: "length L' = length ?L" "\<forall>m \<in> set ?N. within_capacity m ?L \<longrightarrow> within_capacity m L'"
    "\<And>j. placed_from ?N (?L ! j) (L' ! j)"
    using place_loop_grows [OF no ids _ p, of CPU "''''"] by auto
  from s assms(3) have w2: "w2 = w'" by simp
  have "within_capacity n (insts_of (c_ID c) w2) = within_capacity n L'" for n
    by (simp add: within_capacity_def committed_same_data [OF ms])
  moreover note placed_rows [OF inv g(1,3) tr out keep]
  ultimately show ?thesis using frame g(2) unfolding w2 by blast
qed


subsection \<open>Witnesses of the placement pass\<close>

definition ex_cluster :: cluster where
  "ex_cluster = zero_cluster\<lparr>c_ID := ''c'', c_Name := ''prod'',
     c_HyperscalerConfig := Some [''server_type'' \<mapsto> JString ''cx21'', ''region'' \<mapsto> JString ''fsn1'',
       ''image'' \<mapsto> JString ''ubuntu-22.04'']\<rparr>"

definition ex_place :: mem where
  "ex_place = (mem_init ex_supply)\<lparr>mem_nodes := map (\<lambda>n. (n_ID n, n)) ex_nodes,
     mem_insts := map (\<lambda>i. (i_ID i, i)) ex_insts\<rparr>"

definition ex_orch :: "mem Orchestrator" where
  "ex_orch = WithScheduler BinPacking_Schedule (WithInstanceRepository memory_instances
     (WithNodeRepository memory_nodes new_orchestrator))"

lemma ex_orch_backed: "memory_backed ex_orch"
  by (simp add: memory_backed_def ex_orch_def WithScheduler_def WithInstanceRepository_def
      WithNodeRepository_def new_orchestrator_def)

lemma ex_place_lists: "nodes_of ''c'' ex_place = ex_nodes" "insts_of ''c'' ex_place = ex_insts"
  by (simp_all add: nodes_of_def insts_of_def ex_place_def ex_sched_defs)

lemma ex_place_sane: "sane (c_ID ex_cluster) ex_place"
proof -
  have "mem_inv ex_place"
    using ex_supply_distinct
    by (fastforce simp: ex_place_def mem_init_def mem_inv_def fresh_supply_def used_ids_def
        distinct_uuids_def rows_wf_def ex_sched_defs node_ukey_def inst_ukey_def dest: ex_supply_long)
  then show ?thesis
    using ex_no_overflow by (simp add: sane_def ex_cluster_def ex_place_lists) (simp add: ex_sched_defs)
qed

theorem placement_pass_sound_witness:
  "\<exists>b w'. scheduleCluster ex_orch ex_cluster ex_place = Some (b, w') \<and> mem_nodes w' = mem_nodes ex_place"
proof -
  obtain b w' where s: "scheduleCluster ex_orch ex_cluster ex_place = Some (b, w')"
    using placement_pass [OF ex_orch_backed ex_place_sane] by metis
  from placement_pass_sound [OF ex_orch_backed ex_place_sane s] s show ?thesis by blast
qed


subsection \<open>Scale-out\<close>

definition memory_rand :: "'z mem_scheme rand_source" where
  "memory_rand k s = (case rand_read k (mem_env s) of (r, e) \<Rightarrow> (r, s\<lparr>mem_env := e\<rparr>))"

text \<open>A collaborator that works on the rest of the world and leaves the stores alone.\<close>

definition outside :: "('z mem_scheme \<Rightarrow> 'a \<times> 'z mem_scheme) \<Rightarrow> bool" where
  "outside f \<longleftrightarrow> (\<forall>w. mem.truncate (snd (f w)) = mem.truncate w)"

lemma outsideD:
  assumes "outside f" and "f w = (r, w')"
  shows "mem_nodes w' = mem_nodes w" "mem_insts w' = mem_insts w" "mem_clusters w' = mem_clusters w"
    "mem_locked w' = mem_locked w" "mem_env w' = mem_env w" "mem_inv w' = mem_inv w"
proof -
  have "mem.truncate w' = mem.truncate w" using assms by (metis outside_def snd_conv)
  then show t: "mem_nodes w' = mem_nodes w" "mem_insts w' = mem_insts w" "mem_clusters w' = mem_clusters w"
    "mem_locked w' = mem_locked w" "mem_env w' = mem_env w" by (simp_all add: mem.truncate_def)
  then show "mem_inv w' = mem_inv w" by (simp add: mem_inv_def fresh_supply_def used_ids_def)
qed

definition provisioning :: "string \<Rightarrow> 'z mem_scheme \<Rightarrow> bool" where
  "provisioning c w \<longleftrightarrow> (\<exists>n \<in> set (nodes_of c w). n_Status n = NodeStatusProvisioning)"

lemma scale_out_guard_memory:
  assumes "o_nodeRepo orch = Some memory_nodes"
  shows "scale_out_guard orch c w = (\<not> provisioning (c_ID c) w, w)"
  using assms by (simp add: scale_out_guard_def memory_lists list_ex_iff provisioning_def)

lemma generateNodeName_memory:
  "generateNodeName memory_rand x w =
     (case env_rand (mem_env w) (env_tick (mem_env w)) of
        None \<Rightarrow> Inl (Wrapf ''generate node name: %w'' [] (Errors_New ''rand: read failed''))
      | Some f \<Rightarrow> Inr (x @ ''-scale-'' @ hex_bytes (map f [0..<4])),
      w\<lparr>mem_env := (mem_env w)\<lparr>env_tick := Suc (env_tick (mem_env w))\<rparr>\<rparr>)"
  by (simp add: generateNodeName_def memory_rand_def rand_read_def split: option.split)

lemma serverSpec_cases:
  "serverSpecFromCluster c x =
     (if \<exists>k \<in> {''server_type'', ''region'', ''image''}. config_get (c_HyperscalerConfig c) k = ''''
      then Inl (Errorf ''cluster hyperscaler_config is missing required scale-out fields: %v''
        (filter (\<lambda>k. config_get (c_HyperscalerConfig c) k = '''') [''server_type'', ''region'', ''image'']))
      else Inr \<lparr>ss_Name = x, ss_ServerType = config_get (c_HyperscalerConfig c) ''server_type'',
        ss_Region = config_get (c_HyperscalerConfig c) ''region'',
        ss_Image = config_get (c_HyperscalerConfig c) ''image'', ss_ClusterID = c_ID c\<rparr>)"
  by (simp add: serverSpecFromCluster_def Let_def)

text \<open>C35. Scale-out provisions nothing when it must not: while a node of the cluster is in the
  provisioning state nothing at all happens, and with an incomplete hyperscaler config only random bytes are
  read. This holds for every provider, so the provider is not called.\<close>

theorem scale_out_guarded:
  assumes "o_nodeRepo orch = Some memory_nodes"
    and "provisioning (c_ID c) w \<or> (\<exists>k \<in> {''server_type'', ''region'', ''image''}. config_get (c_HyperscalerConfig c) k = '''')"
  shows "executeScaleOut memory_rand orch prov c w =
     (if provisioning (c_ID c) w then w
      else w\<lparr>mem_env := (mem_env w)\<lparr>env_tick := Suc (env_tick (mem_env w))\<rparr>\<rparr>)"
  using assms(2)
  by (cases "provisioning (c_ID c) w")
    (auto simp: executeScaleOut_def scale_out_guard_memory [OF assms(1)] generateNodeName_memory
      serverSpec_cases split: option.split)

lemma mem_inv_tick: "mem_inv w \<Longrightarrow> mem_inv (w\<lparr>mem_env := (mem_env w)\<lparr>env_tick := Suc (env_tick (mem_env w))\<rparr>\<rparr>)"
  by (rule mem_inv_env) simp_all

text \<open>The last step on a row that was just created: it becomes online or error.\<close>

lemma finish_node_memory:
  assumes "mem_inv w" and "o_nodeRepo orch = Some memory_nodes" and "o_bootstrap orch = Some run"
    and "\<And>x cfg. outside (run x cfg)" and "map_of (mem_nodes w) (n_ID n) = Some n"
    and "run x (bootstrapConfigFromCluster c x) w = (res, w1)"
  shows "\<exists>n'. mem_inv (finish_node orch c x (Some n) w) \<and>
     mem_insts (finish_node orch c x (Some n) w) = mem_insts w \<and>
     mem_clusters (finish_node orch c x (Some n) w) = mem_clusters w \<and>
     map_of (mem_nodes (finish_node orch c x (Some n) w)) = (map_of (mem_nodes w))(n_ID n \<mapsto> n') \<and>
     node_data n' = node_data (n\<lparr>n_Status := (if wr_Ready res then NodeStatusOnline else NodeStatusError)\<rparr>)"
proof -
  let ?n = "n\<lparr>n_Status := (if wr_Ready res then NodeStatusOnline else NodeStatusError)\<rparr>"
  note o = outsideD [OF assms(4,6)]
  from assms(1) o have inv: "mem_inv w1" and row: "map_of (mem_nodes w1) (n_ID n) = Some n"
    using assms(5) by simp_all
  have "\<exists>n' w'. UpdateNode memory_nodes ?n w1 = (Inr n', w')"
  proof (rule mem_node.update_total [OF inv])
    show "k = n_ID ?n" if "map_of (mem_nodes w1) k = Some m" "n_ClusterID m = n_ClusterID ?n" "n_Name m = n_Name ?n" for k m
      using mem_node.node_name [OF inv that(1) row] that(2,3) by simp
  qed (use row in simp)
  then obtain n' w2 where u: "UpdateNode memory_nodes ?n w1 = (Inr n', w2)" by blast
  then have "finish_node orch c x (Some n) w = w2"
    using assms(2,3,6) by (auto simp: finish_node_def split: if_splits)
  with mem_node.update_ok [OF inv u] o show ?thesis by (intro exI [of _ n'] conjI) simp_all
qed

text \<open>How far a scale-out gets: it stops before a row is written, and then nothing but the random source and
  the outside have changed, or it writes the row and finishes it.\<close>

lemma scale_out_cases:
  assumes "mem_inv w" and "o_nodeRepo orch = Some memory_nodes" and "o_bootstrap orch = Some run"
    and "\<And>x cfg. outside (run x cfg)" and "\<And>spec. outside (ProvisionServer prov spec)"
    and "executeScaleOut memory_rand orch prov c w = w'"
  obtains (stopped) "mem_inv w'" and "map_of (mem_nodes w') = map_of (mem_nodes w)" and "mem_insts w' = mem_insts w"
      and "mem_clusters w' = mem_clusters w"
    | (recorded) x f spec w2 sid w3 n w4 where "\<not> provisioning (c_ID c) w"
      and "x = c_Name c @ ''-scale-'' @ hex_bytes (map f [0..<4])" and "serverSpecFromCluster c x = Inr spec"
      and "ProvisionServer prov spec w2 = (Inr sid, w3)" and "mem_inv w3" and "mem_nodes w3 = mem_nodes w"
      and "mem_insts w3 = mem_insts w" and "mem_clusters w3 = mem_clusters w"
      and "CreateNode memory_nodes (provisioning_node c x sid) w3 = (Inr n, w4)"
      and "w' = finish_node orch c x (Some n) w4"
proof (cases "provisioning (c_ID c) w")
  case True
  with assms(1,6) show ?thesis by (intro stopped) (simp_all add: executeScaleOut_def scale_out_guard_memory [OF assms(2)])
next
  case free: False
  note run = executeScaleOut_def scale_out_guard_memory [OF assms(2)]
  obtain r w1 where g: "generateNodeName memory_rand (c_Name c) w = (r, w1)" by fastforce
  have w1: "mem_inv w1" "mem_nodes w1 = mem_nodes w" "mem_insts w1 = mem_insts w" "mem_clusters w1 = mem_clusters w"
    using g mem_inv_tick [OF assms(1)] by (auto simp: generateNodeName_memory)
  show ?thesis
  proof (cases "\<exists>x spec. r = Inr x \<and> serverSpecFromCluster c x = Inr spec")
    case False
    with g w1 free assms(6) show ?thesis by (cases r) (intro stopped; force simp: run split: sum.splits)+
  next
    case True
    then obtain x spec where x: "r = Inr x" and spec: "serverSpecFromCluster c x = Inr spec" by blast
    from g x obtain f where f: "x = c_Name c @ ''-scale-'' @ hex_bytes (map f [0..<4])"
      by (auto simp: generateNodeName_memory split: option.splits)
    obtain p w3 where p: "ProvisionServer prov spec w1 = (p, w3)" by fastforce
    note o3 = outsideD [OF assms(5) p]
    show ?thesis
    proof (cases p)
      case (Inl e)
      with spec x g w1 free p o3 assms(6) show ?thesis by (intro stopped) (simp_all add: run)
    next
      case sid: (Inr sid)
      obtain q w4 where q: "CreateNode memory_nodes (provisioning_node c x sid) w3 = (q, w4)" by fastforce
      from o3 w1 have inv3: "mem_inv w3" by simp
      show ?thesis
      proof (cases q)
        case (Inl e)
        obtain res w5 where b: "run x (bootstrapConfigFromCluster c x) w4 = (res, w5)" by fastforce
        note o5 = outsideD [OF assms(4) b]
        from Inl q spec x g free p sid b assms(2,3,6) have "w' = w5"
          by (simp add: run record_node_def finish_node_def)
        with mem_node.create_err [OF inv3 q [unfolded Inl]] o3 o5 w1 show ?thesis by (intro stopped) simp_all
      next
        case (Inr n)
        with q spec x g free p sid assms(2,6) have "w' = finish_node orch c x (Some n) w4"
          by (simp add: run record_node_def)
        with free f spec p sid inv3 o3 w1 q Inr show ?thesis by (intro recorded [of x f spec w1 sid w3 n w4]) simp_all
      qed
    qed
  qed
qed

text \<open>C36. What a scale-out leaves in the stores, whatever the provider and the bootstrap do outside them.
  Either the nodes are as before, or exactly one node was added: of this cluster, with the generated name,
  no LXD member name, and the ID of the server that the provider returned. Its final status is online
  exactly when the bootstrap run for this node was ready, and error otherwise, so a node whose bootstrap
  did not complete is never taken for capacity.\<close>

theorem scale_out_outcome:
  assumes "mem_inv w" and "o_nodeRepo orch = Some memory_nodes" and "o_bootstrap orch = Some run"
    and "\<And>x cfg. outside (run x cfg)" and "\<And>spec. outside (ProvisionServer prov spec)"
    and "executeScaleOut memory_rand orch prov c w = w'"
  shows "mem_inv w' \<and> mem_insts w' = mem_insts w \<and> mem_clusters w' = mem_clusters w \<and>
     (map_of (mem_nodes w') = map_of (mem_nodes w) \<or>
      (\<exists>k n x f spec w2 sid w3 w4 res w5. \<not> provisioning (c_ID c) w \<and> map_of (mem_nodes w) k = None \<and>
         map_of (mem_nodes w') = (map_of (mem_nodes w))(k \<mapsto> n) \<and>
         x = c_Name c @ ''-scale-'' @ hex_bytes (map f [0..<4]) \<and>
         serverSpecFromCluster c x = Inr spec \<and> ProvisionServer prov spec w2 = (Inr sid, w3) \<and>
         run x (bootstrapConfigFromCluster c x) w4 = (res, w5) \<and>
         node_data n = node_data ((provisioning_node c x sid)\<lparr>n_ID := k,
           n_Status := (if wr_Ready res then NodeStatusOnline else NodeStatusError)\<rparr>)))"
  using assms
proof (cases rule: scale_out_cases)
  case (recorded x f spec w2 sid w3 n w4)
  obtain res w5 where run: "run x (bootstrapConfigFromCluster c x) w4 = (res, w5)" by fastforce
  note cr = mem_node.create_ok [OF recorded(5,9)]
  then have "map_of (mem_nodes w4) (n_ID n) = Some n" "mem_inv w4" by simp_all
  from finish_node_memory [OF this(2) assms(2,3,4) this(1) run] obtain n' where
    n': "mem_inv w'" "mem_insts w' = mem_insts w4" "mem_clusters w' = mem_clusters w4"
      "map_of (mem_nodes w') = (map_of (mem_nodes w4))(n_ID n \<mapsto> n')"
      "node_data n' = node_data (n\<lparr>n_Status := (if wr_Ready res then NodeStatusOnline else NodeStatusError)\<rparr>)"
    unfolding recorded(10) by blast
  have "node_data n' = node_data ((provisioning_node c x sid)\<lparr>n_ID := n_ID n,
      n_Status := (if wr_Ready res then NodeStatusOnline else NodeStatusError)\<rparr>)"
    using cr by (simp add: n'(5)) (cases n, simp add: node_data_def provisioning_node_def zero_node_def)
  moreover have "map_of (mem_nodes w) (n_ID n) = None" "map_of (mem_nodes w') = (map_of (mem_nodes w))(n_ID n \<mapsto> n')"
    using cr n'(4) recorded(6) by simp_all
  moreover have "mem_inv w'" "mem_insts w' = mem_insts w" "mem_clusters w' = mem_clusters w"
    using cr n' recorded(7,8) by simp_all
  ultimately show ?thesis using recorded(1-4) run by blast
qed simp

subsection \<open>Witnesses of the scale-out\<close>

definition ex_provider :: "world hyperscaler_provider" where
  "ex_provider = \<lparr>ProvisionServer = (\<lambda>spec w. (Inr ''42'', w)), DeprovisionServer = (\<lambda>k w. (None, w)),
     GetServer = (\<lambda>k w. (Inl (Sentinel (ProviderErr ErrServerNotFound)), w)), ListServers = (\<lambda>w. (Inr [], w))\<rparr>"

definition ex_runner :: "string \<Rightarrow> Config \<Rightarrow> world \<Rightarrow> Result \<times> world" where
  "ex_runner x cfg w = (\<lparr>wr_NodeName = x, wr_Ready = True, wr_FailedStep = '''', wr_Err = None\<rparr>, w)"

definition ex_scaler :: "world Orchestrator" where
  "ex_scaler = WithProvider ex_provider (WithBootstrapWorkflow ex_runner (WithNodeRepository memory_nodes new_orchestrator))"

lemma ex_scaler_parts:
  "o_nodeRepo ex_scaler = Some memory_nodes" "o_bootstrap ex_scaler = Some ex_runner"
  by (simp_all add: ex_scaler_def WithProvider_def WithBootstrapWorkflow_def WithNodeRepository_def new_orchestrator_def)

lemma ex_outside: "outside (ex_runner x cfg)" "outside (ProvisionServer ex_provider spec)"
  by (simp_all add: outside_def ex_runner_def ex_provider_def)

theorem scale_out_guarded_witness:
  "\<exists>e. executeScaleOut memory_rand ex_scaler ex_provider zero_cluster ex_world = ex_world\<lparr>mem_env := e\<rparr>"
proof -
  have "config_get (c_HyperscalerConfig zero_cluster) ''region'' = ''''"
    by (simp add: config_get_def configStringFromMap_def zero_cluster_def)
  moreover have "\<not> provisioning (c_ID zero_cluster) ex_world"
    by (simp add: provisioning_def nodes_of_def ex_world_parts zero_cluster_def ex_row_def zero_node_def)
  ultimately show ?thesis
    using scale_out_guarded [OF ex_scaler_parts(1), of zero_cluster ex_world ex_provider] by auto
qed

theorem scale_out_outcome_witness:
  "\<exists>w'. executeScaleOut memory_rand ex_scaler ex_provider ex_cluster ex_world = w' \<and> mem_inv w' \<and>
     mem_insts w' = mem_insts ex_world"
  using scale_out_outcome [OF ex_world_inv ex_scaler_parts ex_outside refl] by blast

section \<open>Scale-out and node sync together\<close>


text \<open>A node sync ends the provisioning state: a row that scale-out left in it (it has no LXD member
  name yet, and no LXD member has an empty name) is offline after the next successful sync, so
  the next pass may provision another server.\<close>

theorem sync_ends_provisioning:
  assumes "mem_inv w" and "fake_wf (w_lxd w ep)" and "lxd_names_unique c (map_of (mem_nodes w))"
    and "Syncer_Sync p (lxd_at ep) memory_nodes c w = (None, w')"
    and "map_of (mem_nodes w) k = Some row" and "n_ClusterID row = c" and "n_Status row = NodeStatusProvisioning"
    and "n_LXDMemberName row = ''''" and "map_of (f_nodes (w_lxd w ep)) '''' = None"
  shows "\<exists>row'. map_of (mem_nodes w') k = Some row' \<and> n_Status row' = NodeStatusOffline"
proof -
  from assms(3,5,6) have "world_sync.rec.sole c (map_of (mem_nodes w)) row"
    by (simp flip: keys_unique_eq add: world_sync.rec.keys_unique_def)
  from world_sync.Sync_existing [OF assms(1,4) Sync_fetches fake_wf_distinct(1) [OF assms(2)] assms(5,6) this]
  obtain row' where r: "map_of (mem_nodes w') k = Some row'"
    "node_data row' = node_data (synced_node (w_lxd w ep) row)" by (auto simp: target_synced [OF assms(2)])
  from node_data_fields [OF r(2)] assms(8,9) have "n_Status row' = NodeStatusOffline" by (simp add: synced_node_def)
  with r(1) show ?thesis by blast
qed

subsection \<open>Witnesses\<close>

text \<open>Cluster \<open>c1\<close> after a scale-out: its only node is the new one, without a member name.\<close>

definition ex_scaled :: "NodeInfo list \<Rightarrow> world" where
  "ex_scaled ms = mem.extend
     ((mem_init ex_supply)\<lparr>mem_nodes := [(''a'', zero_node\<lparr>n_ID := ''a'', n_ClusterID := ''c1'', n_Name := ''n1'',
        n_Status := NodeStatusProvisioning\<rparr>)]\<rparr>)
     \<lparr>w_lxd = (\<lambda>_. fold AddNode ms New)\<rparr>"

lemma ex_scaled_parts:
  "mem_nodes (ex_scaled ms) = [(''a'', zero_node\<lparr>n_ID := ''a'', n_ClusterID := ''c1'', n_Name := ''n1'',
     n_Status := NodeStatusProvisioning\<rparr>)]"
  "mem_clusters (ex_scaled ms) = []" "mem_insts (ex_scaled ms) = []"
  "mem_env (ex_scaled ms) = ex_supply" "w_lxd (ex_scaled ms) ep = fold AddNode ms New"
  by (simp_all add: ex_scaled_def mem_init_def mem.defs)

lemma ex_scaled_inv: "mem_inv (ex_scaled ms)"
  using ex_supply_distinct
  by (fastforce simp: ex_scaled_parts mem_inv_def fresh_supply_def used_ids_def distinct_uuids_def
      rows_wf_def ex_supply_def [THEN arg_cong, of env_tick] zero_node_def dest: ex_supply_long)


theorem sync_ends_provisioning_witness:
  "\<exists>w' row'. Syncer_Sync 0 (lxd_at ''ep'') memory_nodes ''c1'' (ex_scaled []) = (None, w') \<and>
     map_of (mem_nodes w') ''a'' = Some row' \<and> n_Status row' = NodeStatusOffline"
proof -
  let ?w = "ex_scaled []"
  have wf: "fake_wf (w_lxd ?w ''ep'')" by (simp add: ex_scaled_parts fake_wf_seeding)
  have u: "lxd_names_unique ''c1'' (map_of (mem_nodes ?w))"
    by (auto simp: lxd_names_unique_def ex_scaled_parts split: if_splits)
  obtain r w' where s: "Syncer_Sync 0 (lxd_at ''ep'') memory_nodes ''c1'' ?w = (r, w')" by fastforce
  have "r = None"
    using s
    by (simp add: Syncer_Sync_def lxd_at_reads ex_scaled_parts New_def memory_list byLXDName_def zero_node_def)
  with s have s: "Syncer_Sync 0 (lxd_at ''ep'') memory_nodes ''c1'' ?w = (None, w')" by simp
  show ?thesis
    using sync_ends_provisioning [OF ex_scaled_inv wf u s, of "''a''" "snd (hd (mem_nodes ?w))"] s
    by (auto simp: ex_scaled_parts zero_node_def New_def)
qed

end
