(* ===== verification/Go_Strings.thy ===== *)
theory Go_Strings
  imports Prelude "HOL-Library.Sublist"
begin

section \<open>The functions of the Go package strings that the code calls\<close>

text \<open>
  Strings are byte strings, so a space outside ASCII is its UTF-8 encoding. Case folding is modelled for
  the letters that have ASCII folds only; the code folds \<open>bearer\<close> and \<open>true\<close>.
\<close>

subsection \<open>TrimSpace\<close>

text \<open>The encodings of the code points for which \<open>unicode.IsSpace\<close> holds.\<close>

definition bytes_string :: "nat list \<Rightarrow> string" where
  "bytes_string bs = map char_of bs"

definition space_seqs :: "string list" where
  "space_seqs = map bytes_string
     ([[9], [10], [11], [12], [13], [32], [194, 133], [194, 160], [225, 154, 128]] @
      map (\<lambda>k. [226, 128, k]) ([128..<139] @ [168, 169, 175]) @ [[226, 129, 159], [227, 128, 128]])"

lemma space_seqs_nonempty: "p \<in> set space_seqs \<Longrightarrow> p \<noteq> []"
  by (auto simp: space_seqs_def bytes_string_def)

function strip_leading :: "string list \<Rightarrow> string \<Rightarrow> string" where
  "strip_leading ps s =
     (case List.find (\<lambda>p. p \<noteq> [] \<and> prefix p s) ps of
        None \<Rightarrow> s
      | Some p \<Rightarrow> strip_leading ps (drop (length p) s))"
  by pat_completeness auto
termination
proof (relation "measure (length \<circ> snd)")
  fix ps :: "string list" and s p
  assume "List.find (\<lambda>p. p \<noteq> [] \<and> prefix p s) ps = Some p"
  then have "p \<noteq> []" "prefix p s" by (auto simp: find_Some_iff)
  then show "((ps, drop (length p) s), ps, s) \<in> measure (length \<circ> snd)"
    by (cases s) (auto simp: prefix_def)
qed simp

declare strip_leading.simps [simp del]

definition TrimSpace :: "string \<Rightarrow> string" where
  "TrimSpace s = rev (strip_leading (map rev space_seqs) (rev (strip_leading space_seqs s)))"

lemma strip_leading_suffix: "suffix (strip_leading ps s) s"
proof (induction ps s rule: strip_leading.induct)
  case (1 ps s)
  show ?case
  proof (cases "List.find (\<lambda>p. p \<noteq> [] \<and> prefix p s) ps")
    case None
    then show ?thesis by (subst strip_leading.simps) simp
  next
    case (Some p)
    from 1 [OF Some] Some show ?thesis
      by (subst strip_leading.simps) (auto intro: suffix_order.trans suffix_drop)
  qed
qed

lemma strip_leading_none: "(\<And>p. p \<in> set ps \<Longrightarrow> p \<noteq> [] \<Longrightarrow> \<not> prefix p s) \<Longrightarrow> strip_leading ps s = s"
  by (subst strip_leading.simps) (auto split: option.split simp: find_Some_iff)

text \<open>Nothing is left to strip, so trimming twice is trimming once.\<close>

lemma strip_leading_stop: "p \<in> set ps \<Longrightarrow> p \<noteq> [] \<Longrightarrow> \<not> prefix p (strip_leading ps s)"
proof (induction ps s rule: strip_leading.induct)
  case (1 ps s)
  show ?case
  proof (cases "List.find (\<lambda>p. p \<noteq> [] \<and> prefix p s) ps")
    case None
    then have "strip_leading ps s = s" by (subst strip_leading.simps) simp
    with None 1(2,3) show ?thesis by (auto simp: find_None_iff)
  next
    case (Some q)
    then have "strip_leading ps s = strip_leading ps (drop (length q) s)" by (subst strip_leading.simps) simp
    with 1(1) [OF Some 1(2,3)] show ?thesis by simp
  qed
qed

lemma TrimSpace_sublist: "sublist (TrimSpace s) s"
proof -
  let ?l = "strip_leading space_seqs s"
  have "suffix (rev (TrimSpace s)) (rev ?l)" unfolding TrimSpace_def rev_rev_ident by (rule strip_leading_suffix)
  then have "prefix (TrimSpace s) ?l" by (simp add: suffix_to_prefix)
  moreover have "suffix ?l s" by (rule strip_leading_suffix)
  ultimately show ?thesis by (meson prefix_imp_sublist sublist_order.order.trans suffix_imp_sublist)
qed

lemma TrimSpace_idem: "TrimSpace (TrimSpace s) = TrimSpace s"
proof -
  let ?l = "strip_leading space_seqs s" and ?t = "TrimSpace s"
  have "suffix (rev ?t) (rev ?l)" unfolding TrimSpace_def rev_rev_ident by (rule strip_leading_suffix)
  then have "prefix ?t ?l" by (simp add: suffix_to_prefix)
  then have "\<not> prefix p ?t" if "p \<in> set space_seqs" "p \<noteq> []" for p
    using strip_leading_stop [OF that, of s] by (meson prefix_order.trans)
  then have l: "strip_leading space_seqs ?t = ?t" by (intro strip_leading_none)
  have "strip_leading (map rev space_seqs) (rev ?t) = rev ?t"
    using strip_leading_stop [of _ "map rev space_seqs" "rev ?l"]
    by (intro strip_leading_none) (simp add: TrimSpace_def)
  then show ?thesis by (subst TrimSpace_def) (simp add: l)
qed

text \<open>A string that starts and ends with visible ASCII characters is left as it is.\<close>

definition visible :: "char \<Rightarrow> bool" where
  "visible c \<longleftrightarrow> 32 < (of_char c :: nat) \<and> (of_char c :: nat) < 127"

lemma visible_no_space:
  assumes "visible c" and "p \<in> set space_seqs"
  shows "\<not> prefix p (c # cs)" and "\<not> prefix (rev p) (c # cs)"
  using assms by (auto simp: space_seqs_def bytes_string_def visible_def)

lemma TrimSpace_visible:
  assumes "s = [] \<or> visible (hd s) \<and> visible (last s)"
  shows "TrimSpace s = s"
proof (cases s)
  case (Cons c cs)
  with assms have "strip_leading space_seqs s = s" by (intro strip_leading_none) (auto dest: visible_no_space)
  moreover obtain d ds where r: "rev s = d # ds" "d = last s" using Cons by (metis last_rev hd_rev list.sel(1) list.exhaust rev_is_Nil_conv list.distinct(1))
  moreover from this assms Cons have "strip_leading (map rev space_seqs) (rev s) = rev s"
    by (intro strip_leading_none) (auto dest: visible_no_space)
  ultimately show ?thesis by (simp add: TrimSpace_def)
qed (simp add: TrimSpace_def strip_leading_none)

subsection \<open>EqualFold, Cut, Split, HasSuffix and TrimSuffix\<close>

definition ascii_lower :: "char \<Rightarrow> char" where
  "ascii_lower c = (let k = of_char c :: nat in if 65 \<le> k \<and> k \<le> 90 then char_of (k + 32) else c)"

definition EqualFold :: "string \<Rightarrow> string \<Rightarrow> bool" where
  "EqualFold s t \<longleftrightarrow> map ascii_lower s = map ascii_lower t"

text \<open>\<open>Cut\<close> for a separator of one character.\<close>

fun Cut :: "string \<Rightarrow> char \<Rightarrow> (string \<times> string) option" where
  "Cut [] sep = None"
| "Cut (c # cs) sep =
     (if c = sep then Some ([], cs) else map_option (\<lambda>(before, after). (c # before, after)) (Cut cs sep))"

lemma Cut_Some: "Cut s sep = Some (a, b) \<longleftrightarrow> s = a @ sep # b \<and> sep \<notin> set a"
proof (induction s arbitrary: a)
  case (Cons c cs)
  then show ?case by (cases a) auto
qed simp

fun Split :: "string \<Rightarrow> char \<Rightarrow> string list" where
  "Split [] sep = [[]]"
| "Split (c # cs) sep =
     (if c = sep then [] # Split cs sep
      else (case Split cs sep of [] \<Rightarrow> [[c]] | part # parts \<Rightarrow> (c # part) # parts))"

lemma Split_nonempty: "Split s sep \<noteq> []"
  by (induction s) (auto split: list.split)

lemma Split_no_sep: "part \<in> set (Split s sep) \<Longrightarrow> sep \<notin> set part"
  by (induction s arbitrary: part) (auto split: list.splits if_splits)

definition HasSuffix :: "string \<Rightarrow> string \<Rightarrow> bool" where
  "HasSuffix s suf \<longleftrightarrow> suffix suf s"

definition TrimSuffix :: "string \<Rightarrow> string \<Rightarrow> string" where
  "TrimSuffix s suf = (if HasSuffix s suf then take (length s - length suf) s else s)"

lemma TrimSuffix_append [simp]: "TrimSuffix (s @ suf) suf = s"
  by (simp add: TrimSuffix_def HasSuffix_def suffix_def)

end
