(* ===== verification/Api.thy ===== *)
theory Api
  imports Memory_Store Go_Strings
begin

section \<open>The REST API (internal/api)\<close>

text \<open>
  Requests and responses as records; a path is its list of segments, an absent header is the empty
  string. A handler maps a request and a state to a response and the next state, and is \<open>None\<close> when it
  panics. What lies outside the code is an argument: \<open>rnd\<close> for \<open>crypto/rand.Read\<close>, the two decoders of a
  JSON body (\<open>None\<close> when \<open>Decode\<close> reports an error), and \<open>compare\<close> for bcrypt.
\<close>

record http_request =
  hr_Method :: string
  hr_Path :: "string list"
  hr_Authorization :: string
  hr_RequestID :: string
  hr_Body :: string

datatype http_body =
  NoBody | TextBody string | HealthBody | ErrorBody string string
| ClusterBody cluster | ClusterListBody "cluster list" nat

record http_response =
  rs_Status :: nat
  rs_Headers :: "(string \<times> string) list"
  rs_Body :: http_body

type_synonym 'w handler = "http_request \<Rightarrow> 'w \<Rightarrow> http_response option \<times> 'w"

record clusterCreateRequest =
  cr_Name :: string
  cr_LXDEndpoint :: string
  cr_HyperscalerProvider :: string
  cr_HyperscalerConfig :: json_map
  cr_ScalingConfig :: json_map

record clusterUpdateRequest =
  ur_Name :: "string option"
  ur_LXDEndpoint :: "string option"
  ur_HyperscalerProvider :: "string option"
  ur_HyperscalerConfig :: json_map
  ur_ScalingConfig :: json_map
  ur_Status :: "string option"

record api_outside =
  decode_create :: "string \<Rightarrow> clusterCreateRequest option"
  decode_update :: "string \<Rightarrow> clusterUpdateRequest option"
  compare_hash :: "string \<Rightarrow> string \<Rightarrow> bool"

record 'w Server =
  sv_apiKeyHashes :: "string list"
  sv_clusters :: "'w cluster_repository option"

text \<open>\<open>New\<close> applies its options in order; the routes depend on the fields only (see \<open>mux\<close>).\<close>

definition api_WithClusterRepository :: "'w cluster_repository \<Rightarrow> 'w Server \<Rightarrow> 'w Server" where
  "api_WithClusterRepository repo s = s\<lparr>sv_clusters := Some repo\<rparr>"

definition api_New :: "string list \<Rightarrow> ('w Server \<Rightarrow> 'w Server) list \<Rightarrow> 'w Server" where
  "api_New apiKeyHashes opts = fold (\<lambda>opt s. opt s) opts \<lparr>sv_apiKeyHashes = apiKeyHashes, sv_clusters = None\<rparr>"

subsection \<open>Writing responses\<close>

definition json_header :: "string \<times> string" where
  "json_header = (''Content-Type'', ''application/json'')"

definition writeJSON :: "nat \<Rightarrow> http_body \<Rightarrow> http_response" where
  "writeJSON st v = \<lparr>rs_Status = st, rs_Headers = [json_header], rs_Body = v\<rparr>"

definition writeError :: "nat \<Rightarrow> string \<Rightarrow> string \<Rightarrow> http_response" where
  "writeError st code message = \<lparr>rs_Status = st, rs_Headers = [json_header], rs_Body = ErrorBody code message\<rparr>"

definition writeInternalError :: http_response where
  "writeInternalError = writeError 500 ''internal_error'' ''an unexpected error occurred''"

definition writeUnauthorized :: http_response where
  "writeUnauthorized =
     (let r = writeError 401 ''unauthorized'' ''valid API key required''
      in r\<lparr>rs_Headers := (''WWW-Authenticate'', ''Bearer realm=\"lx-container-weaver\"'') # rs_Headers r\<rparr>)"

definition validation_error :: "string \<Rightarrow> http_response" where
  "validation_error message = writeError 422 ''validation_error'' message"

subsection \<open>The cluster handlers\<close>

definition handleListClusters :: "'w cluster_repository \<Rightarrow> 'w \<Rightarrow> http_response \<times> 'w" where
  "handleListClusters C w =
     (case ListClusters C w of
        (Inl err, w1) \<Rightarrow> (writeInternalError, w1)
      | (Inr clusters, w1) \<Rightarrow> (writeJSON 200 (ClusterListBody clusters (length clusters)), w1))"

definition cluster_of_request :: "clusterCreateRequest \<Rightarrow> cluster" where
  "cluster_of_request req =
     zero_cluster\<lparr>c_Name := TrimSpace (cr_Name req), c_LXDEndpoint := TrimSpace (cr_LXDEndpoint req),
       c_HyperscalerProvider := (if cr_HyperscalerProvider req = '''' then ''hetzner''
                                 else cr_HyperscalerProvider req),
       c_HyperscalerConfig := (case cr_HyperscalerConfig req of None \<Rightarrow> Some Map.empty | Some m \<Rightarrow> Some m),
       c_ScalingConfig := (case cr_ScalingConfig req of None \<Rightarrow> Some Map.empty | Some m \<Rightarrow> Some m),
       c_Status := ''active''\<rparr>"

definition handleCreateCluster ::
    "api_outside \<Rightarrow> 'w cluster_repository \<Rightarrow> string \<Rightarrow> 'w \<Rightarrow> http_response \<times> 'w" where
  "handleCreateCluster out C body w =
     (case decode_create out body of
        None \<Rightarrow> (validation_error ''request body is not valid JSON'', w)
      | Some req \<Rightarrow>
          if TrimSpace (cr_Name req) = '''' \<or> TrimSpace (cr_LXDEndpoint req) = ''''
          then (validation_error ''name and lxd_endpoint are required'', w)
          else
            (case CreateCluster C (cluster_of_request req) w of
               (Inl err, w1) \<Rightarrow>
                 if errors_is err (PersistenceErr ErrConflict)
                 then (writeError 409 ''conflict'' ''a cluster with that name already exists'', w1)
                 else (writeInternalError, w1)
             | (Inr created, w1) \<Rightarrow> (writeJSON 201 (ClusterBody created), w1)))"

definition handleGetCluster :: "'w cluster_repository \<Rightarrow> string \<Rightarrow> 'w \<Rightarrow> http_response \<times> 'w" where
  "handleGetCluster C cid w =
     (case GetCluster C cid w of
        (Inl err, w1) \<Rightarrow>
          if errors_is err (PersistenceErr ErrNotFound)
          then (writeError 404 ''not_found'' ''cluster not found'', w1)
          else (writeInternalError, w1)
      | (Inr c, w1) \<Rightarrow> (writeJSON 200 (ClusterBody c), w1))"

text \<open>The merge of an update onto the stored cluster; \<open>Inl\<close> with the message of a validation error.\<close>

definition merge_name :: "string option \<Rightarrow> cluster \<Rightarrow> string + cluster" where
  "merge_name r c =
     (case r of
        None \<Rightarrow> Inr c
      | Some n \<Rightarrow> if TrimSpace n = '''' then Inl ''name must not be empty'' else Inr (c\<lparr>c_Name := TrimSpace n\<rparr>))"

definition merge_endpoint :: "string option \<Rightarrow> cluster \<Rightarrow> string + cluster" where
  "merge_endpoint r c =
     (case r of
        None \<Rightarrow> Inr c
      | Some e \<Rightarrow> if TrimSpace e = '''' then Inl ''lxd_endpoint must not be empty''
                 else Inr (c\<lparr>c_LXDEndpoint := TrimSpace e\<rparr>))"

definition merge_rest :: "clusterUpdateRequest \<Rightarrow> cluster \<Rightarrow> cluster" where
  "merge_rest req c =
     c\<lparr>c_HyperscalerProvider := (case ur_HyperscalerProvider req of None \<Rightarrow> c_HyperscalerProvider c | Some p \<Rightarrow> p),
       c_HyperscalerConfig := (case ur_HyperscalerConfig req of None \<Rightarrow> c_HyperscalerConfig c | Some m \<Rightarrow> Some m),
       c_ScalingConfig := (case ur_ScalingConfig req of None \<Rightarrow> c_ScalingConfig c | Some m \<Rightarrow> Some m),
       c_Status := (case ur_Status req of None \<Rightarrow> c_Status c | Some s \<Rightarrow> s)\<rparr>"

definition merge_update :: "clusterUpdateRequest \<Rightarrow> cluster \<Rightarrow> string + cluster" where
  "merge_update req c =
     (case merge_name (ur_Name req) c of
        Inl message \<Rightarrow> Inl message
      | Inr c1 \<Rightarrow>
          (case merge_endpoint (ur_LXDEndpoint req) c1 of
             Inl message \<Rightarrow> Inl message
           | Inr c2 \<Rightarrow> Inr (merge_rest req c2)))"

definition handleUpdateCluster ::
    "api_outside \<Rightarrow> 'w cluster_repository \<Rightarrow> string \<Rightarrow> string \<Rightarrow> 'w \<Rightarrow> http_response \<times> 'w" where
  "handleUpdateCluster out C cid body w =
     (case decode_update out body of
        None \<Rightarrow> (validation_error ''request body is not valid JSON'', w)
      | Some req \<Rightarrow>
          (case GetCluster C cid w of
             (Inl err, w1) \<Rightarrow>
               if errors_is err (PersistenceErr ErrNotFound)
               then (writeError 404 ''not_found'' ''cluster not found'', w1)
               else (writeInternalError, w1)
           | (Inr existing, w1) \<Rightarrow>
               (case merge_update req existing of
                  Inl message \<Rightarrow> (validation_error message, w1)
                | Inr merged \<Rightarrow>
                    (case UpdateCluster C merged w1 of
                       (Inl err, w2) \<Rightarrow>
                         if errors_is err (PersistenceErr ErrNotFound)
                         then (writeError 404 ''not_found'' ''cluster not found'', w2)
                         else if errors_is err (PersistenceErr ErrConflict)
                         then (writeError 409 ''conflict'' ''a cluster with that name already exists'', w2)
                         else (writeInternalError, w2)
                     | (Inr updated, w2) \<Rightarrow> (writeJSON 200 (ClusterBody updated), w2)))))"

definition handleDeleteCluster :: "'w cluster_repository \<Rightarrow> string \<Rightarrow> 'w \<Rightarrow> http_response \<times> 'w" where
  "handleDeleteCluster C cid w =
     (case DeleteCluster C cid w of
        (Some err, w1) \<Rightarrow>
          if errors_is err (PersistenceErr ErrNotFound)
          then (writeError 404 ''not_found'' ''cluster not found'', w1)
          else (writeInternalError, w1)
      | (None, w1) \<Rightarrow> (\<lparr>rs_Status = 204, rs_Headers = [], rs_Body = NoBody\<rparr>, w1))"

definition handleHealth :: "'w \<Rightarrow> http_response \<times> 'w" where
  "handleHealth w = (\<lparr>rs_Status = 200, rs_Headers = [json_header], rs_Body = HealthBody\<rparr>, w)"

subsection \<open>Middleware\<close>

definition bearerToken :: "http_request \<Rightarrow> string option" where
  "bearerToken r =
     (if hr_Authorization r = '''' then None
      else case Cut (hr_Authorization r) (CHR '' '') of
             None \<Rightarrow> None
           | Some (scheme, token) \<Rightarrow>
               if \<not> EqualFold scheme ''bearer'' \<or> token = '''' then None else Some token)"

fun validate_from :: "(string \<Rightarrow> string \<Rightarrow> bool) \<Rightarrow> string \<Rightarrow> string list \<Rightarrow> bool \<Rightarrow> bool" where
  "validate_from compare token [] matched = matched"
| "validate_from compare token (hash # hashes) matched =
     validate_from compare token hashes (if compare hash token then True else matched)"

definition validateAPIKey :: "(string \<Rightarrow> string \<Rightarrow> bool) \<Rightarrow> string \<Rightarrow> string list \<Rightarrow> bool" where
  "validateAPIKey compare token hashes = validate_from compare token hashes False"

definition RequireAPIKey :: "(string \<Rightarrow> string \<Rightarrow> bool) \<Rightarrow> string list \<Rightarrow> 'w handler \<Rightarrow> 'w handler" where
  "RequireAPIKey compare hashes next_handler r w =
     (case bearerToken r of
        None \<Rightarrow> (Some writeUnauthorized, w)
      | Some token \<Rightarrow>
          if \<not> validateAPIKey compare token hashes then (Some writeUnauthorized, w)
          else next_handler r w)"

text \<open>A panic of the handler below becomes a 500 response.\<close>

definition Recoverer :: "'w handler \<Rightarrow> 'w handler" where
  "Recoverer next_handler r w =
     (case next_handler r w of
        (None, w1) \<Rightarrow> (Some writeInternalError, w1)
      | (Some resp, w1) \<Rightarrow> (Some resp, w1))"

type_synonym 'w rand16 = "'w \<Rightarrow> byte list res \<times> 'w"

definition newRequestID :: "'w rand16 \<Rightarrow> 'w \<Rightarrow> string \<times> 'w" where
  "newRequestID rnd w =
     (case rnd w of
        (Inl err, w1) \<Rightarrow> (''00000000-0000-4000-8000-000000000000'', w1)
      | (Inr b, w1) \<Rightarrow> (uuid_text b, w1))"

definition RequestID :: "'w rand16 \<Rightarrow> 'w handler \<Rightarrow> 'w handler" where
  "RequestID rnd next_handler r w =
     (let (rid, w1) = (if hr_RequestID r = '''' then newRequestID rnd w else (hr_RequestID r, w));
          (resp, w2) = next_handler r w1
      in (map_option (\<lambda>x. x\<lparr>rs_Headers := (''X-Request-ID'', rid) # rs_Headers x\<rparr>) resp, w2))"

subsection \<open>The routes\<close>

definition some_response :: "http_response \<times> 'w \<Rightarrow> http_response option \<times> 'w" where
  "some_response p = (Some (fst p), snd p)"

definition not_found_page :: http_response where
  "not_found_page = \<lparr>rs_Status = 404, rs_Headers = [], rs_Body = TextBody ''404 page not found''\<rparr>"

definition method_not_allowed :: http_response where
  "method_not_allowed = \<lparr>rs_Status = 405, rs_Headers = [], rs_Body = TextBody ''Method Not Allowed''\<rparr>"

text \<open>\<open>GET\<close> patterns match \<open>HEAD\<close> too; the wildcard matches one non-empty segment. The \<open>Allow\<close> header that
  the mux adds to a 405 is left out.\<close>

definition is_get :: "http_request \<Rightarrow> bool" where
  "is_get r \<longleftrightarrow> hr_Method r = ''GET'' \<or> hr_Method r = ''HEAD''"

definition clusters_handler :: "api_outside \<Rightarrow> 'w cluster_repository \<Rightarrow> http_request \<Rightarrow> 'w handler option" where
  "clusters_handler out C r =
     (case hr_Path r of
        [a, b] \<Rightarrow>
          if is_get r then Some (\<lambda>r w. some_response (handleListClusters C w))
          else if hr_Method r = ''POST'' then Some (\<lambda>r w. some_response (handleCreateCluster out C (hr_Body r) w))
          else None
      | [a, b, cid] \<Rightarrow>
          if is_get r then Some (\<lambda>r w. some_response (handleGetCluster C cid w))
          else if hr_Method r = ''PUT'' then Some (\<lambda>r w. some_response (handleUpdateCluster out C cid (hr_Body r) w))
          else if hr_Method r = ''DELETE'' then Some (\<lambda>r w. some_response (handleDeleteCluster C cid w))
          else None
      | _ \<Rightarrow> None)"

definition is_clusters_path :: "string list \<Rightarrow> bool" where
  "is_clusters_path p \<longleftrightarrow> p = [''v1'', ''clusters''] \<or> (\<exists>cid. p = [''v1'', ''clusters'', cid] \<and> cid \<noteq> '''')"

lemma is_clusters_path_code [code]:
  "is_clusters_path p =
     (case p of [a, b] \<Rightarrow> a = ''v1'' \<and> b = ''clusters''
      | [a, b, cid] \<Rightarrow> a = ''v1'' \<and> b = ''clusters'' \<and> cid \<noteq> '''' | _ \<Rightarrow> False)"
  by (auto simp: is_clusters_path_def split: list.split)

definition mux :: "api_outside \<Rightarrow> 'w Server \<Rightarrow> 'w handler" where
  "mux out s r w =
     (if hr_Path r = [''v1'', ''health'']
      then (if is_get r then some_response (handleHealth w) else (Some method_not_allowed, w))
      else
        (case sv_clusters s of
           None \<Rightarrow> (Some not_found_page, w)
         | Some C \<Rightarrow>
             if is_clusters_path (hr_Path r)
             then (case clusters_handler out C r of
                     None \<Rightarrow> (Some method_not_allowed, w)
                   | Some h \<Rightarrow> RequireAPIKey (compare_hash out) (sv_apiKeyHashes s) h r w)
             else (Some not_found_page, w)))"

text \<open>The chain of \<open>New\<close>, without the request log.\<close>

definition ServeHTTP :: "'w rand16 \<Rightarrow> api_outside \<Rightarrow> 'w Server \<Rightarrow> 'w handler" where
  "ServeHTTP rnd out s = RequestID rnd (Recoverer (mux out s))"

section \<open>Properties\<close>

lemma validateAPIKey_iff: "validateAPIKey compare token hashes \<longleftrightarrow> (\<exists>h \<in> set hashes. compare h token)"
proof -
  have "validate_from compare token hashes m \<longleftrightarrow> m \<or> (\<exists>h \<in> set hashes. compare h token)" for m
    by (induction hashes arbitrary: m) auto
  then show ?thesis by (simp add: validateAPIKey_def)
qed

text \<open>The credentials of a request are valid: a bearer token that matches one of the hashes.\<close>

definition authorised :: "api_outside \<Rightarrow> 'w Server \<Rightarrow> http_request \<Rightarrow> bool" where
  "authorised out s r \<longleftrightarrow>
     (\<exists>token. bearerToken r = Some token \<and> (\<exists>h \<in> set (sv_apiKeyHashes s). compare_hash out h token))"

lemma RequireAPIKey_unauthorised:
  "\<not> authorised out s r \<Longrightarrow>
     RequireAPIKey (compare_hash out) (sv_apiKeyHashes s) h r w = (Some writeUnauthorized, w)"
  by (auto simp: RequireAPIKey_def authorised_def validateAPIKey_iff split: option.split)

text \<open>C40. Without a valid key only the health endpoint answers. A request for any other path without a
  bearer token that matches a stored hash gets 401, 404 or 405, and 401 where a cluster route exists; the state is as
  after drawing the request ID, so no repository, whatever it is, was called.\<close>

theorem api_requires_key:
  assumes "hr_Path r \<noteq> [''v1'', ''health'']" and "\<not> authorised out s r"
  shows "\<exists>resp. ServeHTTP rnd out s r w =
       (Some resp, if hr_RequestID r = '''' then snd (newRequestID rnd w) else w) \<and>
     rs_Status resp \<in> {401, 404, 405} \<and>
     (\<forall>C. sv_clusters s = Some C \<longrightarrow> is_clusters_path (hr_Path r) \<longrightarrow> clusters_handler out C r \<noteq> None \<longrightarrow>
        rs_Status resp = 401)"
proof -
  have m: "\<exists>resp. mux out s r v = (Some resp, v) \<and> rs_Status resp \<in> {401, 404, 405} \<and>
     (\<forall>C. sv_clusters s = Some C \<longrightarrow> is_clusters_path (hr_Path r) \<longrightarrow> clusters_handler out C r \<noteq> None \<longrightarrow>
        rs_Status resp = 401)" for v
    using assms(1)
    by (auto simp: mux_def RequireAPIKey_unauthorised [OF assms(2)] writeUnauthorized_def writeError_def
        not_found_page_def method_not_allowed_def Let_def split: option.split)
  obtain rid v where v: "(if hr_RequestID r = '''' then newRequestID rnd w else (hr_RequestID r, w)) = (rid, v)"
    by fastforce
  then have "v = (if hr_RequestID r = '''' then snd (newRequestID rnd w) else w)"
    by (auto split: if_splits)
  with m [of v] v show ?thesis
    by (auto simp: ServeHTTP_def RequestID_def Recoverer_def)
qed

text \<open>Creating a cluster on the in-memory store, on every branch: 422 for a body that does not decode or
  has a blank name or endpoint, 409 exactly when the trimmed name is taken, otherwise 201 with the stored
  cluster, which has the request's data with the defaults and a new ID, or 500 when no ID could be
  drawn. Only a 201 changes the table.\<close>

theorem create_cluster_outcome:
  assumes "mem_inv w" and "handleCreateCluster out memory_clusters body w = (resp, w')"
  shows "(if decode_create out body = None then resp = validation_error ''request body is not valid JSON'' \<and> w' = w
     else (let req = the (decode_create out body); c = cluster_of_request req in
       if TrimSpace (cr_Name req) = '''' \<or> TrimSpace (cr_LXDEndpoint req) = ''''
       then resp = validation_error ''name and lxd_endpoint are required'' \<and> w' = w
       else if \<exists>k d. map_of (mem_clusters w) k = Some d \<and> c_Name d = TrimSpace (cr_Name req)
       then rs_Status resp = 409 \<and> w' = w
       else (rs_Status resp = 500 \<and> mem_clusters w' = mem_clusters w) \<or>
         (\<exists>k d. resp = writeJSON 201 (ClusterBody d) \<and> map_of (mem_clusters w) k = None \<and>
            map_of (mem_clusters w') = (map_of (mem_clusters w))(k \<mapsto> d) \<and>
            cluster_data d = cluster_data (c\<lparr>c_ID := k\<rparr>))))"
proof (cases "decode_create out body")
  case None
  with assms show ?thesis by (simp add: handleCreateCluster_def)
next
  case (Some req)
  let ?blank = "TrimSpace (cr_Name req) = '''' \<or> TrimSpace (cr_LXDEndpoint req) = ''''"
  let ?taken = "\<exists>k d. map_of (mem_clusters w) k = Some d \<and> c_Name d = TrimSpace (cr_Name req)"
  obtain r w1 where c: "CreateCluster memory_clusters (cluster_of_request req) w = (r, w1)" by fastforce
  have taken: "?taken \<longleftrightarrow> list_ex (\<lambda>(_, existing). c_Name existing = c_Name (cluster_of_request req)) (mem_clusters w)"
    using assms(1) by (fastforce simp: list_ex_iff cluster_of_request_def mem_inv_def rows_wf_set)
  show ?thesis
  proof (cases ?blank)
    case True
    with Some assms show ?thesis by (auto simp: handleCreateCluster_def Let_def)
  next
    case False
    show ?thesis
    proof (cases r)
      case (Inr d)
      with c taken have "\<not> ?taken"
        by (auto simp: memory_interfaces ClusterStore_CreateCluster_def split: if_splits)
      moreover have "resp = writeJSON 201 (ClusterBody d)" "w' = w1"
        using Some False Inr c assms(2) by (simp_all add: handleCreateCluster_def)
      ultimately show ?thesis
        using Some False mem_cluster.create_ok [OF assms(1) c [unfolded Inr]] by (simp add: Let_def) blast
    next
      case (Inl e)
      have e: "(?taken \<and> errors_is e (PersistenceErr ErrConflict) \<and> w1 = w) \<or>
         (\<not> ?taken \<and> \<not> errors_is e (PersistenceErr ErrConflict) \<and> mem_clusters w1 = mem_clusters w)"
        using c Inl unfolding taken
        by (auto simp: memory_interfaces ClusterStore_CreateCluster_def conflict_error_def newUUID_def
            rand_read_def time_now_def Let_def split: if_splits option.splits)
      have "w' = w1 \<and> rs_Status resp = (if errors_is e (PersistenceErr ErrConflict) then 409 else 500)"
        using Some False Inl c assms(2)
        by (auto simp: handleCreateCluster_def writeError_def writeInternalError_def split: if_splits)
      with e Some False show ?thesis by (auto simp: Let_def)
    qed
  qed
qed

lemma merge_update_fields:
  "merge_update req c = Inr d \<Longrightarrow> c_ID d = c_ID c \<and>
     (ur_Name req = None \<longrightarrow> c_Name d = c_Name c) \<and> (ur_LXDEndpoint req = None \<longrightarrow> c_LXDEndpoint d = c_LXDEndpoint c) \<and>
     (ur_HyperscalerProvider req = None \<longrightarrow> c_HyperscalerProvider d = c_HyperscalerProvider c) \<and>
     (ur_HyperscalerConfig req = None \<longrightarrow> c_HyperscalerConfig d = c_HyperscalerConfig c) \<and>
     (ur_ScalingConfig req = None \<longrightarrow> c_ScalingConfig d = c_ScalingConfig c) \<and>
     (ur_Status req = None \<longrightarrow> c_Status d = c_Status c)"
  by (auto simp: merge_update_def merge_name_def merge_endpoint_def merge_rest_def split: option.splits if_splits)

lemma update_memory_cases:
  assumes "mem_inv w" and "map_of (mem_clusters w) (c_ID c) = Some old"
  shows "(\<exists>k d. map_of (mem_clusters w) k = Some d \<and> k \<noteq> c_ID c \<and> c_Name d = c_Name c) \<and>
       UpdateCluster memory_clusters c w =
         (Inl (conflict_error ''%w: cluster name %q already exists'' [c_Name c]), w) \<or>
     \<not> (\<exists>k d. map_of (mem_clusters w) k = Some d \<and> k \<noteq> c_ID c \<and> c_Name d = c_Name c) \<and>
       (\<exists>d w'. UpdateCluster memory_clusters c w = (Inr d, w'))"
proof -
  have "list_ex (\<lambda>(_, row). c_ID row \<noteq> c_ID c \<and> c_Name row = c_Name c) (mem_clusters w) \<longleftrightarrow>
      (\<exists>k d. map_of (mem_clusters w) k = Some d \<and> k \<noteq> c_ID c \<and> c_Name d = c_Name c)"
    using assms(1) rows_wf_key by (fastforce simp: list_ex_iff mem_inv_def rows_wf_set)
  with assms(2) show ?thesis
    by (simp add: memory_interfaces ClusterStore_UpdateCluster_def time_now_def Let_def)
qed

text \<open>Updating a cluster on the in-memory store, on every branch: 404 for an unknown ID, 422 for a blank name
  or endpoint, 409 exactly when another cluster has the new name, otherwise 200 with the stored cluster,
  in which every field that the request left out keeps its value, as do ID and creation time. Only a 200 changes
  the table, and only this row.\<close>

theorem update_cluster_outcome:
  assumes "mem_inv w" and "decode_update out body = Some req"
    and "handleUpdateCluster out memory_clusters cid body w = (resp, w')"
  shows "case map_of (mem_clusters w) cid of
      None \<Rightarrow> rs_Status resp = 404 \<and> w' = w
    | Some old \<Rightarrow>
        (case merge_update req old of
           Inl message \<Rightarrow> resp = validation_error message \<and> w' = w
         | Inr c \<Rightarrow>
             if \<exists>k d. map_of (mem_clusters w) k = Some d \<and> k \<noteq> cid \<and> c_Name d = c_Name c
             then rs_Status resp = 409 \<and> w' = w
             else \<exists>d. resp = writeJSON 200 (ClusterBody d) \<and> map_of (mem_clusters w') = (map_of (mem_clusters w))(cid \<mapsto> d) \<and>
                cluster_data d = cluster_data c \<and> c_CreatedAt d = c_CreatedAt old \<and> c_ID c = cid \<and>
                (ur_Name req = None \<longrightarrow> c_Name c = c_Name old) \<and>
                (ur_LXDEndpoint req = None \<longrightarrow> c_LXDEndpoint c = c_LXDEndpoint old) \<and>
                (ur_HyperscalerConfig req = None \<longrightarrow> c_HyperscalerConfig c = c_HyperscalerConfig old) \<and>
                (ur_ScalingConfig req = None \<longrightarrow> c_ScalingConfig c = c_ScalingConfig old) \<and>
                (ur_Status req = None \<longrightarrow> c_Status c = c_Status old))"
proof (cases "map_of (mem_clusters w) cid")
  case None
  with assms show ?thesis
    by (auto simp: handleUpdateCluster_def memory_interfaces ClusterStore_GetCluster_def not_found_error_def writeError_def)
next
  case (Some old)
  then have get: "GetCluster memory_clusters cid w = (Inr old, w)"
    by (simp add: memory_interfaces ClusterStore_GetCluster_def)
  show ?thesis
  proof (cases "merge_update req old")
    case (Inl m)
    with Some get assms show ?thesis by (simp add: handleUpdateCluster_def)
  next
    case (Inr c)
    note f = merge_update_fields [OF Inr]
    from mem_cluster.cluster_key [OF assms(1) Some] f have cid: "c_ID c = cid" by simp
    let ?taken = "\<exists>k d. map_of (mem_clusters w) k = Some d \<and> k \<noteq> cid \<and> c_Name d = c_Name c"
    have "?taken \<and> UpdateCluster memory_clusters c w =
           (Inl (conflict_error ''%w: cluster name %q already exists'' [c_Name c]), w) \<or>
       \<not> ?taken \<and> (\<exists>d w2. UpdateCluster memory_clusters c w = (Inr d, w2))"
      using update_memory_cases [OF assms(1), of c old] Some unfolding cid by blast
    then show ?thesis
    proof (elim disjE conjE exE)
      assume t: "\<not> ?taken"
      fix d w2 assume u: "UpdateCluster memory_clusters c w = (Inr d, w2)"
      with Some get Inr assms(2,3) have "resp = writeJSON 200 (ClusterBody d)" "w' = w2"
        by (simp_all add: handleUpdateCluster_def)
      moreover have "map_of (mem_clusters w2) = (map_of (mem_clusters w))(cid \<mapsto> d)" "cluster_data d = cluster_data c"
        "c_CreatedAt d = c_CreatedAt old"
        using mem_cluster.update_ok [OF assms(1) u] Some cid by auto
      ultimately show ?thesis
        unfolding Some option.case Inr sum.case if_not_P [OF t] using f cid by (intro exI [of _ d]) simp
    next
      fix k d assume "UpdateCluster memory_clusters c w =
        (Inl (conflict_error ''%w: cluster name %q already exists'' [c_Name c]), w)"
        and t: "map_of (mem_clusters w) k = Some d" "k \<noteq> cid" "c_Name d = c_Name c"
      with Some get Inr assms(2,3) have "rs_Status resp = 409 \<and> w' = w"
        by (auto simp: handleUpdateCluster_def conflict_error_def writeError_def)
      with Some Inr t show ?thesis by auto
    qed
  qed
qed

subsection \<open>Witnesses\<close>

definition ex_out :: api_outside where
  "ex_out = \<lparr>decode_create = (\<lambda>b. Some \<lparr>cr_Name = b, cr_LXDEndpoint = ''https://10.0.0.1:8443'',
       cr_HyperscalerProvider = '''', cr_HyperscalerConfig = None, cr_ScalingConfig = None\<rparr>),
     decode_update = (\<lambda>b. Some \<lparr>ur_Name = Some b, ur_LXDEndpoint = None, ur_HyperscalerProvider = None,
       ur_HyperscalerConfig = None, ur_ScalingConfig = None, ur_Status = None\<rparr>),
     compare_hash = (\<lambda>h token. h = token)\<rparr>"

definition ex_http :: "string \<Rightarrow> http_request" where
  "ex_http auth = \<lparr>hr_Method = ''GET'', hr_Path = [''v1'', ''clusters''], hr_Authorization = auth,
     hr_RequestID = ''r1'', hr_Body = ''''\<rparr>"

definition ex_server :: "mem Server" where
  "ex_server = \<lparr>sv_apiKeyHashes = [''k1'', ''k2''], sv_clusters = Some memory_clusters\<rparr>"

theorem api_requires_key_witness:
  "\<exists>resp. ServeHTTP (\<lambda>w. (Inr [], w)) ex_out ex_server (ex_http ''Bearer k3'') (mem_init ex_supply) =
     (Some resp, mem_init ex_supply) \<and> rs_Status resp = 401"
proof -
  have "\<not> authorised ex_out ex_server (ex_http ''Bearer k3'')"
    by (simp add: authorised_def bearerToken_def ex_http_def ex_server_def ex_out_def EqualFold_def ascii_lower_def)
  from api_requires_key [OF _ this, of "\<lambda>w. (Inr [], w)" "mem_init ex_supply"] show ?thesis
    by (auto simp: ex_http_def ex_server_def is_clusters_path_def clusters_handler_def is_get_def)
qed

lemma TrimSpace_example: "TrimSpace ''prod'' = ''prod''" "TrimSpace ''https://10.0.0.1:8443'' = ''https://10.0.0.1:8443''"
  by (rule TrimSpace_visible; simp add: visible_def)+

theorem create_cluster_outcome_witness:
  "\<exists>w' d. handleCreateCluster ex_out memory_clusters ''prod'' (mem_init ex_supply) = (writeJSON 201 (ClusterBody d), w') \<and>
     map_of (mem_clusters w') (c_ID d) = Some d \<and> c_Name d = ''prod''"
proof -
  obtain resp w' where h: "handleCreateCluster ex_out memory_clusters ''prod'' (mem_init ex_supply) = (resp, w')"
    by fastforce
  have "rs_Status resp \<noteq> 500"
    using h by (auto simp: handleCreateCluster_def ex_out_def TrimSpace_example memory_interfaces
        ClusterStore_CreateCluster_def mem_init_def time_now_def newUUID_eq uuid_at_def ex_supply_def
        writeJSON_def Let_def)
  with create_cluster_outcome [OF mem_inv_init [OF ex_supply_distinct] h] obtain k d where
    d: "resp = writeJSON 201 (ClusterBody d)" "map_of (mem_clusters w') k = Some d"
      "cluster_data d = cluster_data ((cluster_of_request (the (decode_create ex_out ''prod'')))\<lparr>c_ID := k\<rparr>)"
    by (auto simp: ex_out_def TrimSpace_example Let_def mem_init_def)
  from d(3) have "c_ID d = k" "c_Name d = ''prod''"
    by (cases d, simp add: cluster_data_def cluster_of_request_def ex_out_def TrimSpace_example zero_cluster_def)+
  with h d show ?thesis by blast
qed

theorem update_cluster_outcome_witness:
  "\<exists>resp. handleUpdateCluster ex_out memory_clusters ''x'' ''prod'' (mem_init ex_supply) = (resp, mem_init ex_supply) \<and>
     rs_Status resp = 404"
proof -
  obtain resp w' where h: "handleUpdateCluster ex_out memory_clusters ''x'' ''prod'' (mem_init ex_supply) = (resp, w')"
    by fastforce
  have "\<exists>req. decode_update ex_out ''prod'' = Some req" by (simp add: ex_out_def)
  then obtain req where "decode_update ex_out ''prod'' = Some req" ..
  from update_cluster_outcome [OF mem_inv_init [OF ex_supply_distinct] this h] h show ?thesis
    by (simp add: mem_init_def)
qed

end
