(* ===== verification/Api_Log.thy ===== *)
theory Api_Log
  imports Api
begin

section \<open>The request log (internal/api/middleware.go)\<close>

text \<open>
  A handler answers by calls on an \<open>http.ResponseWriter\<close>: it edits the header map, writes the status and writes
  bytes. \<open>std_call\<close> is the writer of \<open>net/http\<close>, as documented: the first final status wins together with the headers
  of that moment, a write without a status sends 200, and an informational status (1xx but 101) is sent on the spot. \<open>hw_Body\<close> are
  the bytes accepted; for \<open>HEAD\<close> the server does not send them.
  \<open>responseWriter\<close> wraps it and remembers the status for the log.
\<close>

datatype writer_call =
  SetHeader string string
| WriteHeader nat
| Write string

record http_writer =
  hw_Header :: "(string \<times> string) list"
  hw_Informational :: "nat list"
  hw_Status :: "nat option"
  hw_Sent :: "(string \<times> string) list"
  hw_Body :: string

definition fresh_writer :: http_writer where
  "fresh_writer = \<lparr>hw_Header = [], hw_Informational = [], hw_Status = None, hw_Sent = [], hw_Body = ''''\<rparr>"

definition std_status :: "nat \<Rightarrow> http_writer \<Rightarrow> http_writer" where
  "std_status st w =
     (if hw_Status w \<noteq> None then w
      else if 100 \<le> st \<and> st < 200 \<and> st \<noteq> 101 then w\<lparr>hw_Informational := hw_Informational w @ [st]\<rparr>
      else w\<lparr>hw_Status := Some st, hw_Sent := hw_Header w\<rparr>)"

fun std_call :: "writer_call \<Rightarrow> http_writer \<Rightarrow> http_writer" where
  "std_call (SetHeader k v) w = w\<lparr>hw_Header := AList.update k v (hw_Header w)\<rparr>"
| "std_call (WriteHeader st) w = std_status st w"
| "std_call (Write b) w = (let w1 = std_status 200 w in w1\<lparr>hw_Body := hw_Body w1 @ b\<rparr>)"

text \<open>When the handler returns without having written anything, the server sends 200.\<close>

definition finish_response :: "http_writer \<Rightarrow> http_writer" where
  "finish_response w = std_status 200 w"

subsection \<open>responseWriter\<close>

record responseWriter =
  rw_ResponseWriter :: http_writer
  rw_status :: nat
  rw_written :: bool

definition newResponseWriter :: "http_writer \<Rightarrow> responseWriter" where
  "newResponseWriter w = \<lparr>rw_ResponseWriter = w, rw_status = 200, rw_written = False\<rparr>"

definition responseWriter_WriteHeader :: "nat \<Rightarrow> responseWriter \<Rightarrow> responseWriter" where
  "responseWriter_WriteHeader st rw =
     (if \<not> rw_written rw
      then rw\<lparr>rw_status := st, rw_written := True, rw_ResponseWriter := std_call (WriteHeader st) (rw_ResponseWriter rw)\<rparr>
      else rw)"

definition responseWriter_Write :: "string \<Rightarrow> responseWriter \<Rightarrow> responseWriter" where
  "responseWriter_Write b rw =
     (let rw1 = (if \<not> rw_written rw then rw\<lparr>rw_status := 200, rw_written := True\<rparr> else rw)
      in rw1\<lparr>rw_ResponseWriter := std_call (Write b) (rw_ResponseWriter rw1)\<rparr>)"

fun rw_call :: "writer_call \<Rightarrow> responseWriter \<Rightarrow> responseWriter" where
  "rw_call (SetHeader k v) rw = rw\<lparr>rw_ResponseWriter := std_call (SetHeader k v) (rw_ResponseWriter rw)\<rparr>"
| "rw_call (WriteHeader st) rw = responseWriter_WriteHeader st rw"
| "rw_call (Write b) rw = responseWriter_Write b rw"

subsection \<open>The middleware\<close>

text \<open>The calls that produce a response: its headers, the status, the body (with the JSON encoder as an argument).\<close>

definition emit :: "(http_body \<Rightarrow> string) \<Rightarrow> http_response \<Rightarrow> writer_call list" where
  "emit enc resp = map (\<lambda>(k, v). SetHeader k v) (rs_Headers resp) @ [WriteHeader (rs_Status resp)] @
     (if rs_Body resp = NoBody then [] else [Write (enc (rs_Body resp))])"

record log_entry =
  le_Method :: string
  le_Path :: "string list"
  le_Status :: nat
  le_RequestID :: string

text \<open>
  \<open>RequestLogger\<close> around a handler, with the request ID that the context carries; a panic passes without an entry. The
  duration and the remote address of the entry are left out.
\<close>

definition RequestIDFromContext :: "string option \<Rightarrow> string" where
  "RequestIDFromContext ctx = (case ctx of Some rid \<Rightarrow> rid | None \<Rightarrow> '''')"

definition RequestLogger ::
    "(http_body \<Rightarrow> string) \<Rightarrow> 'w handler \<Rightarrow> string option \<Rightarrow> http_writer \<Rightarrow> http_request \<Rightarrow> 'w \<Rightarrow>
     (http_writer \<times> log_entry) option \<times> 'w" where
  "RequestLogger enc next_handler ctx conn r w =
     (case next_handler r w of
        (None, w1) \<Rightarrow> (None, w1)
      | (Some resp, w1) \<Rightarrow>
          (let rw = fold rw_call (emit enc resp) (newResponseWriter conn)
           in (Some (rw_ResponseWriter rw,
                \<lparr>le_Method = hr_Method r, le_Path = hr_Path r, le_Status = rw_status rw,
                 le_RequestID = RequestIDFromContext ctx\<rparr>), w1)))"

text \<open>The whole chain of \<open>New\<close>: \<open>RequestID\<close> sets its header on the connection and puts the ID into the context.\<close>

definition serve_logged ::
    "'w rand16 \<Rightarrow> (http_body \<Rightarrow> string) \<Rightarrow> api_outside \<Rightarrow> 'w Server \<Rightarrow> http_request \<Rightarrow> 'w \<Rightarrow>
     (http_writer \<times> log_entry) option \<times> 'w" where
  "serve_logged rnd enc out s r w =
     (let (rid, w1) = (if hr_RequestID r = '''' then newRequestID rnd w else (hr_RequestID r, w));
          conn = std_call (SetHeader ''X-Request-ID'' rid) fresh_writer
      in case RequestLogger enc (Recoverer (mux out s)) (Some rid) conn r w1 of
           (None, w2) \<Rightarrow> (None, w2)
         | (Some (conn1, entry), w2) \<Rightarrow> (Some (finish_response conn1, entry), w2))"

section \<open>Properties\<close>

lemma std_status_sent: "hw_Status w \<noteq> None \<Longrightarrow> std_status st w = w"
  by (simp add: std_status_def)

lemma std_status_final: "hw_Status w = None \<Longrightarrow> 200 \<le> st \<Longrightarrow> std_status st w = w\<lparr>hw_Status := Some st, hw_Sent := hw_Header w\<rparr>"
  by (simp add: std_status_def)

text \<open>The statuses of a list of calls are final ones.\<close>

definition final_statuses :: "writer_call list \<Rightarrow> bool" where
  "final_statuses calls \<longleftrightarrow> list_all (\<lambda>c. case c of WriteHeader st \<Rightarrow> 200 \<le> st | _ \<Rightarrow> True) calls"

lemma final_statuses_simps [simp]:
  "final_statuses []" "final_statuses (WriteHeader st # calls) \<longleftrightarrow> 200 \<le> st \<and> final_statuses calls"
  "final_statuses (SetHeader k v # calls) = final_statuses calls" "final_statuses (Write b # calls) = final_statuses calls"
  "final_statuses (as @ bs) \<longleftrightarrow> final_statuses as \<and> final_statuses bs"
  by (simp_all add: final_statuses_def)

text \<open>The wrapper tracks the writer below: what it remembers is what has been sent.\<close>

definition rw_tracks :: "responseWriter \<Rightarrow> bool" where
  "rw_tracks rw \<longleftrightarrow>
     (if rw_written rw then hw_Status (rw_ResponseWriter rw) = Some (rw_status rw)
      else hw_Status (rw_ResponseWriter rw) = None \<and> rw_status rw = 200)"

lemma rw_call_step:
  assumes "rw_tracks rw" and "final_statuses [c]"
  shows "rw_tracks (rw_call c rw) \<and> rw_ResponseWriter (rw_call c rw) = std_call c (rw_ResponseWriter rw)"
proof (cases c)
  case (WriteHeader st)
  with assms show ?thesis
    by (auto simp: rw_tracks_def responseWriter_WriteHeader_def std_status_final std_status_sent)
next
  case (Write b)
  with assms show ?thesis
    by (auto simp: rw_tracks_def responseWriter_Write_def std_status_final std_status_sent Let_def)
qed (use assms in \<open>auto simp: rw_tracks_def\<close>)

lemma rw_calls:
  assumes "rw_tracks rw" and "final_statuses calls"
  shows "rw_tracks (fold rw_call calls rw) \<and>
    rw_ResponseWriter (fold rw_call calls rw) = fold std_call calls (rw_ResponseWriter rw)"
  using assms
proof (induction calls arbitrary: rw)
  case (Cons c calls)
  from Cons.prems(2) have "final_statuses [c]" "final_statuses calls" by (simp_all add: final_statuses_def)
  with rw_call_step [OF Cons.prems(1)] Cons.IH [of "rw_call c rw"] show ?case by simp
qed simp

text \<open>The status-recording writer is transparent and truthful: whatever a handler calls on it in whatever order,
  header edits after the status, several statuses and writes without one included, the connection gets exactly
  what it would get without the wrapper, and the recorded status is the one the client sees.\<close>

theorem response_writer_truthful:
  assumes "hw_Status conn = None" and "final_statuses calls"
  shows "rw_ResponseWriter (fold rw_call calls (newResponseWriter conn)) = fold std_call calls conn \<and>
    hw_Status (finish_response (fold std_call calls conn)) = Some (rw_status (fold rw_call calls (newResponseWriter conn)))"
proof -
  have t: "rw_tracks (newResponseWriter conn)" using assms(1) by (simp add: rw_tracks_def newResponseWriter_def)
  note c = rw_calls [OF t assms(2)]
  then have conn: "rw_ResponseWriter (fold rw_call calls (newResponseWriter conn)) = fold std_call calls conn"
    by (simp add: newResponseWriter_def)
  with c show ?thesis
    by (auto simp: rw_tracks_def finish_response_def std_status_def split: if_splits)
qed

theorem response_writer_truthful_witness:
  "\<exists>conn. conn = fold rw_call [WriteHeader 201, SetHeader ''a'' ''b'', Write ''x'', WriteHeader 500] (newResponseWriter fresh_writer) \<and>
     rw_status conn = 201 \<and> hw_Sent (rw_ResponseWriter conn) = [] \<and> hw_Status (finish_response (rw_ResponseWriter conn)) = Some 201"
proof -
  let ?calls = "[WriteHeader 201, SetHeader ''a'' ''b'', Write ''x'', WriteHeader 500]"
  have "hw_Status fresh_writer = None" "final_statuses ?calls" by (simp_all add: fresh_writer_def)
  from response_writer_truthful [OF this]
  have t: "hw_Status (finish_response (rw_ResponseWriter (fold rw_call ?calls (newResponseWriter fresh_writer)))) =
      Some (rw_status (fold rw_call ?calls (newResponseWriter fresh_writer)))" by simp
  have s: "rw_status (fold rw_call ?calls (newResponseWriter fresh_writer)) = 201"
    "hw_Sent (rw_ResponseWriter (fold rw_call ?calls (newResponseWriter fresh_writer))) = []"
    by (simp_all add: newResponseWriter_def responseWriter_WriteHeader_def responseWriter_Write_def std_status_def fresh_writer_def)
  from t s show ?thesis by (intro exI [of _ "fold rw_call ?calls (newResponseWriter fresh_writer)"] conjI) simp_all
qed

subsection \<open>The whole chain\<close>

definition plain_response :: "http_response \<Rightarrow> bool" where
  "plain_response resp \<longleftrightarrow> 200 \<le> rs_Status resp \<and> ''X-Request-ID'' \<notin> fst ` set (rs_Headers resp)"

lemma plain_written [simp]:
  "200 \<le> st \<Longrightarrow> plain_response (writeJSON st v)" "200 \<le> st \<Longrightarrow> plain_response (writeError st code m)"
  "plain_response writeInternalError" "plain_response writeUnauthorized" "plain_response (validation_error m)"
  "plain_response not_found_page" "plain_response method_not_allowed"
  by (simp_all add: plain_response_def writeJSON_def writeError_def writeInternalError_def writeUnauthorized_def
      validation_error_def not_found_page_def method_not_allowed_def json_header_def Let_def)

lemma handlers_plain:
  "plain_response (fst (handleListClusters C w))" "plain_response (fst (handleCreateCluster out C body w))"
  "plain_response (fst (handleGetCluster C cid w))" "plain_response (fst (handleUpdateCluster out C cid body w))"
  "plain_response (fst (handleDeleteCluster C cid w))" "plain_response (fst (handleHealth w))"
  by (auto simp: handleListClusters_def handleCreateCluster_def handleGetCluster_def handleUpdateCluster_def
      handleDeleteCluster_def handleHealth_def Let_def plain_response_def [of "\<lparr>rs_Status = _, rs_Headers = _, rs_Body = _\<rparr>"]
      json_header_def split: sum.split prod.split option.split)

lemma clusters_handler_plain:
  "clusters_handler out C r = Some h \<Longrightarrow> \<exists>resp w1. h r' w = (Some resp, w1) \<and> plain_response resp"
  unfolding clusters_handler_def some_response_def
  by (auto simp: handlers_plain split: list.splits if_splits)

lemma mux_plain: "\<exists>resp w1. mux out s r w = (Some resp, w1) \<and> plain_response resp"
  using clusters_handler_plain [of out _ r _ r w]
  by (auto simp: mux_def RequireAPIKey_def some_response_def handlers_plain split: option.split)

lemma fold_emit:
  assumes "hw_Status conn = None" and "plain_response resp"
  shows "let conn1 = fold std_call (emit enc resp) conn
     in hw_Status conn1 = Some (rs_Status resp) \<and>
        hw_Body conn1 = hw_Body conn @ (if rs_Body resp = NoBody then '''' else enc (rs_Body resp)) \<and>
        map_of (hw_Sent conn1) ''X-Request-ID'' = map_of (hw_Header conn) ''X-Request-ID''"
proof -
  have h: "hw_Status (fold std_call (map (\<lambda>(k, v). SetHeader k v) hs) c) = hw_Status c \<and>
      hw_Body (fold std_call (map (\<lambda>(k, v). SetHeader k v) hs) c) = hw_Body c \<and>
      (''X-Request-ID'' \<notin> fst ` set hs \<longrightarrow>
         map_of (hw_Header (fold std_call (map (\<lambda>(k, v). SetHeader k v) hs) c)) ''X-Request-ID'' =
           map_of (hw_Header c) ''X-Request-ID'')" for hs and c :: http_writer
    by (induction hs arbitrary: c) (auto simp: update_conv')
  let ?c = "fold std_call (map (\<lambda>(k, v). SetHeader k v) (rs_Headers resp)) conn"
  from h [of "rs_Headers resp" conn] assms have c: "hw_Status ?c = None" "hw_Body ?c = hw_Body conn"
    "map_of (hw_Header ?c) ''X-Request-ID'' = map_of (hw_Header conn) ''X-Request-ID''"
    by (simp_all add: plain_response_def)
  with assms(2) show ?thesis
    by (simp add: emit_def plain_response_def std_status_final std_status_sent Let_def)
qed

text \<open>C13. Every request is answered and logged exactly once, also when a handler panics or an authentication fails: the entry has
  the request's method and path, the status that the client receives, and the request ID that the client receives in
  \<open>X-Request-ID\<close>. The client receives the response that the handlers made.\<close>

theorem request_log_truthful:
  "\<exists>conn entry resp w'. serve_logged rnd enc out s r w = (Some (conn, entry), w') \<and> ServeHTTP rnd out s r w = (Some resp, w') \<and>
     le_Method entry = hr_Method r \<and> le_Path entry = hr_Path r \<and>
     le_Status entry = rs_Status resp \<and> hw_Status conn = Some (rs_Status resp) \<and>
     hw_Body conn = (if rs_Body resp = NoBody then '''' else enc (rs_Body resp)) \<and>
     map_of (hw_Sent conn) ''X-Request-ID'' = Some (le_RequestID entry) \<and>
     hr_RequestID r \<in> {'''', le_RequestID entry}"
proof -
  obtain rid w1 where rid: "(if hr_RequestID r = '''' then newRequestID rnd w else (hr_RequestID r, w)) = (rid, w1)"
    by (rule that [OF surjective_pairing])
  obtain resp w' where m: "mux out s r w1 = (Some resp, w')" "plain_response resp" using mux_plain [of out s r w1] by blast
  then have rec: "Recoverer (mux out s) r w1 = (Some resp, w')" by (simp add: Recoverer_def)
  let ?conn = "std_call (SetHeader ''X-Request-ID'' rid) fresh_writer"
  let ?rw = "fold rw_call (emit enc resp) (newResponseWriter ?conn)"
  have n: "hw_Status ?conn = None" "hw_Body ?conn = ''''" "map_of (hw_Header ?conn) ''X-Request-ID'' = Some rid"
    by (simp_all add: fresh_writer_def)
  have f: "final_statuses (emit enc resp)"
    using m(2) by (auto simp: emit_def final_statuses_def plain_response_def list_all_iff)
  note t = rw_calls [of "newResponseWriter ?conn", OF _ f]
  have tr: "rw_tracks (newResponseWriter ?conn)" using n(1) by (simp add: rw_tracks_def newResponseWriter_def)
  from t [OF tr] have w: "rw_ResponseWriter ?rw = fold std_call (emit enc resp) ?conn" and tr': "rw_tracks ?rw"
    by (simp_all add: newResponseWriter_def)
  from fold_emit [OF n(1) m(2), of enc] w n
  have c: "hw_Status (rw_ResponseWriter ?rw) = Some (rs_Status resp)"
    "hw_Body (rw_ResponseWriter ?rw) = (if rs_Body resp = NoBody then '''' else enc (rs_Body resp))"
    "map_of (hw_Sent (rw_ResponseWriter ?rw)) ''X-Request-ID'' = Some rid"
    by (simp_all add: Let_def)
  with tr' have st: "rw_status ?rw = rs_Status resp" by (auto simp: rw_tracks_def split: if_splits)
  have fin: "finish_response (rw_ResponseWriter ?rw) = rw_ResponseWriter ?rw"
    using c(1) by (simp add: finish_response_def std_status_sent)
  have "serve_logged rnd enc out s r w = (Some (rw_ResponseWriter ?rw, \<lparr>le_Method = hr_Method r, le_Path = hr_Path r,
      le_Status = rw_status ?rw, le_RequestID = rid\<rparr>), w')"
    using rid rec fin by (simp add: serve_logged_def RequestLogger_def RequestIDFromContext_def Let_def)
  moreover have "ServeHTTP rnd out s r w = (Some (resp\<lparr>rs_Headers := (''X-Request-ID'', rid) # rs_Headers resp\<rparr>), w')"
    using rid rec by (simp add: ServeHTTP_def RequestID_def)
  moreover have "hr_RequestID r \<in> {'''', rid}" using rid by (simp split: if_splits)
  ultimately show ?thesis using c st by (simp del: fold_simps)
qed

end
