(* ===== verification/Postgres.thy ===== *)
theory Postgres
  imports Repository Sort_Slice
begin

section \<open>The PostgreSQL repositories (internal/persistence/postgres)\<close>

text \<open>
  The tables \<open>clusters\<close>, \<open>nodes\<close> and \<open>instances\<close> with the constraints of the migration
  \<open>0001_initial_schema\<close>: primary keys, unique names, CHECKs, foreign keys with their cascades, and the trigger that
  sets \<open>updated_at\<close>. No code writes the other tables. A row is the model's record; a NULL in
  \<open>hyperscaler_server_id\<close> and \<open>node_id\<close> is the empty string, which is how the queries read and write it
  (\<open>COALESCE\<close>, \<open>NULLIF\<close>); \<open>Postgres_Rows\<close> shows that the columns say the same. Each repository method is one statement.

  Outside, an argument: what text is a UUID and its canonical form, what text and JSON the server stores, the generated
  UUIDs, the clock, the collation, and which statements fail on the way (and whether they took effect before).
\<close>

datatype pgx_error =
  ErrNoRows
| PgError string
| OtherError string

record pg_outside =
  po_uuid :: "string \<Rightarrow> string option"
  po_text :: "string \<Rightarrow> bool"
  po_jsonb :: "json_map \<Rightarrow> bool"
  po_gen :: "nat \<Rightarrow> string"
  po_now :: "nat \<Rightarrow> time"
  po_less :: "string \<Rightarrow> string \<Rightarrow> bool"
  po_fault :: "nat \<Rightarrow> (string \<times> bool) option"

record pg =
  pt_clusters :: "cluster list"
  pt_nodes :: "node list"
  pt_insts :: "inst list"
  pg_tick :: nat

definition pg_empty :: pg where
  "pg_empty = \<lparr>pt_clusters = [], pt_nodes = [], pt_insts = [], pg_tick = 0\<rparr>"

subsection \<open>Opening the pool\<close>

record 'w pgxpool =
  px_New :: "string \<Rightarrow> 'w \<Rightarrow> go_error option \<times> 'w"
  px_Ping :: "'w \<Rightarrow> go_error option \<times> 'w"
  px_Close :: "'w \<Rightarrow> 'w"

definition postgres_Open :: "'w pgxpool \<Rightarrow> string \<Rightarrow> 'w \<Rightarrow> go_error option \<times> 'w" where
  "postgres_Open px dsn w =
     (case px_New px dsn w of
        (Some err, w1) \<Rightarrow> (Some (Wrapf ''postgres: open pool: %w'' [] err), w1)
      | (None, w1) \<Rightarrow>
          (case px_Ping px w1 of
             (Some err, w2) \<Rightarrow> (Some (Wrapf ''postgres: ping: %w'' [] err), px_Close px w2)
           | (None, w2) \<Rightarrow> (None, w2)))"

lemma postgres_Open_ok:
  "postgres_Open px dsn w = (None, w') \<longleftrightarrow> (\<exists>w0. px_New px dsn w = (None, w0) \<and> px_Ping px w0 = (None, w'))"
  by (auto simp: postgres_Open_def split: prod.splits option.splits)

subsection \<open>Errors\<close>

definition mapErr :: "pgx_error option \<Rightarrow> go_error option" where
  "mapErr err =
     (case err of
        None \<Rightarrow> None
      | Some ErrNoRows \<Rightarrow> Some (Sentinel (PersistenceErr ErrNotFound))
      | Some (PgError code) \<Rightarrow>
          Some (if code = ''23505'' then Wrapf ''%w: %s'' [] (Sentinel (PersistenceErr ErrConflict))
                else if code = ''23503'' then Wrapf ''%w: %s'' [] (Sentinel (PersistenceErr ErrConflict))
                else if code = ''23502'' then Wrapf ''%w: %s'' [] (Sentinel (PersistenceErr ErrValidation))
                else if code = ''23514'' then Wrapf ''%w: %s'' [] (Sentinel (PersistenceErr ErrValidation))
                else Errors_New code)
      | Some (OtherError msg) \<Rightarrow> Some (Errors_New msg))"

text \<open>The result of a statement as a method returns it: the error mapped and wrapped with the method's name. (A list
  method has a second prefix for an error that arrives with the rows; the two are not told apart.)\<close>

definition wrapped :: "string \<Rightarrow> (pgx_error + 'a) \<times> pg \<Rightarrow> 'a res \<times> pg" where
  "wrapped op p =
     (case p of
        (Inl err, db) \<Rightarrow> (Inl (Wrapf op [] (the (mapErr (Some err)))), db)
      | (Inr x, db) \<Rightarrow> (Inr x, db))"

subsection \<open>Statements\<close>

text \<open>One statement on its own: atomic, and it may fail on the way there (no effect) or back (done, answer lost).\<close>

definition query :: "pg_outside \<Rightarrow> (nat \<Rightarrow> pg \<Rightarrow> (pgx_error + 'a) \<times> pg) \<Rightarrow> pg \<Rightarrow> (pgx_error + 'a) \<times> pg" where
  "query out stmt db =
     (let k = pg_tick db; db0 = db\<lparr>pg_tick := Suc k\<rparr>; res = stmt k db0
      in case po_fault out k of
           None \<Rightarrow> res
         | Some (msg, took_effect) \<Rightarrow> (Inl (OtherError msg), if took_effect then snd res else db0))"

definition bad_text :: pgx_error where "bad_text = PgError ''22021''"
definition bad_uuid :: pgx_error where "bad_uuid = PgError ''22P02''"
definition bad_int4 :: pgx_error where "bad_int4 = OtherError ''greater than maximum value for int4''"
definition bad_json :: pgx_error where "bad_json = PgError ''22P05''"

definition uuid_arg :: "pg_outside \<Rightarrow> string \<Rightarrow> pgx_error + string" where
  "uuid_arg out s = (case po_uuid out s of None \<Rightarrow> Inl bad_uuid | Some u \<Rightarrow> Inr u)"

definition is_int4 :: "int64 \<Rightarrow> bool" where
  "is_int4 x \<longleftrightarrow> - (2 ^ 31) \<le> sint x \<and> sint x < 2 ^ 31"

text \<open>\<open>map[string]any\<close> goes through JSON and comes back as it was, nil included.\<close>

subsection \<open>Constraints\<close>

definition cluster_check :: "cluster \<Rightarrow> bool" where
  "cluster_check c \<longleftrightarrow> c_Status c \<in> {''active'', ''inactive'', ''error''}"

definition node_check :: "node \<Rightarrow> bool" where
  "node_check n \<longleftrightarrow>
     0 < sint (n_CPUCores n) \<and> 0 < sint (n_MemoryBytes n) \<and> 0 < sint (n_DiskBytes n) \<and>
     n_Status n \<in> {''provisioning'', ''online'', ''offline'', ''draining'', ''deprovisioning'', ''error''}"

definition inst_check :: "inst \<Rightarrow> bool" where
  "inst_check i \<longleftrightarrow>
     i_InstanceType i \<in> {''container'', ''vm''} \<and>
     i_Status i \<in> {''pending'', ''starting'', ''running'', ''stopping'', ''stopped'', ''migrating'', ''error'', ''deleted''} \<and>
     0 < sint (i_CPULimit i) \<and> 0 < sint (i_MemoryLimit i) \<and> 0 < sint (i_DiskLimit i)"

text \<open>What is wrong with a row next to the other rows of its table: CHECK, then unique, then foreign key.\<close>

definition cluster_violation :: "cluster \<Rightarrow> cluster list \<Rightarrow> pgx_error option" where
  "cluster_violation c others =
     (if \<not> cluster_check c then Some (PgError ''23514'')
      else if list_ex (\<lambda>r. c_ID r = c_ID c \<or> c_Name r = c_Name c) others then Some (PgError ''23505'')
      else None)"

definition node_violation :: "cluster list \<Rightarrow> node \<Rightarrow> node list \<Rightarrow> pgx_error option" where
  "node_violation cs n others =
     (if \<not> node_check n then Some (PgError ''23514'')
      else if list_ex (\<lambda>r. n_ID r = n_ID n \<or> n_ClusterID r = n_ClusterID n \<and> n_Name r = n_Name n) others
      then Some (PgError ''23505'')
      else if \<not> list_ex (\<lambda>c. c_ID c = n_ClusterID n) cs then Some (PgError ''23503'')
      else None)"

definition inst_violation :: "cluster list \<Rightarrow> node list \<Rightarrow> inst \<Rightarrow> inst list \<Rightarrow> pgx_error option" where
  "inst_violation cs ns i others =
     (if \<not> inst_check i then Some (PgError ''23514'')
      else if list_ex (\<lambda>r. i_ID r = i_ID i \<or> i_ClusterID r = i_ClusterID i \<and> i_Name r = i_Name i) others
      then Some (PgError ''23505'')
      else if \<not> list_ex (\<lambda>c. c_ID c = i_ClusterID i) cs then Some (PgError ''23503'')
      else if i_NodeID i \<noteq> '''' \<and> \<not> list_ex (\<lambda>n. n_ID n = i_NodeID i) ns then Some (PgError ''23503'')
      else None)"

definition replace_by :: "('r \<Rightarrow> string) \<Rightarrow> string \<Rightarrow> 'r \<Rightarrow> 'r list \<Rightarrow> 'r list" where
  "replace_by key k row rows = map (\<lambda>r. if key r = k then row else r) rows"

text \<open>\<open>ON DELETE SET NULL\<close> of \<open>instances.node_id\<close>, an update that fires the trigger.\<close>

definition unplace :: "time \<Rightarrow> string set \<Rightarrow> inst \<Rightarrow> inst" where
  "unplace now gone i = (if i_NodeID i \<in> gone then i\<lparr>i_NodeID := '''', i_UpdatedAt := now\<rparr> else i)"

subsection \<open>ClusterRepo\<close>

text \<open>The arguments of INSERT and UPDATE as the server receives them.\<close>

definition cluster_args :: "pg_outside \<Rightarrow> cluster \<Rightarrow> pgx_error + cluster" where
  "cluster_args out c =
     (if \<not> list_all (po_text out) [c_Name c, c_LXDEndpoint c, c_HyperscalerProvider c, c_Status c] then Inl bad_text
      else if \<not> po_jsonb out (c_HyperscalerConfig c) \<or> \<not> po_jsonb out (c_ScalingConfig c) then Inl bad_json
      else Inr c)"

definition ClusterRepo_ListClusters :: "pg_outside \<Rightarrow> pg \<Rightarrow> cluster list res \<times> pg" where
  "ClusterRepo_ListClusters out db =
     wrapped ''ClusterRepo.ListClusters: %w''
       (query out (\<lambda>k db. (Inr (sort_slice (\<lambda>x y. po_less out (c_Name x) (c_Name y)) (pt_clusters db)), db)) db)"

text \<open>\<open>SELECT ... WHERE id = $1\<close> read as one row.\<close>

definition select_by :: "pg_outside \<Rightarrow> ('r \<Rightarrow> string) \<Rightarrow> string \<Rightarrow> 'r list \<Rightarrow> pgx_error + 'r" where
  "select_by out key k rows =
     (case uuid_arg out k of
        Inl err \<Rightarrow> Inl err
      | Inr u \<Rightarrow> (case List.find (\<lambda>r. key r = u) rows of None \<Rightarrow> Inl ErrNoRows | Some r \<Rightarrow> Inr r))"

definition ClusterRepo_GetCluster :: "pg_outside \<Rightarrow> string \<Rightarrow> pg \<Rightarrow> cluster res \<times> pg" where
  "ClusterRepo_GetCluster out i db =
     wrapped ''ClusterRepo.GetCluster: %w'' (query out (\<lambda>k db. (select_by out c_ID i (pt_clusters db), db)) db)"

definition ClusterRepo_CreateCluster :: "pg_outside \<Rightarrow> cluster \<Rightarrow> pg \<Rightarrow> cluster res \<times> pg" where
  "ClusterRepo_CreateCluster out c db =
     wrapped ''ClusterRepo.CreateCluster: %w''
       (query out (\<lambda>k db.
          case cluster_args out c of
            Inl err \<Rightarrow> (Inl err, db)
          | Inr a \<Rightarrow>
              let row = a\<lparr>c_ID := po_gen out k, c_CreatedAt := po_now out k, c_UpdatedAt := po_now out k\<rparr>
              in case cluster_violation row (pt_clusters db) of
                   Some err \<Rightarrow> (Inl err, db)
                 | None \<Rightarrow> (Inr row, db\<lparr>pt_clusters := pt_clusters db @ [row]\<rparr>)) db)"

definition ClusterRepo_UpdateCluster :: "pg_outside \<Rightarrow> cluster \<Rightarrow> pg \<Rightarrow> cluster res \<times> pg" where
  "ClusterRepo_UpdateCluster out c db =
     wrapped ''ClusterRepo.UpdateCluster: %w''
       (query out (\<lambda>k db.
          case cluster_args out c of
            Inl err \<Rightarrow> (Inl err, db)
          | Inr a \<Rightarrow>
              (case select_by out c_ID (c_ID c) (pt_clusters db) of
                 Inl err \<Rightarrow> (Inl err, db)
               | Inr old \<Rightarrow>
                   let row = a\<lparr>c_ID := c_ID old, c_CreatedAt := c_CreatedAt old, c_UpdatedAt := po_now out k\<rparr>
                   in case cluster_violation row (filter (\<lambda>r. c_ID r \<noteq> c_ID old) (pt_clusters db)) of
                        Some err \<Rightarrow> (Inl err, db)
                      | None \<Rightarrow> (Inr row, db\<lparr>pt_clusters := replace_by c_ID (c_ID old) row (pt_clusters db)\<rparr>))) db)"

text \<open>\<open>DELETE ... WHERE id = $1\<close>: the number of rows is zero or one; a method turns zero into \<open>ErrNotFound\<close>.\<close>

definition deleted :: "string \<Rightarrow> (pgx_error + nat) \<times> pg \<Rightarrow> go_error option \<times> pg" where
  "deleted op p =
     (case wrapped op p of
        (Inl err, db) \<Rightarrow> (Some err, db)
      | (Inr affected, db) \<Rightarrow>
          (if affected = 0 then Some (Wrapf op [] (Sentinel (PersistenceErr ErrNotFound))) else None, db))"

definition ClusterRepo_DeleteCluster :: "pg_outside \<Rightarrow> string \<Rightarrow> pg \<Rightarrow> go_error option \<times> pg" where
  "ClusterRepo_DeleteCluster out i db =
     deleted ''ClusterRepo.DeleteCluster: %w''
       (query out (\<lambda>k db.
          case uuid_arg out i of
            Inl err \<Rightarrow> (Inl err, db)
          | Inr u \<Rightarrow>
              let gone = n_ID ` set (filter (\<lambda>n. n_ClusterID n = u) (pt_nodes db))
              in (Inr (length (filter (\<lambda>c. c_ID c = u) (pt_clusters db))),
                  db\<lparr>pt_clusters := filter (\<lambda>c. c_ID c \<noteq> u) (pt_clusters db),
                     pt_nodes := filter (\<lambda>n. n_ClusterID n \<noteq> u) (pt_nodes db),
                     pt_insts := map (unplace (po_now out k) gone) (filter (\<lambda>i. i_ClusterID i \<noteq> u) (pt_insts db))\<rparr>)) db)"

subsection \<open>NodeRepo\<close>

definition node_args :: "pg_outside \<Rightarrow> node \<Rightarrow> pgx_error + node" where
  "node_args out n =
     (if \<not> is_int4 (n_CPUCores n) then Inl bad_int4
      else if \<not> list_all (po_text out) [n_Name n, n_LXDMemberName n, n_HyperscalerServerID n, n_Status n] then Inl bad_text
      else (case uuid_arg out (n_ClusterID n) of Inl err \<Rightarrow> Inl err | Inr u \<Rightarrow> Inr (n\<lparr>n_ClusterID := u\<rparr>)))"

definition NodeRepo_ListNodes :: "pg_outside \<Rightarrow> string \<Rightarrow> pg \<Rightarrow> node list res \<times> pg" where
  "NodeRepo_ListNodes out c db =
     wrapped ''NodeRepo.ListNodes: %w''
       (query out (\<lambda>k db.
          (case uuid_arg out c of
             Inl err \<Rightarrow> Inl err
           | Inr u \<Rightarrow> Inr (sort_slice (\<lambda>x y. po_less out (n_Name x) (n_Name y))
                             (filter (\<lambda>n. n_ClusterID n = u) (pt_nodes db))), db)) db)"

definition NodeRepo_GetNode :: "pg_outside \<Rightarrow> string \<Rightarrow> pg \<Rightarrow> node res \<times> pg" where
  "NodeRepo_GetNode out i db =
     wrapped ''NodeRepo.GetNode: %w'' (query out (\<lambda>k db. (select_by out n_ID i (pt_nodes db), db)) db)"

definition NodeRepo_CreateNode :: "pg_outside \<Rightarrow> node \<Rightarrow> pg \<Rightarrow> node res \<times> pg" where
  "NodeRepo_CreateNode out n db =
     wrapped ''NodeRepo.CreateNode: %w''
       (query out (\<lambda>k db.
          case node_args out n of
            Inl err \<Rightarrow> (Inl err, db)
          | Inr a \<Rightarrow>
              let row = a\<lparr>n_ID := po_gen out k, n_CreatedAt := po_now out k, n_UpdatedAt := po_now out k\<rparr>
              in case node_violation (pt_clusters db) row (pt_nodes db) of
                   Some err \<Rightarrow> (Inl err, db)
                 | None \<Rightarrow> (Inr row, db\<lparr>pt_nodes := pt_nodes db @ [row]\<rparr>)) db)"

definition NodeRepo_UpdateNode :: "pg_outside \<Rightarrow> node \<Rightarrow> pg \<Rightarrow> node res \<times> pg" where
  "NodeRepo_UpdateNode out n db =
     wrapped ''NodeRepo.UpdateNode: %w''
       (query out (\<lambda>k db.
          case node_args out n of
            Inl err \<Rightarrow> (Inl err, db)
          | Inr a \<Rightarrow>
              (case select_by out n_ID (n_ID n) (pt_nodes db) of
                 Inl err \<Rightarrow> (Inl err, db)
               | Inr old \<Rightarrow>
                   let row = a\<lparr>n_ID := n_ID old, n_CreatedAt := n_CreatedAt old, n_UpdatedAt := po_now out k\<rparr>
                   in case node_violation (pt_clusters db) row (filter (\<lambda>r. n_ID r \<noteq> n_ID old) (pt_nodes db)) of
                        Some err \<Rightarrow> (Inl err, db)
                      | None \<Rightarrow> (Inr row, db\<lparr>pt_nodes := replace_by n_ID (n_ID old) row (pt_nodes db)\<rparr>))) db)"

definition NodeRepo_DeleteNode :: "pg_outside \<Rightarrow> string \<Rightarrow> pg \<Rightarrow> go_error option \<times> pg" where
  "NodeRepo_DeleteNode out i db =
     deleted ''NodeRepo.DeleteNode: %w''
       (query out (\<lambda>k db.
          case uuid_arg out i of
            Inl err \<Rightarrow> (Inl err, db)
          | Inr u \<Rightarrow>
              let gone = n_ID ` set (filter (\<lambda>n. n_ID n = u) (pt_nodes db))
              in (Inr (length (filter (\<lambda>n. n_ID n = u) (pt_nodes db))),
                  db\<lparr>pt_nodes := filter (\<lambda>n. n_ID n \<noteq> u) (pt_nodes db),
                     pt_insts := map (unplace (po_now out k) gone) (pt_insts db)\<rparr>)) db)"

subsection \<open>InstanceRepo\<close>

definition inst_args :: "pg_outside \<Rightarrow> inst \<Rightarrow> pgx_error + inst" where
  "inst_args out i =
     (if \<not> is_int4 (i_CPULimit i) then Inl bad_int4
      else if \<not> list_all (po_text out) [i_Name i, i_InstanceType i, i_Status i] then Inl bad_text
      else if \<not> po_jsonb out (i_Config i) then Inl bad_json
      else
        (case uuid_arg out (i_ClusterID i) of
           Inl err \<Rightarrow> Inl err
         | Inr u \<Rightarrow>
             (case if i_NodeID i = '''' then Inr '''' else uuid_arg out (i_NodeID i) of
                Inl err \<Rightarrow> Inl err
              | Inr v \<Rightarrow> Inr (i\<lparr>i_ClusterID := u, i_NodeID := v\<rparr>))))"

definition InstanceRepo_ListInstances :: "pg_outside \<Rightarrow> string \<Rightarrow> pg \<Rightarrow> inst list res \<times> pg" where
  "InstanceRepo_ListInstances out c db =
     wrapped ''InstanceRepo.ListInstances: %w''
       (query out (\<lambda>k db.
          (case uuid_arg out c of
             Inl err \<Rightarrow> Inl err
           | Inr u \<Rightarrow> Inr (sort_slice (\<lambda>x y. po_less out (i_Name x) (i_Name y))
                             (filter (\<lambda>i. i_ClusterID i = u) (pt_insts db))), db)) db)"

definition InstanceRepo_GetInstance :: "pg_outside \<Rightarrow> string \<Rightarrow> pg \<Rightarrow> inst res \<times> pg" where
  "InstanceRepo_GetInstance out i db =
     wrapped ''InstanceRepo.GetInstance: %w'' (query out (\<lambda>k db. (select_by out i_ID i (pt_insts db), db)) db)"

definition InstanceRepo_CreateInstance :: "pg_outside \<Rightarrow> inst \<Rightarrow> pg \<Rightarrow> inst res \<times> pg" where
  "InstanceRepo_CreateInstance out i db =
     wrapped ''InstanceRepo.CreateInstance: %w''
       (query out (\<lambda>k db.
          case inst_args out i of
            Inl err \<Rightarrow> (Inl err, db)
          | Inr a \<Rightarrow>
              let row = a\<lparr>i_ID := po_gen out k, i_CreatedAt := po_now out k, i_UpdatedAt := po_now out k\<rparr>
              in case inst_violation (pt_clusters db) (pt_nodes db) row (pt_insts db) of
                   Some err \<Rightarrow> (Inl err, db)
                 | None \<Rightarrow> (Inr row, db\<lparr>pt_insts := pt_insts db @ [row]\<rparr>)) db)"

definition InstanceRepo_UpdateInstance :: "pg_outside \<Rightarrow> inst \<Rightarrow> pg \<Rightarrow> inst res \<times> pg" where
  "InstanceRepo_UpdateInstance out i db =
     wrapped ''InstanceRepo.UpdateInstance: %w''
       (query out (\<lambda>k db.
          case inst_args out i of
            Inl err \<Rightarrow> (Inl err, db)
          | Inr a \<Rightarrow>
              (case select_by out i_ID (i_ID i) (pt_insts db) of
                 Inl err \<Rightarrow> (Inl err, db)
               | Inr old \<Rightarrow>
                   let row = a\<lparr>i_ID := i_ID old, i_CreatedAt := i_CreatedAt old, i_UpdatedAt := po_now out k\<rparr>
                   in case inst_violation (pt_clusters db) (pt_nodes db) row (filter (\<lambda>r. i_ID r \<noteq> i_ID old) (pt_insts db)) of
                        Some err \<Rightarrow> (Inl err, db)
                      | None \<Rightarrow> (Inr row, db\<lparr>pt_insts := replace_by i_ID (i_ID old) row (pt_insts db)\<rparr>))) db)"

definition InstanceRepo_DeleteInstance :: "pg_outside \<Rightarrow> string \<Rightarrow> pg \<Rightarrow> go_error option \<times> pg" where
  "InstanceRepo_DeleteInstance out i db =
     deleted ''InstanceRepo.DeleteInstance: %w''
       (query out (\<lambda>k db.
          case uuid_arg out i of
            Inl err \<Rightarrow> (Inl err, db)
          | Inr u \<Rightarrow>
              (Inr (length (filter (\<lambda>r. i_ID r = u) (pt_insts db))),
               db\<lparr>pt_insts := filter (\<lambda>r. i_ID r \<noteq> u) (pt_insts db)\<rparr>)) db)"

subsection \<open>The interface values\<close>

definition postgres_clusters :: "pg_outside \<Rightarrow> pg cluster_repository" where
  "postgres_clusters out =
     \<lparr>ListClusters = ClusterRepo_ListClusters out, GetCluster = ClusterRepo_GetCluster out,
      CreateCluster = ClusterRepo_CreateCluster out, UpdateCluster = ClusterRepo_UpdateCluster out,
      DeleteCluster = ClusterRepo_DeleteCluster out\<rparr>"

definition postgres_nodes :: "pg_outside \<Rightarrow> pg node_repository" where
  "postgres_nodes out =
     \<lparr>ListNodes = NodeRepo_ListNodes out, GetNode = NodeRepo_GetNode out, CreateNode = NodeRepo_CreateNode out,
      UpdateNode = NodeRepo_UpdateNode out, DeleteNode = NodeRepo_DeleteNode out\<rparr>"

definition postgres_instances :: "pg_outside \<Rightarrow> pg instance_repository" where
  "postgres_instances out =
     \<lparr>ListInstances = InstanceRepo_ListInstances out, GetInstance = InstanceRepo_GetInstance out,
      CreateInstance = InstanceRepo_CreateInstance out, UpdateInstance = InstanceRepo_UpdateInstance out,
      DeleteInstance = InstanceRepo_DeleteInstance out\<rparr>"

lemmas postgres_interfaces = postgres_clusters_def postgres_nodes_def postgres_instances_def

lemmas postgres_ops =
  ClusterRepo_ListClusters_def ClusterRepo_GetCluster_def ClusterRepo_CreateCluster_def ClusterRepo_UpdateCluster_def
  ClusterRepo_DeleteCluster_def NodeRepo_ListNodes_def NodeRepo_GetNode_def NodeRepo_CreateNode_def
  NodeRepo_UpdateNode_def NodeRepo_DeleteNode_def InstanceRepo_ListInstances_def InstanceRepo_GetInstance_def
  InstanceRepo_CreateInstance_def InstanceRepo_UpdateInstance_def InstanceRepo_DeleteInstance_def

text \<open>The repositories of a program whose state is the database next to something else.\<close>

definition on_db :: "(pg \<Rightarrow> 'a \<times> pg) \<Rightarrow> pg \<times> 'x \<Rightarrow> 'a \<times> (pg \<times> 'x)" where
  "on_db f w = (case f (fst w) of (r, db) \<Rightarrow> (r, (db, snd w)))"

definition deployed_clusters :: "pg_outside \<Rightarrow> (pg \<times> 'x) cluster_repository" where
  "deployed_clusters out =
     \<lparr>ListClusters = on_db (ClusterRepo_ListClusters out), GetCluster = (\<lambda>i. on_db (ClusterRepo_GetCluster out i)),
      CreateCluster = (\<lambda>c. on_db (ClusterRepo_CreateCluster out c)), UpdateCluster = (\<lambda>c. on_db (ClusterRepo_UpdateCluster out c)),
      DeleteCluster = (\<lambda>i. on_db (ClusterRepo_DeleteCluster out i))\<rparr>"

definition deployed_nodes :: "pg_outside \<Rightarrow> (pg \<times> 'x) node_repository" where
  "deployed_nodes out =
     \<lparr>ListNodes = (\<lambda>c. on_db (NodeRepo_ListNodes out c)), GetNode = (\<lambda>i. on_db (NodeRepo_GetNode out i)),
      CreateNode = (\<lambda>n. on_db (NodeRepo_CreateNode out n)), UpdateNode = (\<lambda>n. on_db (NodeRepo_UpdateNode out n)),
      DeleteNode = (\<lambda>i. on_db (NodeRepo_DeleteNode out i))\<rparr>"

definition deployed_instances :: "pg_outside \<Rightarrow> (pg \<times> 'x) instance_repository" where
  "deployed_instances out =
     \<lparr>ListInstances = (\<lambda>c. on_db (InstanceRepo_ListInstances out c)), GetInstance = (\<lambda>i. on_db (InstanceRepo_GetInstance out i)),
      CreateInstance = (\<lambda>i. on_db (InstanceRepo_CreateInstance out i)), UpdateInstance = (\<lambda>i. on_db (InstanceRepo_UpdateInstance out i)),
      DeleteInstance = (\<lambda>i. on_db (InstanceRepo_DeleteInstance out i))\<rparr>"

lemmas deployed_repos = deployed_clusters_def deployed_nodes_def deployed_instances_def

lemma on_db_eq: "on_db f w = (r, w') \<longleftrightarrow> (\<exists>db. f (fst w) = (r, db) \<and> w' = (db, snd w))"
  by (auto simp: on_db_def split: prod.splits)

lemma on_db_simps [simp]:
  "fst (on_db f w) = fst (f (fst w))" "fst (snd (on_db f w)) = snd (f (fst w))" "snd (snd (on_db f w)) = snd w"
  by (simp_all add: on_db_def split: prod.split)

section \<open>The tables stay consistent\<close>

subsection \<open>The invariant\<close>

definition clusters_ok :: "cluster list \<Rightarrow> bool" where
  "clusters_ok cs \<longleftrightarrow> distinct (map c_ID cs) \<and> distinct (map c_Name cs) \<and> (\<forall>c \<in> set cs. cluster_check c)"

definition nodes_ok :: "cluster list \<Rightarrow> node list \<Rightarrow> bool" where
  "nodes_ok cs ns \<longleftrightarrow>
     distinct (map n_ID ns) \<and> distinct (map (\<lambda>n. (n_ClusterID n, n_Name n)) ns) \<and>
     (\<forall>n \<in> set ns. node_check n \<and> n_ClusterID n \<in> c_ID ` set cs)"

definition insts_ok :: "cluster list \<Rightarrow> node list \<Rightarrow> inst list \<Rightarrow> bool" where
  "insts_ok cs ns is \<longleftrightarrow>
     distinct (map i_ID is) \<and> distinct (map (\<lambda>i. (i_ClusterID i, i_Name i)) is) \<and>
     (\<forall>i \<in> set is. inst_check i \<and> i_ClusterID i \<in> c_ID ` set cs \<and> (i_NodeID i = '''' \<or> i_NodeID i \<in> n_ID ` set ns))"

definition pg_ok :: "pg \<Rightarrow> bool" where
  "pg_ok db \<longleftrightarrow> clusters_ok (pt_clusters db) \<and> nodes_ok (pt_clusters db) (pt_nodes db) \<and>
     insts_ok (pt_clusters db) (pt_nodes db) (pt_insts db)"

lemma pg_ok_tick [simp]: "pg_ok (db\<lparr>pg_tick := t\<rparr>) = pg_ok db"
  by (simp add: pg_ok_def)

subsection \<open>Replacing a row\<close>

lemma map_replace_by: "f row = f' \<Longrightarrow> (\<And>r. r \<in> set rows \<Longrightarrow> key r = k \<Longrightarrow> f r = f') \<Longrightarrow> map f (replace_by key k row rows) = map f rows"
  by (auto simp: replace_by_def)

lemma replace_by_simps [simp]:
  "replace_by key k row [] = []"
  "replace_by key k row (r # rows) = (if key r = k then row else r) # replace_by key k row rows"
  by (simp_all add: replace_by_def)

lemma set_replace_by: "set (replace_by key k row rows) \<subseteq> insert row {r \<in> set rows. key r \<noteq> k}"
  by (auto simp: replace_by_def)

lemma set_replace_by_mem:
  "old \<in> set rows \<Longrightarrow> key old = k \<Longrightarrow> set (replace_by key k row rows) = insert row {r \<in> set rows. key r \<noteq> k}"
  by (auto simp: replace_by_def image_iff)

lemma distinct_replace_by:
  assumes "distinct (map key rows)" and "distinct (map f rows)" and "\<And>r. r \<in> set rows \<Longrightarrow> key r \<noteq> k \<Longrightarrow> f r \<noteq> f row"
  shows "distinct (map f (replace_by key k row rows))"
  using assms
proof (induction rows)
  case (Cons r rows)
  have "distinct (map key rows)" "distinct (map f rows)" using Cons.prems(1,2) by simp_all
  moreover have "f q \<noteq> f row" if "q \<in> set rows" "key q \<noteq> k" for q by (rule Cons.prems(3)) (use that in simp_all)
  ultimately have rest: "distinct (map f (replace_by key k row rows))" by (rule Cons.IH)
  have mem: "x = row \<or> x \<in> set rows" if "x \<in> set (replace_by key k row rows)" for x
    using that set_replace_by [of key k row rows] by auto
  show ?case
  proof (cases "key r = k")
    case True
    with Cons.prems(1) have "k \<notin> key ` set rows" by simp
    then have k: "key q \<noteq> k" if "q \<in> set rows" for q using that by (metis imageI)
    then have "replace_by key k row rows = rows" by (simp add: replace_by_def map_idI)
    moreover have "f row \<notin> f ` set rows"
    proof
      assume "f row \<in> f ` set rows"
      then obtain q where "q \<in> set rows" "f q = f row" by auto
      with k Cons.prems(3) [of q] show False by simp
    qed
    ultimately show ?thesis using True rest by simp
  next
    case False
    have "f r \<noteq> f row" using Cons.prems(3) [of r] False by simp
    moreover have "f r \<noteq> f q" if "q \<in> set rows" for q using Cons.prems(2) that by (auto simp: image_iff)
    ultimately have "f r \<notin> f ` set (replace_by key k row rows)" using mem by fastforce
    with False rest show ?thesis by simp
  qed
qed (simp add: replace_by_def)

subsection \<open>Rows without violations\<close>

lemma list_ex_key: "list_ex (\<lambda>r. key r = x) rows \<longleftrightarrow> x \<in> key ` set rows"
  by (auto simp: list_ex_iff)

lemma violation_iff:
  "cluster_violation c cs = None \<longleftrightarrow> cluster_check c \<and> (\<forall>r \<in> set cs. c_ID r \<noteq> c_ID c \<and> c_Name r \<noteq> c_Name c)"
  "node_violation cs n ns = None \<longleftrightarrow>
     node_check n \<and> n_ClusterID n \<in> c_ID ` set cs \<and>
     (\<forall>r \<in> set ns. n_ID r \<noteq> n_ID n \<and> (n_ClusterID r, n_Name r) \<noteq> (n_ClusterID n, n_Name n))"
  "inst_violation cs ns i is = None \<longleftrightarrow>
     inst_check i \<and> i_ClusterID i \<in> c_ID ` set cs \<and> (i_NodeID i = '''' \<or> i_NodeID i \<in> n_ID ` set ns) \<and>
     (\<forall>r \<in> set is. i_ID r \<noteq> i_ID i \<and> (i_ClusterID r, i_Name r) \<noteq> (i_ClusterID i, i_Name i))"
  by (auto simp: cluster_violation_def node_violation_def inst_violation_def list_ex_key) (auto simp: list_ex_iff)

lemma clusters_ok_insert: "clusters_ok cs \<Longrightarrow> cluster_violation c cs = None \<Longrightarrow> clusters_ok (cs @ [c])"
  by (auto simp: clusters_ok_def violation_iff image_iff)

lemma nodes_ok_insert: "nodes_ok cs ns \<Longrightarrow> node_violation cs n ns = None \<Longrightarrow> nodes_ok cs (ns @ [n])"
  by (auto simp: nodes_ok_def violation_iff image_iff)

lemma insts_ok_insert: "insts_ok cs ns is \<Longrightarrow> inst_violation cs ns i is = None \<Longrightarrow> insts_ok cs ns (is @ [i])"
  by (auto simp: insts_ok_def violation_iff image_iff)

lemma clusters_ok_replace:
  assumes "clusters_ok cs" and "cluster_violation c (filter (\<lambda>r. c_ID r \<noteq> c_ID c) cs) = None"
  shows "clusters_ok (replace_by c_ID (c_ID c) c cs)"
proof -
  have "map c_ID (replace_by c_ID (c_ID c) c cs) = map c_ID cs" by (rule map_replace_by) simp_all
  moreover have "distinct (map c_Name (replace_by c_ID (c_ID c) c cs))"
    using assms by (intro distinct_replace_by) (auto simp: clusters_ok_def violation_iff)
  ultimately show ?thesis
    using assms set_replace_by [of c_ID "c_ID c" c cs] by (auto simp: clusters_ok_def violation_iff)
qed

lemma nodes_ok_replace:
  assumes "nodes_ok cs ns" and "node_violation cs n (filter (\<lambda>r. n_ID r \<noteq> n_ID n) ns) = None"
  shows "nodes_ok cs (replace_by n_ID (n_ID n) n ns)"
proof -
  have "map n_ID (replace_by n_ID (n_ID n) n ns) = map n_ID ns" by (rule map_replace_by) simp_all
  moreover have "distinct (map (\<lambda>n. (n_ClusterID n, n_Name n)) (replace_by n_ID (n_ID n) n ns))"
    using assms by (intro distinct_replace_by) (auto simp: nodes_ok_def violation_iff)
  ultimately show ?thesis
    using assms set_replace_by [of n_ID "n_ID n" n ns] by (auto simp: nodes_ok_def violation_iff)
qed

lemma insts_ok_replace:
  assumes "insts_ok cs ns is" and "inst_violation cs ns i (filter (\<lambda>r. i_ID r \<noteq> i_ID i) is) = None"
  shows "insts_ok cs ns (replace_by i_ID (i_ID i) i is)"
proof -
  have "map i_ID (replace_by i_ID (i_ID i) i is) = map i_ID is" by (rule map_replace_by) simp_all
  moreover have "distinct (map (\<lambda>i. (i_ClusterID i, i_Name i)) (replace_by i_ID (i_ID i) i is))"
    using assms by (intro distinct_replace_by) (auto simp: insts_ok_def violation_iff)
  ultimately show ?thesis
    using assms set_replace_by [of i_ID "i_ID i" i "is"] by (fastforce simp: insts_ok_def violation_iff)
qed

text \<open>The other tables refer to IDs only, which an update keeps.\<close>

lemma ids_insert: "c_ID ` set (cs @ [c]) \<supseteq> c_ID ` set cs" "n_ID ` set (ns @ [n]) \<supseteq> n_ID ` set ns"
  by auto

lemma ids_replace:
  "c_ID ` set (replace_by c_ID (c_ID c) c cs) = c_ID ` set cs" "n_ID ` set (replace_by n_ID (n_ID n) n ns) = n_ID ` set ns"
  using map_replace_by [of c_ID c "c_ID c" cs c_ID "c_ID c"] map_replace_by [of n_ID n "n_ID n" ns n_ID "n_ID n"]
  by (simp_all flip: set_map)

lemmas ids_replace_eq = ids_replace [THEN equalityD2]

lemma nodes_ok_mono: "nodes_ok cs ns \<Longrightarrow> c_ID ` set cs \<subseteq> c_ID ` set cs' \<Longrightarrow> nodes_ok cs' ns"
  by (auto simp: nodes_ok_def)

lemma insts_ok_mono:
  "insts_ok cs ns is \<Longrightarrow> c_ID ` set cs \<subseteq> c_ID ` set cs' \<Longrightarrow> n_ID ` set ns \<subseteq> n_ID ` set ns' \<Longrightarrow> insts_ok cs' ns' is"
  unfolding insts_ok_def by (meson subsetD)

lemma replace_rules:
  "clusters_ok cs \<Longrightarrow> c_ID c = k \<Longrightarrow> cluster_violation c (filter (\<lambda>r. c_ID r \<noteq> k) cs) = None \<Longrightarrow> clusters_ok (replace_by c_ID k c cs)"
  "nodes_ok cs ns \<Longrightarrow> n_ID n = k \<Longrightarrow> node_violation cs n (filter (\<lambda>r. n_ID r \<noteq> k) ns) = None \<Longrightarrow> nodes_ok cs (replace_by n_ID k n ns)"
  "insts_ok cs ns is \<Longrightarrow> i_ID i = k \<Longrightarrow> inst_violation cs ns i (filter (\<lambda>r. i_ID r \<noteq> k) is) = None \<Longrightarrow> insts_ok cs ns (replace_by i_ID k i is)"
  "nodes_ok cs ns \<Longrightarrow> c_ID c = k \<Longrightarrow> nodes_ok (replace_by c_ID k c cs) ns"
  "insts_ok cs ns is \<Longrightarrow> c_ID c = k \<Longrightarrow> insts_ok (replace_by c_ID k c cs) ns is"
  "insts_ok cs ns is \<Longrightarrow> n_ID n = k \<Longrightarrow> insts_ok cs (replace_by n_ID k n ns) is"
  using clusters_ok_replace nodes_ok_replace insts_ok_replace
  by (auto intro: nodes_ok_mono [OF _ ids_replace_eq(1)] insts_ok_mono [OF _ ids_replace_eq(1) subset_refl]
      insts_ok_mono [OF _ subset_refl ids_replace_eq(2)])

subsection \<open>Deleting\<close>

lemma clusters_ok_filter: "clusters_ok cs \<Longrightarrow> clusters_ok (filter P cs)"
  by (auto simp: clusters_ok_def distinct_map_filter)

lemma nodes_ok_delete_cluster:
  "nodes_ok cs ns \<Longrightarrow> nodes_ok (filter (\<lambda>c. c_ID c \<noteq> u) cs) (filter (\<lambda>n. n_ClusterID n \<noteq> u) ns)"
  by (fastforce simp: nodes_ok_def distinct_map_filter)

lemma nodes_ok_filter: "nodes_ok cs ns \<Longrightarrow> nodes_ok cs (filter P ns)"
  by (auto simp: nodes_ok_def distinct_map_filter)

lemma insts_ok_filter: "insts_ok cs ns is \<Longrightarrow> insts_ok cs ns (filter P is)"
  by (auto simp: insts_ok_def distinct_map_filter)

lemma unplace_fields [simp]:
  "i_ID (unplace t g i) = i_ID i" "i_ClusterID (unplace t g i) = i_ClusterID i" "i_Name (unplace t g i) = i_Name i"
  "inst_check (unplace t g i) = inst_check i" "i_NodeID (unplace t g i) = (if i_NodeID i \<in> g then '''' else i_NodeID i)"
  by (simp_all add: unplace_def inst_check_def)

lemma insts_ok_unplace:
  assumes "insts_ok cs ns is" and "\<And>i. i \<in> set is \<Longrightarrow> i_ClusterID i \<in> c_ID ` set cs'" and "n_ID ` set ns \<subseteq> g \<union> n_ID ` set ns'"
  shows "insts_ok cs' ns' (map (unplace t g) is)"
  using assms by (auto simp: insts_ok_def comp_def) blast

subsection \<open>Every method keeps the invariant\<close>

lemma query_keeps:
  "(\<And>k db. pg_ok db \<Longrightarrow> pg_ok (snd (stmt k db))) \<Longrightarrow> pg_ok db \<Longrightarrow> pg_ok (snd (query out stmt db))"
  by (auto simp: query_def Let_def split: option.split)

lemma snd_wrapped [simp]: "snd (wrapped op p) = snd p"
  by (auto simp: wrapped_def split: prod.split sum.split)

lemma snd_deleted [simp]: "snd (deleted op p) = snd p"
  by (auto simp: deleted_def wrapped_def split: prod.split sum.split)

lemma select_by_mem: "select_by out key k rows = Inr r \<Longrightarrow> r \<in> set rows"
  by (auto simp: select_by_def find_Some_iff split: sum.splits option.splits)

lemma cluster_writes_keep:
  assumes "pg_ok db"
  shows "pg_ok (snd (ClusterRepo_CreateCluster out c db))" and "pg_ok (snd (ClusterRepo_UpdateCluster out c db))"
    and "pg_ok (snd (ClusterRepo_DeleteCluster out i db))"
proof -
  show "pg_ok (snd (ClusterRepo_CreateCluster out c db))"
    unfolding ClusterRepo_CreateCluster_def snd_wrapped
  proof (rule query_keeps [OF _ assms])
    fix k db assume "pg_ok db"
    then show "pg_ok (snd (case cluster_args out c of Inl err \<Rightarrow> (Inl err, db)
        | Inr a \<Rightarrow> let row = a\<lparr>c_ID := po_gen out k, c_CreatedAt := po_now out k, c_UpdatedAt := po_now out k\<rparr>
            in case cluster_violation row (pt_clusters db) of Some err \<Rightarrow> (Inl err, db)
               | None \<Rightarrow> (Inr row, db\<lparr>pt_clusters := pt_clusters db @ [row]\<rparr>)))"
      by (auto simp: pg_ok_def Let_def clusters_ok_insert split: sum.split option.split
          elim: nodes_ok_mono insts_ok_mono)
  qed
  show "pg_ok (snd (ClusterRepo_UpdateCluster out c db))"
    unfolding ClusterRepo_UpdateCluster_def snd_wrapped
  proof (rule query_keeps [OF _ assms], goal_cases)
    case (1 k db)
    then show ?case by (auto simp: pg_ok_def Let_def split: sum.split option.split intro!: replace_rules)
  qed
  show "pg_ok (snd (ClusterRepo_DeleteCluster out i db))"
    unfolding ClusterRepo_DeleteCluster_def snd_deleted
  proof (rule query_keeps [OF _ assms], goal_cases)
    case (1 k db)
    have "insts_ok (filter (\<lambda>c. c_ID c \<noteq> u) (pt_clusters db)) (filter (\<lambda>n. n_ClusterID n \<noteq> u) (pt_nodes db))
        (map (unplace t (n_ID ` set (filter (\<lambda>n. n_ClusterID n = u) (pt_nodes db)))) (filter (\<lambda>i. i_ClusterID i \<noteq> u) (pt_insts db)))" for t u
      using 1 by (intro insts_ok_unplace [OF insts_ok_filter]) (auto simp: pg_ok_def insts_ok_def)
    with 1 show ?case
      by (auto simp: pg_ok_def Let_def clusters_ok_filter nodes_ok_delete_cluster split: sum.split)
  qed
qed

lemma node_writes_keep:
  assumes "pg_ok db"
  shows "pg_ok (snd (NodeRepo_CreateNode out n db))" and "pg_ok (snd (NodeRepo_UpdateNode out n db))"
    and "pg_ok (snd (NodeRepo_DeleteNode out i db))"
proof -
  show "pg_ok (snd (NodeRepo_CreateNode out n db))"
    unfolding NodeRepo_CreateNode_def snd_wrapped
  proof (rule query_keeps [OF _ assms], goal_cases)
    case (1 k db)
    then show ?case
      by (auto simp: pg_ok_def Let_def nodes_ok_insert split: sum.split option.split elim: insts_ok_mono)
  qed
  show "pg_ok (snd (NodeRepo_UpdateNode out n db))"
    unfolding NodeRepo_UpdateNode_def snd_wrapped
  proof (rule query_keeps [OF _ assms], goal_cases)
    case (1 k db)
    then show ?case by (auto simp: pg_ok_def Let_def split: sum.split option.split intro!: replace_rules)
  qed
  show "pg_ok (snd (NodeRepo_DeleteNode out i db))"
    unfolding NodeRepo_DeleteNode_def snd_deleted
  proof (rule query_keeps [OF _ assms], goal_cases)
    case (1 k db)
    have "insts_ok (pt_clusters db) (filter (\<lambda>n. n_ID n \<noteq> u) (pt_nodes db))
        (map (unplace t (n_ID ` set (filter (\<lambda>n. n_ID n = u) (pt_nodes db)))) (pt_insts db))" for t u
      using 1 by (intro insts_ok_unplace) (auto simp: pg_ok_def insts_ok_def)
    with 1 show ?case
      by (auto simp: pg_ok_def Let_def nodes_ok_filter split: sum.split)
  qed
qed

lemma inst_writes_keep:
  assumes "pg_ok db"
  shows "pg_ok (snd (InstanceRepo_CreateInstance out i db))" and "pg_ok (snd (InstanceRepo_UpdateInstance out i db))"
    and "pg_ok (snd (InstanceRepo_DeleteInstance out k db))"
proof -
  show "pg_ok (snd (InstanceRepo_CreateInstance out i db))"
    unfolding InstanceRepo_CreateInstance_def snd_wrapped
  proof (rule query_keeps [OF _ assms], goal_cases)
    case (1 k db)
    then show ?case by (auto simp: pg_ok_def Let_def insts_ok_insert split: sum.split option.split)
  qed
  show "pg_ok (snd (InstanceRepo_UpdateInstance out i db))"
    unfolding InstanceRepo_UpdateInstance_def snd_wrapped
  proof (rule query_keeps [OF _ assms], goal_cases)
    case (1 k db)
    then show ?case by (auto simp: pg_ok_def Let_def split: sum.split option.split intro!: replace_rules)
  qed
  show "pg_ok (snd (InstanceRepo_DeleteInstance out k db))"
    unfolding InstanceRepo_DeleteInstance_def snd_deleted
  proof (rule query_keeps [OF _ assms], goal_cases)
    case (1 k db)
    then show ?case by (auto simp: pg_ok_def insts_ok_filter split: sum.split)
  qed
qed

lemma reads_keep:
  assumes "pg_ok db"
  shows "pg_ok (snd (ClusterRepo_ListClusters out db))" "pg_ok (snd (ClusterRepo_GetCluster out i db))"
    "pg_ok (snd (NodeRepo_ListNodes out i db))" "pg_ok (snd (NodeRepo_GetNode out i db))"
    "pg_ok (snd (InstanceRepo_ListInstances out i db))" "pg_ok (snd (InstanceRepo_GetInstance out i db))"
  unfolding postgres_ops snd_wrapped by (rule query_keeps [OF _ assms], simp)+

lemmas postgres_keep = cluster_writes_keep node_writes_keep inst_writes_keep reads_keep

section \<open>Properties\<close>

text \<open>One call of one repository method.\<close>

inductive pg_call :: "pg_outside \<Rightarrow> pg \<Rightarrow> pg \<Rightarrow> bool" for out where
  "pg_call out db (snd (ListClusters (postgres_clusters out) db))"
| "pg_call out db (snd (GetCluster (postgres_clusters out) i db))"
| "pg_call out db (snd (CreateCluster (postgres_clusters out) c db))"
| "pg_call out db (snd (UpdateCluster (postgres_clusters out) c db))"
| "pg_call out db (snd (DeleteCluster (postgres_clusters out) i db))"
| "pg_call out db (snd (ListNodes (postgres_nodes out) i db))"
| "pg_call out db (snd (GetNode (postgres_nodes out) i db))"
| "pg_call out db (snd (CreateNode (postgres_nodes out) n db))"
| "pg_call out db (snd (UpdateNode (postgres_nodes out) n db))"
| "pg_call out db (snd (DeleteNode (postgres_nodes out) i db))"
| "pg_call out db (snd (ListInstances (postgres_instances out) i db))"
| "pg_call out db (snd (GetInstance (postgres_instances out) i db))"
| "pg_call out db (snd (CreateInstance (postgres_instances out) x db))"
| "pg_call out db (snd (UpdateInstance (postgres_instances out) x db))"
| "pg_call out db (snd (DeleteInstance (postgres_instances out) i db))"

lemma pg_call_keeps: "pg_call out db db' \<Longrightarrow> pg_ok db \<Longrightarrow> pg_ok db'"
  by (induction rule: pg_call.induct) (simp_all add: postgres_interfaces postgres_keep)

lemma pg_reachable_ok: "(pg_call out)\<^sup>*\<^sup>* pg_empty db \<Longrightarrow> pg_ok db"
proof (induction rule: rtranclp_induct)
  case base
  show ?case by (simp add: pg_empty_def pg_ok_def clusters_ok_def nodes_ok_def insts_ok_def)
qed (rule pg_call_keeps)


text \<open>The persistence sentinels of an error.\<close>

definition pg_sentinels :: "go_error \<Rightarrow> persistence_error set" where
  "pg_sentinels e = {s. errors_is e (PersistenceErr s)}"

lemma pg_sentinels_simps [simp]:
  "pg_sentinels (Wrapf f as e) = pg_sentinels e" "pg_sentinels (Errors_New m) = {}"
  "pg_sentinels (Sentinel (PersistenceErr s)) = {s}"
  by (auto simp: pg_sentinels_def)

text \<open>Without a fault the statement runs.\<close>

lemma query_runs:
  "po_fault out (pg_tick db) = None \<Longrightarrow> query out stmt db = stmt (pg_tick db) (db\<lparr>pg_tick := Suc (pg_tick db)\<rparr>)"
  by (simp add: query_def Let_def)

definition pg_tables :: "pg \<Rightarrow> cluster list \<times> node list \<times> inst list" where
  "pg_tables db = (pt_clusters db, pt_nodes db, pt_insts db)"

text \<open>\<open>UpdateNode\<close> on every branch, over a connection that works and with values that can be encoded. A
  malformed ID is an error without a sentinel, a missing row is \<open>ErrNotFound\<close>, a row that violates a CHECK is
  \<open>ErrValidation\<close>, a taken name or a missing cluster is \<open>ErrConflict\<close>; otherwise the row is replaced by the
  given values with its ID and creation time kept. No error changes a table.\<close>

theorem pg_update_node_outcome:
  assumes "po_fault out (pg_tick db) = None" and "node_args out n = Inr a" and "NodeRepo_UpdateNode out n db = (r, db1)"
  shows "case po_uuid out (n_ID n) of
      None \<Rightarrow> (\<exists>e. r = Inl e \<and> pg_sentinels e = {}) \<and> pg_tables db1 = pg_tables db
    | Some u \<Rightarrow>
        (case List.find (\<lambda>m. n_ID m = u) (pt_nodes db) of
           None \<Rightarrow> (\<exists>e. r = Inl e \<and> pg_sentinels e = {ErrNotFound}) \<and> pg_tables db1 = pg_tables db
         | Some old \<Rightarrow>
             if \<not> node_check n then (\<exists>e. r = Inl e \<and> pg_sentinels e = {ErrValidation}) \<and> pg_tables db1 = pg_tables db
             else if (\<exists>m \<in> set (pt_nodes db). n_ID m \<noteq> u \<and> n_ClusterID m = n_ClusterID a \<and> n_Name m = n_Name n) \<or>
                     n_ClusterID a \<notin> c_ID ` set (pt_clusters db)
             then (\<exists>e. r = Inl e \<and> pg_sentinels e = {ErrConflict}) \<and> pg_tables db1 = pg_tables db
             else (let row = n\<lparr>n_ClusterID := n_ClusterID a, n_ID := u, n_CreatedAt := n_CreatedAt old,
                              n_UpdatedAt := po_now out (pg_tick db)\<rparr>
                   in r = Inr row \<and> pg_tables db1 = (pt_clusters db, replace_by n_ID u row (pt_nodes db), pt_insts db)))"
proof -
  let ?k = "pg_tick db"
  from assms(2) obtain v where a: "a = n\<lparr>n_ClusterID := v\<rparr>"
    by (auto simp: node_args_def split: if_splits sum.splits)
  note step = assms(3) [unfolded NodeRepo_UpdateNode_def query_runs [OF assms(1)] assms(2), simplified]
  show ?thesis
  proof (cases "po_uuid out (n_ID n)")
    case None
    with step show ?thesis by (auto simp: select_by_def uuid_arg_def wrapped_def mapErr_def bad_uuid_def pg_tables_def)
  next
    case u: (Some u)
    show ?thesis
    proof (cases "List.find (\<lambda>m. n_ID m = u) (pt_nodes db)")
      case None
      with step u show ?thesis by (auto simp: select_by_def uuid_arg_def wrapped_def mapErr_def pg_tables_def)
    next
      case (Some old)
      then have old: "n_ID old = u" by (auto simp: find_Some_iff)
      let ?row = "a\<lparr>n_ID := u, n_CreatedAt := n_CreatedAt old, n_UpdatedAt := po_now out ?k\<rparr>"
      have chk: "node_check ?row = node_check n" by (simp add: a node_check_def)
      from step u Some old have s: "wrapped ''NodeRepo.UpdateNode: %w''
          (case node_violation (pt_clusters db) ?row (filter (\<lambda>r. n_ID r \<noteq> u) (pt_nodes db)) of
             Some err \<Rightarrow> (Inl err, db\<lparr>pg_tick := Suc ?k\<rparr>)
           | None \<Rightarrow> (Inr ?row, db\<lparr>pg_tick := Suc ?k, pt_nodes := replace_by n_ID u ?row (pt_nodes db)\<rparr>)) = (r, db1)"
        by (simp add: select_by_def uuid_arg_def Let_def cong: option.case_cong)
      show ?thesis
        using s u Some unfolding node_violation_def chk list_ex_key
        by (auto simp: a wrapped_def mapErr_def pg_tables_def Let_def list_ex_iff split: if_splits)
    qed
  qed
qed

text \<open>A database that takes every non-empty text for a UUID and never fails, with one cluster and one node.\<close>

definition ex_pgo :: pg_outside where
  "ex_pgo = \<lparr>po_uuid = (\<lambda>s. if s = '''' then None else Some s), po_text = (\<lambda>_. True), po_jsonb = (\<lambda>_. True),
     po_gen = (\<lambda>k. replicate (Suc k) (CHR ''a'')), po_now = (\<lambda>k. k), po_less = (<), po_fault = (\<lambda>_. None)\<rparr>"

definition ex_pg_cluster :: cluster where
  "ex_pg_cluster = zero_cluster\<lparr>c_Name := ''c1'', c_Status := ''active''\<rparr>"

definition ex_pg_node :: node where
  "ex_pg_node = zero_node\<lparr>n_ClusterID := ''a'', n_Name := ''n1'', n_CPUCores := 4, n_MemoryBytes := 8, n_DiskBytes := 16,
     n_Status := NodeStatusOnline\<rparr>"

definition ex_pg1 :: pg where
  "ex_pg1 = snd (CreateCluster (postgres_clusters ex_pgo) ex_pg_cluster pg_empty)"

definition ex_pg2 :: pg where
  "ex_pg2 = snd (CreateNode (postgres_nodes ex_pgo) ex_pg_node ex_pg1)"

lemmas ex_pg_defs = ex_pgo_def ex_pg_cluster_def ex_pg_node_def ex_pg1_def ex_pg2_def pg_empty_def zero_cluster_def zero_node_def
  NodeStatusOnline_def postgres_interfaces

lemma ex_pg1_eq:
  "ex_pg1 = \<lparr>pt_clusters = [ex_pg_cluster\<lparr>c_ID := ''a''\<rparr>], pt_nodes = [], pt_insts = [], pg_tick = 1\<rparr>"
  by (simp add: ex_pg_defs ClusterRepo_CreateCluster_def wrapped_def query_def cluster_args_def cluster_violation_def
      cluster_check_def Let_def)

lemma ex_pg2_eq:
  "ex_pg2 = \<lparr>pt_clusters = [ex_pg_cluster\<lparr>c_ID := ''a''\<rparr>],
     pt_nodes = [ex_pg_node\<lparr>n_ID := ''aa'', n_CreatedAt := 1, n_UpdatedAt := 1\<rparr>], pt_insts = [], pg_tick = 2\<rparr>"
  unfolding ex_pg2_def ex_pg1_eq
  by (simp add: ex_pgo_def ex_pg_node_def zero_node_def ex_pg_cluster_def zero_cluster_def NodeStatusOnline_def postgres_interfaces
      NodeRepo_CreateNode_def wrapped_def query_def node_args_def uuid_arg_def is_int4_def node_violation_def node_check_def
      Let_def numeral_2_eq_2)

lemma ex_pg2_reachable: "(pg_call ex_pgo)\<^sup>*\<^sup>* pg_empty ex_pg2"
proof -
  have "pg_call ex_pgo pg_empty ex_pg1" unfolding ex_pg1_def by (rule pg_call.intros)
  moreover have "pg_call ex_pgo ex_pg1 ex_pg2" unfolding ex_pg2_def by (rule pg_call.intros)
  ultimately show ?thesis by (meson converse_rtranclp_into_rtranclp rtranclp.rtrancl_refl)
qed


theorem pg_update_node_outcome_witness:
  "\<exists>e db1. NodeRepo_UpdateNode ex_pgo (ex_pg_node\<lparr>n_ID := ''zz''\<rparr>) ex_pg2 = (Inl e, db1) \<and> pg_sentinels e = {ErrNotFound}"
proof -
  obtain r db1 where u: "NodeRepo_UpdateNode ex_pgo (ex_pg_node\<lparr>n_ID := ''zz''\<rparr>) ex_pg2 = (r, db1)" by fastforce
  have a: "node_args ex_pgo (ex_pg_node\<lparr>n_ID := ''zz''\<rparr>) = Inr (ex_pg_node\<lparr>n_ID := ''zz''\<rparr>)"
    by (simp add: node_args_def ex_pgo_def ex_pg_node_def zero_node_def is_int4_def uuid_arg_def)
  have f: "po_fault ex_pgo (pg_tick ex_pg2) = None" by (simp add: ex_pgo_def)
  have "po_uuid ex_pgo (n_ID (ex_pg_node\<lparr>n_ID := ''zz''\<rparr>)) = Some ''zz''" by (simp add: ex_pgo_def)
  moreover have "List.find (\<lambda>m. n_ID m = ''zz'') (pt_nodes ex_pg2) = None" by (simp add: ex_pg2_eq)
  ultimately show ?thesis using pg_update_node_outcome [OF f a u] u by auto
qed

text \<open>What was created is read back: after a successful \<open>CreateNode\<close> the row is the caller's with the generated ID
  and the cluster ID in canonical form, it is the one row that was added, it satisfies the CHECKs, and
  \<open>GetNode\<close> returns exactly it.\<close>

theorem pg_create_get_node:
  assumes "pg_ok db" and "NodeRepo_CreateNode out n db = (Inr n', db1)"
    and "po_uuid out (po_gen out (pg_tick db)) = Some (po_gen out (pg_tick db))" and "po_fault out (pg_tick db1) = None"
  shows "po_uuid out (n_ClusterID n) = Some (n_ClusterID n') \<and> n_ID n' = po_gen out (pg_tick db) \<and>
    node_data n' = node_data (n\<lparr>n_ID := n_ID n', n_ClusterID := n_ClusterID n'\<rparr>) \<and> node_check n' \<and>
    pg_tables db1 = (pt_clusters db, pt_nodes db @ [n'], pt_insts db) \<and>
    fst (NodeRepo_GetNode out (n_ID n') db1) = Inr n'"
proof -
  let ?k = "pg_tick db"
  from assms(2) have ok: "po_fault out ?k = None"
    by (auto simp: NodeRepo_CreateNode_def wrapped_def query_def Let_def split: sum.splits option.splits prod.splits)
  with assms(2) obtain u where u: "po_uuid out (n_ClusterID n) = Some u"
    and n': "n' = n\<lparr>n_ClusterID := u, n_ID := po_gen out ?k, n_CreatedAt := po_now out ?k, n_UpdatedAt := po_now out ?k\<rparr>"
    and v: "node_violation (pt_clusters db) n' (pt_nodes db) = None"
    and db1: "db1 = db\<lparr>pg_tick := Suc ?k, pt_nodes := pt_nodes db @ [n']\<rparr>"
    by (auto simp: NodeRepo_CreateNode_def query_runs wrapped_def node_args_def uuid_arg_def Let_def
        split: sum.splits option.splits if_splits)
  have "List.find (\<lambda>m. n_ID m = n_ID n') (pt_nodes db @ [n']) = Some n'"
    using nodes_ok_insert [OF _ v] assms(1) by (intro find_member) (auto simp: pg_ok_def nodes_ok_def)
  then have "fst (NodeRepo_GetNode out (n_ID n') db1) = Inr n'"
    using assms(3,4) by (simp add: NodeRepo_GetNode_def query_runs wrapped_def select_by_def uuid_arg_def n' db1)
  with u v show ?thesis by (simp add: violation_iff db1 pg_tables_def) (simp add: n' node_data_def)
qed

theorem pg_create_get_node_witness:
  "\<exists>n'. fst (NodeRepo_GetNode ex_pgo ''aa'' ex_pg2) = Inr n' \<and> n_Name n' = ''n1''"
proof -
  have ok: "pg_ok ex_pg1" by (rule pg_reachable_ok) (auto simp: ex_pg1_def intro!: pg_call.intros)
  obtain r db1 where c: "NodeRepo_CreateNode ex_pgo ex_pg_node ex_pg1 = (r, db1)" by fastforce
  then have db1: "db1 = ex_pg2" by (simp add: ex_pg2_def postgres_interfaces)
  from c have "\<exists>n'. r = Inr n' \<and> n_ID n' = ''aa'' \<and> n_Name n' = ''n1''"
    by (auto simp: ex_pg1_eq ex_pgo_def ex_pg_node_def zero_node_def ex_pg_cluster_def zero_cluster_def NodeStatusOnline_def
        NodeRepo_CreateNode_def wrapped_def query_def node_args_def uuid_arg_def is_int4_def node_violation_def node_check_def Let_def)
  then obtain n' where n': "r = Inr n'" "n_ID n' = ''aa''" "n_Name n' = ''n1''" by blast
  have "po_uuid ex_pgo (po_gen ex_pgo (pg_tick ex_pg1)) = Some (po_gen ex_pgo (pg_tick ex_pg1))" "po_fault ex_pgo (pg_tick ex_pg2) = None"
    by (simp_all add: ex_pgo_def)
  from pg_create_get_node [OF ok c [unfolded n' db1] this] n' show ?thesis by auto
qed

end
