(* ===== verification/Postgres_Control.thy ===== *)
theory Postgres_Control
  imports Postgres Orchestrator Instance_Sync Api Lxd_Fake
begin

section \<open>The control plane on PostgreSQL\<close>

text \<open>
  The syncs, the scale-out and the API were written against the repository interfaces. This theory runs them on the
  PostgreSQL implementation, whose CHECK constraints some of their rows do not satisfy.
\<close>

text \<open>A call to something else than the database.\<close>

definition keeps_db :: "(pg \<times> 'x \<Rightarrow> 'a \<times> (pg \<times> 'x)) \<Rightarrow> bool" where
  "keeps_db f \<longleftrightarrow> (\<forall>w. fst (snd (f w)) = fst w)"

lemma keeps_dbD: "keeps_db f \<Longrightarrow> f w = (r, w') \<Longrightarrow> fst w' = fst w"
  unfolding keeps_db_def by (metis snd_conv)

subsection \<open>Rows that violate a CHECK\<close>

definition refused :: "'a res \<times> pg \<Rightarrow> pg \<Rightarrow> bool" where
  "refused p db \<longleftrightarrow> (\<exists>e. fst p = Inl e) \<and> pg_tables (snd p) = pg_tables db"

text \<open>A statement that fails on every state leaves the tables alone, whether its answer arrives or not.\<close>

lemma refused_query:
  assumes "\<And>k db. \<exists>e. stmt k db = (Inl e, db)"
  shows "refused (wrapped op (query out stmt db)) db"
proof -
  obtain e where "stmt (pg_tick db) (db\<lparr>pg_tick := Suc (pg_tick db)\<rparr>) = (Inl e, db\<lparr>pg_tick := Suc (pg_tick db)\<rparr>)"
    using assms by blast
  then show ?thesis by (auto simp: refused_def wrapped_def query_def pg_tables_def Let_def split: option.split)
qed

lemma node_args_check: "node_args out n = Inr a \<Longrightarrow> \<not> node_check n \<Longrightarrow> node_violation cs (a\<lparr>n_ID := i, n_CreatedAt := t, n_UpdatedAt := u\<rparr>) ns = Some (PgError ''23514'')"
  by (auto simp: node_args_def node_check_def node_violation_def split: if_splits sum.splits)

lemma inst_args_check: "inst_args out x = Inr a \<Longrightarrow> \<not> inst_check x \<Longrightarrow> inst_violation cs ns (a\<lparr>i_ID := i, i_CreatedAt := t, i_UpdatedAt := u\<rparr>) is = Some (PgError ''23514'')"
proof -
  assume a: "inst_args out x = Inr a" and c: "\<not> inst_check x"
  from a obtain p q where "a = x\<lparr>i_ClusterID := p, i_NodeID := q\<rparr>" by (auto simp: inst_args_def split: if_splits sum.splits)
  with c have "\<not> inst_check (a\<lparr>i_ID := i, i_CreatedAt := t, i_UpdatedAt := u\<rparr>)" by (simp add: inst_check_def)
  then show ?thesis by (simp add: inst_violation_def)
qed

lemma CreateNode_refused: "\<not> node_check n \<Longrightarrow> refused (NodeRepo_CreateNode out n db) db"
  unfolding NodeRepo_CreateNode_def Let_def
  by (rule refused_query) (cases "node_args out n", simp_all add: node_args_check)

lemma CreateInstance_refused: "\<not> inst_check i \<Longrightarrow> refused (InstanceRepo_CreateInstance out i db) db"
  unfolding InstanceRepo_CreateInstance_def Let_def
  by (rule refused_query) (cases "inst_args out i", simp_all add: inst_args_check)

lemma UpdateInstance_refused: "\<not> inst_check i \<Longrightarrow> refused (InstanceRepo_UpdateInstance out i db) db"
  unfolding InstanceRepo_UpdateInstance_def Let_def
  by (rule refused_query) (cases "inst_args out i", simp_all add: inst_args_check split: sum.split)

text \<open>The row of a server that is being provisioned has no capacity, a new instance has no limits, and the statuses
  \<open>unknown\<close> and \<open>frozen\<close> are not among those of the schema.\<close>

lemma provisioning_node_check [simp]: "\<not> node_check (provisioning_node c nodeName serverID)"
  by (simp add: provisioning_node_def node_check_def zero_node_def)

lemma new_inst_check [simp]: "\<not> inst_check (new_inst cid nodeIDs info)"
  by (simp add: new_inst_def inst_check_def zero_inst_def)

lemma lost_inst_check [simp]: "\<not> inst_check (lost_inst i)"
  by (simp add: lost_inst_def inst_check_def InstanceStatusUnknown_def)

lemma tracked_inst_check: "inst_check (tracked_inst nodeIDs i info) \<Longrightarrow> ii_Status info \<in> {''Running'', ''Stopped''}"
  by (auto simp: tracked_inst_def inst_check_def mapLXDInstanceStatus_def InstanceStatusUnknown_def InstanceStatusFrozen_def
      split: if_splits)

subsection \<open>The instance sync\<close>

lemma replace_by_key: "key row = k \<Longrightarrow> map key (replace_by key k row rows) = map key rows"
  by (induction rows) simp_all

lemma UpdateInstance_ids: "map i_ID (pt_insts (snd (InstanceRepo_UpdateInstance out i db))) = map i_ID (pt_insts db)"
  unfolding InstanceRepo_UpdateInstance_def
  by (simp add: wrapped_def query_def Let_def replace_by_key split: option.split sum.split prod.split)

lemma upsert_instance_pg:
  assumes "upsert_instance (deployed_instances out) cid nodeIDs known info w = (r, w')"
  shows "map i_ID (pt_insts (fst w')) = map i_ID (pt_insts (fst w)) \<and>
     (r = None \<longrightarrow> map_of known (ii_Name info) \<noteq> None \<and> ii_Status info \<in> {''Running'', ''Stopped''})"
proof (cases "map_of known (ii_Name info)")
  case None
  have "refused (InstanceRepo_CreateInstance out (new_inst cid nodeIDs info) (fst w)) (fst w)"
    by (rule CreateInstance_refused) simp
  with assms None show ?thesis
    by (auto simp: upsert_instance_def deployed_instances_def on_db_def refused_def pg_tables_def split: prod.splits sum.splits)
next
  case (Some i)
  let ?p = "InstanceRepo_UpdateInstance out (tracked_inst nodeIDs i info) (fst w)"
  have c: "(\<exists>e. fst ?p = Inl e) \<or> ii_Status info \<in> {''Running'', ''Stopped''}"
    using UpdateInstance_refused [of "tracked_inst nodeIDs i info" out "fst w"] tracked_inst_check by (auto simp: refused_def)
  obtain q db where p: "?p = (q, db)" by (rule that [OF surjective_pairing])
  with UpdateInstance_ids [of out "tracked_inst nodeIDs i info" "fst w"]
  have "map i_ID (pt_insts db) = map i_ID (pt_insts (fst w))" by simp
  with assms Some p c show ?thesis
    by (auto simp: upsert_instance_def deployed_instances_def on_db_def split: sum.splits)
qed

lemma upserts_pg:
  assumes "range_until_error (upsert_instance (deployed_instances out) cid nodeIDs known) infos w = (r, w')"
  shows "map i_ID (pt_insts (fst w')) = map i_ID (pt_insts (fst w)) \<and>
     (r = None \<longrightarrow> (\<forall>info \<in> set infos. map_of known (ii_Name info) \<noteq> None \<and> ii_Status info \<in> {''Running'', ''Stopped''}))"
  using assms
proof (induction infos arbitrary: w)
  case (Cons info infos)
  obtain e w1 where u: "upsert_instance (deployed_instances out) cid nodeIDs known info w = (e, w1)"
    by (rule that [OF surjective_pairing])
  note step = upsert_instance_pg [OF u]
  show ?case
  proof (cases e)
    case None
    with Cons.prems u have "range_until_error (upsert_instance (deployed_instances out) cid nodeIDs known) infos w1 = (r, w')" by simp
    from Cons.IH [OF this] step None show ?thesis by auto
  qed (use Cons.prems u step in auto)
qed simp

lemma mark_unknown_pg: "pg_tables (fst (mark_unknown (deployed_instances out) seen entries w)) = pg_tables (fst w)"
proof (induction entries arbitrary: w)
  case (Cons e entries)
  obtain x i where e: "e = (x, i)" by (cases e)
  have "refused (InstanceRepo_UpdateInstance out (lost_inst i) (fst w)) (fst w)" by (rule UpdateInstance_refused) simp
  with Cons e show ?case by (auto simp: refused_def deployed_instances_def)
qed simp

lemma reads_frame:
  "pg_tables (snd (NodeRepo_ListNodes out c db)) = pg_tables db"
  "pg_tables (snd (InstanceRepo_ListInstances out c db)) = pg_tables db"
  unfolding NodeRepo_ListNodes_def InstanceRepo_ListInstances_def
  by (simp_all add: wrapped_def query_def pg_tables_def Let_def split: option.split sum.split prod.split)

lemma ListInstances_pg:
  assumes "InstanceRepo_ListInstances out c db = (Inr existing, db')"
  shows "\<exists>u. po_uuid out c = Some u \<and> set existing = {i \<in> set (pt_insts db). i_ClusterID i = u}"
proof -
  have "\<exists>u. po_uuid out c = Some u \<and> existing = sort_slice (\<lambda>x y. po_less out (i_Name x) (i_Name y)) (filter (\<lambda>i. i_ClusterID i = u) (pt_insts db))"
    using assms unfolding InstanceRepo_ListInstances_def
    by (auto simp: wrapped_def query_def uuid_arg_def Let_def split: option.splits sum.splits prod.splits)
  then show ?thesis by auto
qed

text \<open>C11. The instance sync cannot fill an empty table on PostgreSQL: whatever LXD and the database answer, it adds no row
  and removes none, so it succeeds only if every instance that LXD reports has a row already and is running or
  stopped there. And it marks nothing as unknown: when LXD reports no instance the tables stay as they are.\<close>

theorem pg_instance_sync_adds_nothing:
  assumes "keeps_db (Client_ListInstances client)"
    and "InstanceSyncer_Sync p client (deployed_instances out) (deployed_nodes out) cid w = (r, w')"
  shows "map i_ID (pt_insts (fst w')) = map i_ID (pt_insts (fst w)) \<and>
     (r = None \<longrightarrow> (\<exists>u infos. po_uuid out cid = Some u \<and> fst (Client_ListInstances client w) = Inr infos \<and>
        (\<forall>info \<in> set infos. ii_Status info \<in> {''Running'', ''Stopped''} \<and>
           (\<exists>i \<in> set (pt_insts (fst w)). i_ClusterID i = u \<and> i_Name i = ii_Name info)))) \<and>
     (fst (Client_ListInstances client w) = Inr [] \<longrightarrow> pg_tables (fst w') = pg_tables (fst w))"
proof -
  obtain a w1 where l: "Client_ListInstances client w = (a, w1)" by (rule that [OF surjective_pairing])
  with assms(1) have w1: "fst w1 = fst w" by (intro keeps_dbD)
  obtain b w2 where n: "ListNodes (deployed_nodes out) cid w1 = (b, w2)" by (rule that [OF surjective_pairing])
  then have w2: "pg_tables (fst w2) = pg_tables (fst w)"
    using reads_frame(1) [of out cid "fst w1"] w1 by (auto simp: deployed_nodes_def on_db_eq)
  obtain d w3 where i: "ListInstances (deployed_instances out) cid w2 = (d, w3)" by (rule that [OF surjective_pairing])
  then have w3: "pg_tables (fst w3) = pg_tables (fst w)"
    using reads_frame(2) [of out cid "fst w2"] w2 by (auto simp: deployed_instances_def on_db_eq)
  show ?thesis
  proof (cases "\<exists>infos ns existing. a = Inr infos \<and> b = Inr ns \<and> d = Inr existing")
    case False
    with assms(2) l n i w1 w2 w3 show ?thesis
      by (auto simp: InstanceSyncer_Sync_def pg_tables_def Let_def split: sum.splits prod.splits)
  next
    case True
    then obtain infos ns existing where s: "a = Inr infos" "b = Inr ns" "d = Inr existing" by blast
    let ?up = "upsert_instance (deployed_instances out) cid (nodeIDByLXDName ns) (byName existing)"
    obtain e w4 where u: "range_until_error ?up infos w3 = (e, w4)" by (rule that [OF surjective_pairing])
    from assms(2) l n i s u have r: "r = e" and w': "pg_tables (fst w') = pg_tables (fst w4)"
      by (auto simp: InstanceSyncer_Sync_def Let_def mark_unknown_pg split: option.splits)
    from i s obtain db where "InstanceRepo_ListInstances out cid (fst w2) = (Inr existing, db)"
      by (auto simp: deployed_instances_def on_db_eq)
    from ListInstances_pg [OF this] w2 obtain v where v: "po_uuid out cid = Some v"
      "set existing = {i \<in> set (pt_insts (fst w)). i_ClusterID i = v}" by (auto simp: pg_tables_def)
    have "\<exists>i \<in> set (pt_insts (fst w)). i_ClusterID i = v \<and> i_Name i = x" if "map_of (byName existing) x \<noteq> None" for x
      using that v(2) unfolding byName_index by (auto dest: index_rows_Some)
    with upserts_pg [OF u] r w' w3 v l s u show ?thesis by (auto simp: pg_tables_def)
  qed
qed

subsection \<open>The scale-out\<close>

lemma record_node_pg:
  assumes "o_nodeRepo orch = Some (deployed_nodes out)" and "record_node orch c nodeName serverID w = (nodeRecord, w')"
  shows "nodeRecord = None \<and> pg_tables (fst w') = pg_tables (fst w)"
  using CreateNode_refused [of "provisioning_node c nodeName serverID" out "fst w"] assms
  by (auto simp: record_node_def deployed_nodes_def on_db_def refused_def split: sum.splits prod.splits)

lemma finish_node_pg:
  assumes "\<forall>run n cfg. o_bootstrap orch = Some run \<longrightarrow> keeps_db (run n cfg)"
  shows "fst (finish_node orch c nodeName None w) = fst w"
proof (cases "o_bootstrap orch")
  case (Some run)
  obtain res w1 where r: "run nodeName (bootstrapConfigFromCluster c nodeName) w = (res, w1)" by (rule that [OF surjective_pairing])
  from assms Some have "keeps_db (run nodeName (bootstrapConfigFromCluster c nodeName))" by blast
  then have "fst w1 = fst w" using r by (rule keeps_dbD)
  with Some r show ?thesis by (simp add: finish_node_def)
qed (simp add: finish_node_def)

lemma scale_out_guard_pg:
  assumes "o_nodeRepo orch = Some (deployed_nodes out)"
  shows "fst (scale_out_guard orch c w) \<longleftrightarrow>
      (case fst (NodeRepo_ListNodes out (c_ID c) (fst w)) of
         Inl _ \<Rightarrow> False | Inr ns \<Rightarrow> \<not> list_ex (\<lambda>n. n_Status n = NodeStatusProvisioning) ns)"
    and "pg_tables (fst (snd (scale_out_guard orch c w))) = pg_tables (fst w)"
  using assms reads_frame(1) [of out "c_ID c" "fst w"]
  by (auto simp: scale_out_guard_def deployed_nodes_def on_db_def split: sum.split prod.split)

lemma ListNodes_same:
  assumes "fst (NodeRepo_ListNodes out c db) = Inr ns" and "pg_tables db' = pg_tables db" and "po_fault out (pg_tick db') = None"
  shows "fst (NodeRepo_ListNodes out c db') = Inr ns"
  using assms unfolding NodeRepo_ListNodes_def
  by (auto simp: query_def wrapped_def pg_tables_def Let_def split: option.splits sum.splits prod.splits)

lemma executeScaleOut_pg:
  assumes nodes: "o_nodeRepo orch = Some (deployed_nodes out)"
    and rnd: "\<forall>k. keeps_db (rnd k)" and prov: "\<forall>spec. keeps_db (ProvisionServer prov spec)"
    and boot: "\<forall>run n cfg. o_bootstrap orch = Some run \<longrightarrow> keeps_db (run n cfg)"
  shows "pg_tables (fst (executeScaleOut rnd orch prov c w)) = pg_tables (fst w)"
proof -
  obtain g w1 where g: "scale_out_guard orch c w = (g, w1)" by (rule that [OF surjective_pairing])
  with scale_out_guard_pg(2) [OF nodes, of c w] have w1: "pg_tables (fst w1) = pg_tables (fst w)" by simp
  obtain a w2 where a: "generateNodeName rnd (c_Name c) w1 = (a, w2)" by (rule that [OF surjective_pairing])
  have w2: "fst w2 = fst w1"
    using a keeps_dbD [OF spec [OF rnd], of 4 w1] by (auto simp: generateNodeName_def split: prod.splits sum.splits)
  show ?thesis
  proof (cases "\<exists>nodeName spec. g \<and> a = Inr nodeName \<and> serverSpecFromCluster c nodeName = Inr spec")
    case False
    with g a w1 w2 show ?thesis by (auto simp: executeScaleOut_def split: sum.split bool.split)
  next
    case True
    then obtain nodeName spec where s: "g" "a = Inr nodeName" "serverSpecFromCluster c nodeName = Inr spec" by blast
    obtain b w3 where b: "ProvisionServer prov spec w2 = (b, w3)" by (rule that [OF surjective_pairing])
    with keeps_dbD [OF spec [OF prov]] w2 have w3: "fst w3 = fst w1" by simp
    show ?thesis
    proof (cases b)
      case (Inl e)
      with g a s b w1 w3 show ?thesis by (simp add: executeScaleOut_def)
    next
      case (Inr serverID)
      obtain r w4 where r: "record_node orch c nodeName serverID w3 = (r, w4)" by (rule that [OF surjective_pairing])
      note rec = record_node_pg [OF nodes r]
      with g a s b Inr r w1 w3 finish_node_pg [OF boot, of c nodeName w4] show ?thesis
        by (simp add: executeScaleOut_def)
    qed
  qed
qed

text \<open>C10. A scale-out on PostgreSQL never records the server it provisions: its node row has no capacity yet and the CHECK
  constraints refuse it, so the tables stay as they are. The guard against provisioning twice, which looks for a node in
  the provisioning state, therefore lets the next pass through as it let this one.\<close>

theorem pg_scale_out_unrecorded:
  assumes "o_nodeRepo orch = Some (deployed_nodes out)"
    and "\<forall>k. keeps_db (rnd k)" and "\<forall>spec. keeps_db (ProvisionServer prov spec)"
    and "\<forall>run n cfg. o_bootstrap orch = Some run \<longrightarrow> keeps_db (run n cfg)"
    and "w' = executeScaleOut rnd orch prov c w"
  shows "pg_tables (fst w') = pg_tables (fst w) \<and>
     (fst (scale_out_guard orch c w) \<and> po_fault out (pg_tick (fst w')) = None \<longrightarrow> fst (scale_out_guard orch c w'))"
proof -
  have t: "pg_tables (fst w') = pg_tables (fst w)"
    unfolding assms(5) by (rule executeScaleOut_pg [OF assms(1-4)])
  have "fst (scale_out_guard orch c w')" if g: "fst (scale_out_guard orch c w)" and f: "po_fault out (pg_tick (fst w')) = None"
  proof -
    from g obtain ns where ns: "fst (NodeRepo_ListNodes out (c_ID c) (fst w)) = Inr ns"
      "\<not> list_ex (\<lambda>n. n_Status n = NodeStatusProvisioning) ns"
      by (auto simp: scale_out_guard_pg(1) [OF assms(1)] split: sum.splits)
    with ListNodes_same [OF ns(1) t f] show ?thesis by (simp add: scale_out_guard_pg(1) [OF assms(1)])
  qed
  with t show ?thesis by blast
qed

subsection \<open>The API\<close>

text \<open>A path with a cluster ID that is no UUID is answered with 500 where the in-memory store says 404: the server's
  error \<open>22P02\<close> passes \<open>mapErr\<close> as it is. The tables stay as they are.\<close>

theorem pg_malformed_id_is_internal_error:
  assumes "po_uuid out cid = None"
  shows "fst (handleGetCluster (postgres_clusters out) cid db) = writeInternalError \<and>
    fst (handleDeleteCluster (postgres_clusters out) cid db) = writeInternalError \<and>
    pg_tables (snd (handleDeleteCluster (postgres_clusters out) cid db)) = pg_tables db"
  using assms
  by (auto simp: handleGetCluster_def handleDeleteCluster_def postgres_clusters_def ClusterRepo_GetCluster_def
      ClusterRepo_DeleteCluster_def select_by_def uuid_arg_def bad_uuid_def deleted_def wrapped_def mapErr_def query_def
      pg_tables_def Let_def split: option.split)

section \<open>Concrete runs\<close>

text \<open>The database with its one cluster next to an LXD with one running instance, and next to a counter of servers.\<close>

definition ex_pg_info :: InstanceInfo where
  "ex_pg_info = \<lparr>ii_Name = ''web'', ii_Status = ''Running'', ii_InstanceType = ''container'', ii_Location = ''m1'',
     ii_Description = '''', ii_Config = None\<rparr>"

definition ex_pg_client :: "(pg \<times> Fake) lxd_client" where
  "ex_pg_client = fake_client snd (\<lambda>f w. (fst w, f))"

theorem pg_instance_sync_adds_nothing_witness:
  "\<exists>e w'. InstanceSyncer_Sync 0 ex_pg_client (deployed_instances ex_pgo) (deployed_nodes ex_pgo) ''a''
       (ex_pg1, AddInstance ex_pg_info New) = (Some e, w') \<and> pt_insts (fst w') = []"
proof -
  let ?w = "(ex_pg1, AddInstance ex_pg_info New)"
  obtain r w' where s: "InstanceSyncer_Sync 0 ex_pg_client (deployed_instances ex_pgo) (deployed_nodes ex_pgo) ''a'' ?w = (r, w')"
    by (rule that [OF surjective_pairing])
  have k: "keeps_db (Client_ListInstances ex_pg_client)"
    by (simp add: keeps_db_def ex_pg_client_def fake_client_def lift_fake_def Let_def split: prod.split)
  have l: "fst (Client_ListInstances ex_pg_client ?w) = Inr [ex_pg_info]"
    by (simp add: ex_pg_client_def fake_client_def lift_fake_def Fake_ListInstances_def AddInstance_def New_def)
  show ?thesis
    using pg_instance_sync_adds_nothing [OF k s] s l by (cases r) (auto simp: ex_pg1_eq)
qed

definition ex_pg_provider :: "(pg \<times> nat) hyperscaler_provider" where
  "ex_pg_provider = \<lparr>ProvisionServer = (\<lambda>spec w. (Inr ''42'', (fst w, Suc (snd w)))), DeprovisionServer = (\<lambda>k w. (None, w)),
     GetServer = (\<lambda>k w. (Inl (Sentinel (ProviderErr ErrServerNotFound)), w)), ListServers = (\<lambda>w. (Inr [], w))\<rparr>"

definition ex_pg_rand :: "(pg \<times> nat) rand_source" where
  "ex_pg_rand k w = (Inr (replicate k 0), w)"

definition ex_pg_orch :: "(pg \<times> nat) Orchestrator" where
  "ex_pg_orch = WithProvider ex_pg_provider (WithNodeRepository (deployed_nodes ex_pgo) new_orchestrator)"

definition ex_pg_config :: cluster where
  "ex_pg_config = ex_pg_cluster\<lparr>c_ID := ''a'', c_HyperscalerConfig := Some [''server_type'' \<mapsto> JString ''cx21'',
     ''region'' \<mapsto> JString ''fsn1'', ''image'' \<mapsto> JString ''ubuntu-22.04'']\<rparr>"

lemma ex_pg_orch_parts:
  "o_nodeRepo ex_pg_orch = Some (deployed_nodes ex_pgo)" "o_bootstrap ex_pg_orch = None"
  by (simp_all add: ex_pg_orch_def WithProvider_def WithNodeRepository_def new_orchestrator_def)

lemma ex_pg_guard:
  "scale_out_guard ex_pg_orch ex_pg_config (ex_pg1, k) = (True, (ex_pg1\<lparr>pg_tick := 2\<rparr>, k))"
  by (simp add: scale_out_guard_def ex_pg_orch_parts deployed_nodes_def on_db_def NodeRepo_ListNodes_def wrapped_def query_def
      uuid_arg_def Let_def ex_pg1_eq ex_pgo_def ex_pg_config_def numeral_2_eq_2)

lemma ex_pg1_nodes: "pt_nodes ex_pg1 = []"
  by (simp add: ex_pg1_eq)

lemma ex_pg_scale_out:
  assumes "fst (scale_out_guard ex_pg_orch ex_pg_config w)"
  shows "snd (executeScaleOut ex_pg_rand ex_pg_orch ex_pg_provider ex_pg_config w) = Suc (snd w)"
proof -
  obtain w1 where g: "scale_out_guard ex_pg_orch ex_pg_config w = (True, w1)" "snd w1 = snd w"
    using assms by (auto simp: scale_out_guard_def ex_pg_orch_parts deployed_nodes_def on_db_def split: prod.splits sum.splits)
  have s: "\<exists>spec. serverSpecFromCluster ex_pg_config x = Inr spec" for x
    by (simp add: serverSpecFromCluster_def ex_pg_config_def config_get_def configStringFromMap_def Let_def)
  obtain spec where "serverSpecFromCluster ex_pg_config (c_Name ex_pg_config @ ''-scale-'' @ hex_bytes (replicate 4 0)) = Inr spec"
    using s by blast
  with g show ?thesis
    by (simp add: executeScaleOut_def generateNodeName_def ex_pg_rand_def ex_pg_provider_def record_node_def
        ex_pg_orch_parts finish_node_def deployed_nodes_def on_db_def split: prod.split sum.split)
qed

theorem pg_scale_out_unrecorded_witness:
  "\<exists>w'. executeScaleOut ex_pg_rand ex_pg_orch ex_pg_provider ex_pg_config (ex_pg1, 0) = w' \<and>
     snd w' = 1 \<and> pt_nodes (fst w') = [] \<and> fst (scale_out_guard ex_pg_orch ex_pg_config w') \<and>
     snd (executeScaleOut ex_pg_rand ex_pg_orch ex_pg_provider ex_pg_config w') = 2"
proof -
  let ?w' = "executeScaleOut ex_pg_rand ex_pg_orch ex_pg_provider ex_pg_config (ex_pg1, 0)"
  have "\<forall>k. keeps_db (ex_pg_rand k)" "\<forall>spec. keeps_db (ProvisionServer ex_pg_provider spec)"
    "\<forall>run n cfg. o_bootstrap ex_pg_orch = Some run \<longrightarrow> keeps_db (run n cfg)"
    by (simp_all add: keeps_db_def ex_pg_rand_def ex_pg_provider_def ex_pg_orch_parts)
  from pg_scale_out_unrecorded [OF ex_pg_orch_parts(1) this refl, of ex_pg_config "(ex_pg1, 0)"]
  have "pt_nodes (fst ?w') = []" "fst (scale_out_guard ex_pg_orch ex_pg_config ?w')"
    by (simp_all add: ex_pg_guard [of 0] pg_tables_def ex_pgo_def ex_pg1_nodes)
  with ex_pg_scale_out [of "(ex_pg1, 0)"] ex_pg_scale_out [of ?w'] show ?thesis by (simp add: ex_pg_guard)
qed

theorem pg_malformed_id_is_internal_error_witness:
  "rs_Status (fst (handleGetCluster (postgres_clusters ex_pgo) '''' ex_pg1)) = 500"
  using pg_malformed_id_is_internal_error [of ex_pgo "''''" ex_pg1]
  by (simp add: ex_pgo_def writeInternalError_def writeError_def)

end
