(* ===== verification/Postgres_Contract.thy ===== *)
theory Postgres_Contract
  imports Postgres_Control Node_Sync
begin

section \<open>PostgreSQL keeps the contracts\<close>

text \<open>
  The three repositories satisfy the contracts that the clients rely on, on a database that is plain: IDs are passed in
  their canonical form and no answer of a statement that took effect is lost. (They are not lenient: a row can violate a
  CHECK, and a listing can fail.) What the locales derive from the contracts then holds on PostgreSQL.
\<close>

definition po_plain :: "pg_outside \<Rightarrow> bool" where
  "po_plain out \<longleftrightarrow> (\<forall>s u. po_uuid out s = Some u \<longrightarrow> u = s) \<and> (\<forall>k msg. po_fault out k \<noteq> Some (msg, True))"

subsection \<open>Rows by key\<close>

definition row_of :: "('r \<Rightarrow> string) \<Rightarrow> 'r list \<Rightarrow> string \<Rightarrow> 'r option" where
  "row_of key rows k = List.find (\<lambda>r. key r = k) rows"

lemma row_of_Some: "row_of key rows k = Some r \<Longrightarrow> r \<in> set rows \<and> key r = k"
  by (auto simp: row_of_def find_Some_iff)

lemma row_of_member: "distinct (map key rows) \<Longrightarrow> r \<in> set rows \<Longrightarrow> row_of key rows (key r) = Some r"
  unfolding row_of_def by (rule find_member) simp_all

lemma row_of_None: "row_of key rows k = None \<longleftrightarrow> k \<notin> key ` set rows"
  by (auto simp: row_of_def find_None_iff)

lemma ran_row_of: "distinct (map key rows) \<Longrightarrow> ran (row_of key rows) = set rows"
  by (auto simp: ran_def dest: row_of_Some intro: row_of_member)

lemma listed_rows:
  assumes "mset rs = mset (filter P rows)" and "distinct (map key rows)"
  shows "set rs = {r \<in> ran (row_of key rows). P r} \<and> distinct (map key rs)"
proof
  from assms(1) have "set rs = {r \<in> set rows. P r}" by (metis mset_eq_setD set_filter)
  with assms(2) show "set rs = {r \<in> ran (row_of key rows). P r}" by (simp add: ran_row_of)
  have "mset (map key rs) = mset (map key (filter P rows))" using assms(1) by simp
  with assms(2) show "distinct (map key rs)" by (metis distinct_map_filter mset_eq_imp_distinct_iff)
qed

lemma row_of_Nil [simp]: "row_of key [] k = None"
  by (simp add: row_of_def)

lemma row_of_Cons [simp]: "row_of key (r # rows) k = (if key r = k then Some r else row_of key rows k)"
  by (simp add: row_of_def)

lemma row_of_append:
  assumes "key row \<notin> key ` set rows"
  shows "row_of key (rows @ [row]) = (row_of key rows)(key row \<mapsto> row)"
proof
  fix k
  show "row_of key (rows @ [row]) k = ((row_of key rows)(key row \<mapsto> row)) k"
    using assms by (induction rows) auto
qed

lemma row_of_replace_by:
  "key row = k \<Longrightarrow>
     row_of key (replace_by key k row rows) j = (if j = k then (if k \<in> key ` set rows then Some row else None) else row_of key rows j)"
  by (induction rows) auto

lemma row_of_replace:
  assumes "key row = k" and "row_of key rows k \<noteq> None"
  shows "row_of key (replace_by key k row rows) = (row_of key rows)(k \<mapsto> row)"
  using assms by (auto simp: fun_eq_iff row_of_replace_by row_of_None)

lemma row_of_remove: "row_of key (filter (\<lambda>r. key r \<noteq> k) rows) = (row_of key rows)(k := None)"
proof
  fix j
  show "row_of key (filter (\<lambda>r. key r \<noteq> k) rows) j = ((row_of key rows)(k := None)) j"
    by (induction rows) auto
qed

subsection \<open>Statements on a plain database\<close>

lemma plain_call:
  assumes "po_plain out" and "wrapped op (query out stmt db) = (r, db')"
    and "\<And>k d e d'. stmt k d = (Inl e, d') \<Longrightarrow> d' = d"
    and "\<And>k d x d'. pg_tables d = pg_tables db \<Longrightarrow> stmt k d = (Inr x, d') \<Longrightarrow> Q x d'"
  shows "(\<exists>e. r = Inl e) \<and> pg_tables db' = pg_tables db \<or> (\<exists>x. r = Inr x \<and> Q x db')"
proof -
  let ?k = "pg_tick db" and ?d = "db\<lparr>pg_tick := Suc (pg_tick db)\<rparr>"
  have t: "pg_tables ?d = pg_tables db" by (simp add: pg_tables_def)
  show ?thesis
  proof (cases "po_fault out ?k")
    case None
    obtain a d' where s: "stmt ?k ?d = (a, d')" by (rule that [OF surjective_pairing])
    with None assms(2) have w: "wrapped op (a, d') = (r, db')" by (simp add: query_runs)
    show ?thesis
    proof (cases a)
      case (Inl e)
      with w assms(3) s t show ?thesis by (fastforce simp: wrapped_def)
    next
      case (Inr x)
      with w s have "r = Inr x" "stmt ?k ?d = (Inr x, db')" by (simp_all add: wrapped_def)
      with assms(4) [OF t] show ?thesis by blast
    qed
  next
    case (Some f)
    then obtain msg took where f: "f = (msg, took)" by (cases f)
    with Some assms(1) have "\<not> took" unfolding po_plain_def by (metis (full_types))
    with Some f assms(2) t show ?thesis by (auto simp: query_def wrapped_def Let_def)
  qed
qed

lemma uuid_plain: "po_plain out \<Longrightarrow> uuid_arg out s = Inr u \<Longrightarrow> u = s"
  by (auto simp: uuid_arg_def po_plain_def split: option.splits)

lemma select_plain: "po_plain out \<Longrightarrow> select_by out key k rows = Inr r \<Longrightarrow> row_of key rows k = Some r"
  by (auto simp: select_by_def row_of_def dest: uuid_plain split: sum.splits option.splits)

lemma node_args_plain: "po_plain out \<Longrightarrow> node_args out n = Inr a \<Longrightarrow> a = n"
  by (auto simp: node_args_def dest: uuid_plain split: if_splits sum.splits)

lemma inst_args_plain: "po_plain out \<Longrightarrow> inst_args out i = Inr a \<Longrightarrow> a = i"
  using uuid_plain [of out "i_ClusterID i"] uuid_plain [of out "i_NodeID i"]
  by (auto simp: inst_args_def split: if_splits sum.splits)

lemma cluster_args_same: "cluster_args out c = Inr a \<Longrightarrow> a = c"
  by (auto simp: cluster_args_def split: if_splits)

subsection \<open>What the methods do\<close>

lemma CreateNode_plain:
  assumes "po_plain out" and "NodeRepo_CreateNode out n db = (r, db')"
  shows "(\<exists>e. r = Inl e) \<and> pg_tables db' = pg_tables db \<or>
    (\<exists>row. r = Inr row \<and> node_data row = node_data (n\<lparr>n_ID := n_ID row\<rparr>) \<and> n_ID row \<notin> n_ID ` set (pt_nodes db) \<and>
       pg_tables db' = (pt_clusters db, pt_nodes db @ [row], pt_insts db))"
proof (rule plain_call [OF assms(1) assms(2) [unfolded NodeRepo_CreateNode_def]], goal_cases)
  case (1 k d e d')
  then show ?case by (auto simp: Let_def split: sum.splits option.splits)
next
  case (2 k d x d')
  then have "node_args out n = Inr n" using node_args_plain [OF assms(1)] by (auto split: sum.splits)
  with 2 show ?case by (auto simp: Let_def violation_iff pg_tables_def node_data_def split: option.splits)
qed

lemma UpdateNode_plain:
  assumes "po_plain out" and "NodeRepo_UpdateNode out n db = (r, db')"
  shows "(\<exists>e. r = Inl e) \<and> pg_tables db' = pg_tables db \<or>
    (\<exists>row. r = Inr row \<and> (\<exists>old. row_of n_ID (pt_nodes db) (n_ID n) = Some old \<and> node_data row = node_data n \<and>
       n_CreatedAt row = n_CreatedAt old) \<and>
       pg_tables db' = (pt_clusters db, replace_by n_ID (n_ID n) row (pt_nodes db), pt_insts db))"
proof (rule plain_call [OF assms(1) assms(2) [unfolded NodeRepo_UpdateNode_def]], goal_cases)
  case (1 k d e d')
  then show ?case by (auto simp: Let_def split: sum.splits option.splits)
next
  case (2 k d x d')
  then obtain old where a: "node_args out n = Inr n" and o: "select_by out n_ID (n_ID n) (pt_nodes d) = Inr old"
    using node_args_plain [OF assms(1)] by (auto split: sum.splits)
  from select_plain [OF assms(1) o] have row: "row_of n_ID (pt_nodes d) (n_ID n) = Some old" .
  from row_of_Some [OF row] have "n_ID old = n_ID n" by simp
  with 2 a o row show ?case
    by (auto simp: Let_def pg_tables_def node_data_def split: option.splits)
qed

lemma ListNodes_plain:
  assumes "po_plain out" and "NodeRepo_ListNodes out c db = (r, db')"
  shows "(\<exists>e. r = Inl e) \<and> pg_tables db' = pg_tables db \<or>
    (\<exists>ns. r = Inr ns \<and> mset ns = mset (filter (\<lambda>n. n_ClusterID n = c) (pt_nodes db)) \<and> pg_tables db' = pg_tables db)"
proof (rule plain_call [OF assms(1) assms(2) [unfolded NodeRepo_ListNodes_def]], goal_cases)
  case (2 k d x d')
  then show ?case using uuid_plain [OF assms(1), of c] by (auto simp: pg_tables_def split: sum.splits)
qed (auto split: sum.splits)

subsection \<open>The node repository\<close>

lemma node_row_names:
  assumes "nodes_ok cs ns" and "row_of n_ID ns k = Some n" and "row_of n_ID ns k' = Some n'"
    and "n_ClusterID n = n_ClusterID n'" and "n_Name n = n_Name n'"
  shows "k = k'"
proof -
  from row_of_Some [OF assms(2)] row_of_Some [OF assms(3)]
  have m: "n \<in> set ns" "n' \<in> set ns" "n_ID n = k" "n_ID n' = k'" by simp_all
  from assms(1) have "inj_on (\<lambda>n. (n_ClusterID n, n_Name n)) (set ns)" by (simp add: nodes_ok_def distinct_map)
  with m assms(4,5) show ?thesis by (auto dest: inj_onD)
qed

interpretation pg_node: node_repo "deployed_nodes out" "\<lambda>w. row_of n_ID (pt_nodes (fst w))" "\<lambda>w. po_plain out \<and> pg_ok (fst w)"
  "\<lambda>w. (pt_clusters (fst w), pt_insts (fst w), snd w)" for out
proof (unfold_locales, goal_cases)
  case (1 w k n)
  then show ?case by (auto dest: row_of_Some)
next
  case (2 w k n k' n')
  then have "nodes_ok (pt_clusters (fst w)) (pt_nodes (fst w))" by (simp add: pg_ok_def)
  from node_row_names [OF this 2(2,3)] 2(4,5) show ?case by simp
next
  case (3 w c r w')
  then obtain db where "NodeRepo_ListNodes out c (fst w) = (r, db)" "w' = (db, snd w)" by (auto simp: deployed_nodes_def on_db_eq)
  with 3 ListNodes_plain [of out c "fst w" r db] reads_keep(3) [of "fst w" out c] show ?case by (auto simp: pg_tables_def)
next
  case (4 w c ns w')
  then obtain db where l: "NodeRepo_ListNodes out c (fst w) = (Inr ns, db)" by (auto simp: deployed_nodes_def on_db_eq)
  from 4 have d: "distinct (map n_ID (pt_nodes (fst w)))" by (simp add: pg_ok_def nodes_ok_def)
  from 4 ListNodes_plain [OF _ l] have "mset ns = mset (filter (\<lambda>n. n_ClusterID n = c) (pt_nodes (fst w)))" by auto
  from listed_rows [OF this d] show ?case .
next
  case (5 w n n' w')
  then obtain db where c: "NodeRepo_CreateNode out n (fst w) = (Inr n', db)" "w' = (db, snd w)" by (auto simp: deployed_nodes_def on_db_eq)
  from 5 CreateNode_plain [OF _ c(1)] have "node_data n' = node_data (n\<lparr>n_ID := n_ID n'\<rparr>)" "n_ID n' \<notin> n_ID ` set (pt_nodes (fst w))"
    "pg_tables db = (pt_clusters (fst w), pt_nodes (fst w) @ [n'], pt_insts (fst w))" by auto
  with 5 c node_writes_keep(1) [of "fst w" out n] show ?case
    by (auto simp: pg_tables_def row_of_append row_of_None)
next
  case (6 w n e w')
  then obtain db where c: "NodeRepo_CreateNode out n (fst w) = (Inl e, db)" "w' = (db, snd w)" by (auto simp: deployed_nodes_def on_db_eq)
  with 6 CreateNode_plain [OF _ c(1)] node_writes_keep(1) [of "fst w" out n] show ?case by (auto simp: pg_tables_def)
next
  case (7 w n n' w')
  then obtain db where c: "NodeRepo_UpdateNode out n (fst w) = (Inr n', db)" "w' = (db, snd w)" by (auto simp: deployed_nodes_def on_db_eq)
  from 7 UpdateNode_plain [OF _ c(1)] obtain old where old: "row_of n_ID (pt_nodes (fst w)) (n_ID n) = Some old"
    and d: "node_data n' = node_data n" "n_CreatedAt n' = n_CreatedAt old"
    and t: "pg_tables db = (pt_clusters (fst w), replace_by n_ID (n_ID n) n' (pt_nodes (fst w)), pt_insts (fst w))" by auto
  from node_data_fields [OF d(1)] have "n_ID n' = n_ID n" by simp
  with row_of_replace [of n_ID n' "n_ID n" "pt_nodes (fst w)"] old d t 7 c node_writes_keep(2) [of "fst w" out n] show ?case
    by (auto simp: pg_tables_def)
next
  case (8 w n e w')
  then obtain db where c: "NodeRepo_UpdateNode out n (fst w) = (Inl e, db)" "w' = (db, snd w)" by (auto simp: deployed_nodes_def on_db_eq)
  with 8 UpdateNode_plain [OF _ c(1)] node_writes_keep(2) [of "fst w" out n] show ?case by (auto simp: pg_tables_def)
qed

subsection \<open>The instance repository\<close>

lemma CreateInstance_plain:
  assumes "po_plain out" and "InstanceRepo_CreateInstance out i db = (r, db')"
  shows "(\<exists>e. r = Inl e) \<and> pg_tables db' = pg_tables db \<or>
    (\<exists>row. r = Inr row \<and> inst_data row = inst_data (i\<lparr>i_ID := i_ID row\<rparr>) \<and> i_ID row \<notin> i_ID ` set (pt_insts db) \<and>
       pg_tables db' = (pt_clusters db, pt_nodes db, pt_insts db @ [row]))"
proof (rule plain_call [OF assms(1) assms(2) [unfolded InstanceRepo_CreateInstance_def]], goal_cases)
  case (1 k d e d')
  then show ?case by (auto simp: Let_def split: sum.splits option.splits)
next
  case (2 k d x d')
  then have "inst_args out i = Inr i" using inst_args_plain [OF assms(1)] by (auto split: sum.splits)
  with 2 show ?case by (auto simp: Let_def violation_iff pg_tables_def inst_data_def split: option.splits)
qed

lemma UpdateInstance_plain:
  assumes "po_plain out" and "InstanceRepo_UpdateInstance out i db = (r, db')"
  shows "(\<exists>e. r = Inl e) \<and> pg_tables db' = pg_tables db \<or>
    (\<exists>row. r = Inr row \<and> (\<exists>old. row_of i_ID (pt_insts db) (i_ID i) = Some old \<and> inst_data row = inst_data i \<and>
       i_CreatedAt row = i_CreatedAt old) \<and>
       pg_tables db' = (pt_clusters db, pt_nodes db, replace_by i_ID (i_ID i) row (pt_insts db)))"
proof (rule plain_call [OF assms(1) assms(2) [unfolded InstanceRepo_UpdateInstance_def]], goal_cases)
  case (1 k d e d')
  then show ?case by (auto simp: Let_def split: sum.splits option.splits)
next
  case (2 k d x d')
  then obtain old where a: "inst_args out i = Inr i" and o: "select_by out i_ID (i_ID i) (pt_insts d) = Inr old"
    using inst_args_plain [OF assms(1)] by (auto split: sum.splits)
  from select_plain [OF assms(1) o] have row: "row_of i_ID (pt_insts d) (i_ID i) = Some old" .
  from row_of_Some [OF row] have "i_ID old = i_ID i" by simp
  with 2 a o row show ?case
    by (auto simp: Let_def pg_tables_def inst_data_def split: option.splits)
qed

lemma ListInstances_plain:
  assumes "po_plain out" and "InstanceRepo_ListInstances out c db = (r, db')"
  shows "(\<exists>e. r = Inl e) \<and> pg_tables db' = pg_tables db \<or>
    (\<exists>is. r = Inr is \<and> mset is = mset (filter (\<lambda>i. i_ClusterID i = c) (pt_insts db)) \<and> pg_tables db' = pg_tables db)"
proof (rule plain_call [OF assms(1) assms(2) [unfolded InstanceRepo_ListInstances_def]], goal_cases)
  case (2 k d x d')
  then show ?case using uuid_plain [OF assms(1), of c] by (auto simp: pg_tables_def split: sum.splits)
qed (auto split: sum.splits)

lemma inst_row_names:
  assumes "insts_ok cs ns is" and "row_of i_ID is k = Some i" and "row_of i_ID is k' = Some i'"
    and "i_ClusterID i = i_ClusterID i'" and "i_Name i = i_Name i'"
  shows "k = k'"
proof -
  from row_of_Some [OF assms(2)] row_of_Some [OF assms(3)]
  have m: "i \<in> set is" "i' \<in> set is" "i_ID i = k" "i_ID i' = k'" by simp_all
  from assms(1) have "inj_on (\<lambda>i. (i_ClusterID i, i_Name i)) (set is)" by (simp add: insts_ok_def distinct_map)
  with m assms(4,5) show ?thesis by (auto dest: inj_onD)
qed

interpretation pg_instance: instance_repo "deployed_instances out" "\<lambda>w. row_of i_ID (pt_insts (fst w))"
  "\<lambda>w. po_plain out \<and> pg_ok (fst w)" "\<lambda>w. (pt_clusters (fst w), pt_nodes (fst w), snd w)" for out
proof (unfold_locales, goal_cases)
  case (1 w k i)
  then show ?case by (auto dest: row_of_Some)
next
  case (2 w k i k' i')
  then have "insts_ok (pt_clusters (fst w)) (pt_nodes (fst w)) (pt_insts (fst w))" by (simp add: pg_ok_def)
  from inst_row_names [OF this 2(2,3)] 2(4,5) show ?case by simp
next
  case (3 w c r w')
  then obtain db where "InstanceRepo_ListInstances out c (fst w) = (r, db)" "w' = (db, snd w)" by (auto simp: deployed_instances_def on_db_eq)
  with 3 ListInstances_plain [of out c "fst w" r db] reads_keep(5) [of "fst w" out c] show ?case by (auto simp: pg_tables_def)
next
  case (4 w c js w')
  then obtain db where l: "InstanceRepo_ListInstances out c (fst w) = (Inr js, db)" by (auto simp: deployed_instances_def on_db_eq)
  from 4 have d: "distinct (map i_ID (pt_insts (fst w)))" by (simp add: pg_ok_def insts_ok_def)
  from 4 ListInstances_plain [OF _ l] have "mset js = mset (filter (\<lambda>i. i_ClusterID i = c) (pt_insts (fst w)))" by auto
  from listed_rows [OF this d] show ?case .
next
  case (5 w i i' w')
  then obtain db where c: "InstanceRepo_CreateInstance out i (fst w) = (Inr i', db)" "w' = (db, snd w)" by (auto simp: deployed_instances_def on_db_eq)
  from 5 CreateInstance_plain [OF _ c(1)] have "inst_data i' = inst_data (i\<lparr>i_ID := i_ID i'\<rparr>)" "i_ID i' \<notin> i_ID ` set (pt_insts (fst w))"
    "pg_tables db = (pt_clusters (fst w), pt_nodes (fst w), pt_insts (fst w) @ [i'])" by auto
  with 5 c inst_writes_keep(1) [of "fst w" out i] show ?case
    by (auto simp: pg_tables_def row_of_append row_of_None)
next
  case (6 w i e w')
  then obtain db where c: "InstanceRepo_CreateInstance out i (fst w) = (Inl e, db)" "w' = (db, snd w)" by (auto simp: deployed_instances_def on_db_eq)
  with 6 CreateInstance_plain [OF _ c(1)] inst_writes_keep(1) [of "fst w" out i] show ?case by (auto simp: pg_tables_def)
next
  case (7 w i i' w')
  then obtain db where c: "InstanceRepo_UpdateInstance out i (fst w) = (Inr i', db)" "w' = (db, snd w)" by (auto simp: deployed_instances_def on_db_eq)
  from 7 UpdateInstance_plain [OF _ c(1)] obtain old where old: "row_of i_ID (pt_insts (fst w)) (i_ID i) = Some old"
    and d: "inst_data i' = inst_data i" "i_CreatedAt i' = i_CreatedAt old"
    and t: "pg_tables db = (pt_clusters (fst w), pt_nodes (fst w), replace_by i_ID (i_ID i) i' (pt_insts (fst w)))" by auto
  from inst_data_fields [OF d(1)] have "i_ID i' = i_ID i" by simp
  with row_of_replace [of i_ID i' "i_ID i" "pt_insts (fst w)"] old d t 7 c inst_writes_keep(2) [of "fst w" out i] show ?case
    by (auto simp: pg_tables_def)
next
  case (8 w i e w')
  then obtain db where c: "InstanceRepo_UpdateInstance out i (fst w) = (Inl e, db)" "w' = (db, snd w)" by (auto simp: deployed_instances_def on_db_eq)
  with 8 UpdateInstance_plain [OF _ c(1)] inst_writes_keep(2) [of "fst w" out i] show ?case by (auto simp: pg_tables_def)
qed

subsection \<open>The cluster repository\<close>

lemma CreateCluster_plain:
  assumes "po_plain out" and "ClusterRepo_CreateCluster out c db = (r, db')"
  shows "(\<exists>e. r = Inl e) \<and> pg_tables db' = pg_tables db \<or>
    (\<exists>row. r = Inr row \<and> cluster_data row = cluster_data (c\<lparr>c_ID := c_ID row\<rparr>) \<and>
       c_ID row \<notin> c_ID ` set (pt_clusters db) \<and>
       pg_tables db' = (pt_clusters db @ [row], pt_nodes db, pt_insts db))"
proof (rule plain_call [OF assms(1) assms(2) [unfolded ClusterRepo_CreateCluster_def]], goal_cases)
  case (1 k d e d')
  then show ?case by (auto simp: Let_def split: sum.splits option.splits)
next
  case (2 k d x d')
  then have "cluster_args out c = Inr c" using cluster_args_same by (auto split: sum.splits)
  with 2 show ?case by (auto simp: Let_def violation_iff pg_tables_def cluster_data_def split: option.splits)
qed

lemma UpdateCluster_plain:
  assumes "po_plain out" and "ClusterRepo_UpdateCluster out c db = (r, db')"
  shows "(\<exists>e. r = Inl e) \<and> pg_tables db' = pg_tables db \<or>
    (\<exists>row. r = Inr row \<and> (\<exists>old. row_of c_ID (pt_clusters db) (c_ID c) = Some old \<and> cluster_data row = cluster_data c \<and>
       c_CreatedAt row = c_CreatedAt old) \<and>
       pg_tables db' = (replace_by c_ID (c_ID c) row (pt_clusters db), pt_nodes db, pt_insts db))"
proof (rule plain_call [OF assms(1) assms(2) [unfolded ClusterRepo_UpdateCluster_def]], goal_cases)
  case (1 k d e d')
  then show ?case by (auto simp: Let_def split: sum.splits option.splits)
next
  case (2 k d x d')
  then obtain old where a: "cluster_args out c = Inr c" and o: "select_by out c_ID (c_ID c) (pt_clusters d) = Inr old"
    using cluster_args_same by (auto split: sum.splits)
  from select_plain [OF assms(1) o] have row: "row_of c_ID (pt_clusters d) (c_ID c) = Some old" .
  from row_of_Some [OF row] have "c_ID old = c_ID c" by simp
  with 2 a o row show ?case
    by (auto simp: Let_def pg_tables_def cluster_data_def split: option.splits)
qed

lemma ListClusters_plain:
  assumes "po_plain out" and "ClusterRepo_ListClusters out db = (r, db')"
  shows "(\<exists>e. r = Inl e) \<and> pg_tables db' = pg_tables db \<or>
    (\<exists>cs. r = Inr cs \<and> mset cs = mset (filter (\<lambda>_. True) (pt_clusters db)) \<and> pg_tables db' = pg_tables db)"
  by (rule plain_call [OF assms(1) assms(2) [unfolded ClusterRepo_ListClusters_def]]) (auto simp: pg_tables_def)

lemma GetCluster_plain:
  assumes "po_plain out" and "ClusterRepo_GetCluster out i db = (r, db')"
  shows "(\<exists>e. r = Inl e) \<and> pg_tables db' = pg_tables db \<or>
    (\<exists>c. r = Inr c \<and> row_of c_ID (pt_clusters db) i = Some c \<and> pg_tables db' = pg_tables db)"
  by (rule plain_call [OF assms(1) assms(2) [unfolded ClusterRepo_GetCluster_def]])
    (auto simp: pg_tables_def dest: select_plain [OF assms(1)])

lemma DeleteCluster_plain:
  assumes "po_plain out" and "ClusterRepo_DeleteCluster out i db = (r, db')"
  shows "(\<exists>e. r = Some e) \<and> pt_clusters db' = pt_clusters db \<or>
    r = None \<and> i \<in> c_ID ` set (pt_clusters db) \<and> pt_clusters db' = filter (\<lambda>c. c_ID c \<noteq> i) (pt_clusters db)"
proof -
  let ?op = "''ClusterRepo.DeleteCluster: %w''"
  from assms(2) obtain q where q: "query out (\<lambda>k db. case uuid_arg out i of
        Inl err \<Rightarrow> (Inl err, db)
      | Inr u \<Rightarrow> let gone = n_ID ` set (filter (\<lambda>n. n_ClusterID n = u) (pt_nodes db))
          in (Inr (length (filter (\<lambda>c. c_ID c = u) (pt_clusters db))),
              db\<lparr>pt_clusters := filter (\<lambda>c. c_ID c \<noteq> u) (pt_clusters db),
                 pt_nodes := filter (\<lambda>n. n_ClusterID n \<noteq> u) (pt_nodes db),
                 pt_insts := map (unplace (po_now out k) gone) (filter (\<lambda>i. i_ClusterID i \<noteq> u) (pt_insts db))\<rparr>)) db = q"
    and r: "deleted ?op q = (r, db')" by (auto simp: ClusterRepo_DeleteCluster_def)
  obtain a where w: "wrapped ?op q = (a, db')" using r by (auto simp: deleted_def split: prod.splits sum.splits if_splits)
  have "(\<exists>e. a = Inl e) \<and> pg_tables db' = pg_tables db \<or>
     (\<exists>n. a = Inr n \<and> n = length (filter (\<lambda>c. c_ID c = i) (pt_clusters db)) \<and>
        pt_clusters db' = filter (\<lambda>c. c_ID c \<noteq> i) (pt_clusters db))"
    using uuid_plain [OF assms(1), of i]
    by (intro plain_call [OF assms(1) w [folded q]]) (auto simp: pg_tables_def Let_def split: sum.splits)
  moreover have "filter (\<lambda>c. c_ID c \<noteq> i) (pt_clusters db) = pt_clusters db" if "filter (\<lambda>c. c_ID c = i) (pt_clusters db) = []"
    using that by (simp add: filter_empty_conv filter_id_conv)
  moreover have "i \<in> c_ID ` set (pt_clusters db)" if "filter (\<lambda>c. c_ID c = i) (pt_clusters db) \<noteq> []"
    using that by (auto simp: filter_empty_conv)
  ultimately show ?thesis using r w by (auto simp: deleted_def pg_tables_def split: if_splits)
qed

lemma cluster_data_ID: "cluster_data a = cluster_data b \<Longrightarrow> c_ID a = c_ID b"
  by (cases a; cases b) (simp add: cluster_data_def)

lemma cluster_row_names:
  assumes "clusters_ok cs" and "row_of c_ID cs k = Some c" and "row_of c_ID cs k' = Some c'" and "c_Name c = c_Name c'"
  shows "k = k'"
proof -
  from row_of_Some [OF assms(2)] row_of_Some [OF assms(3)]
  have m: "c \<in> set cs" "c' \<in> set cs" "c_ID c = k" "c_ID c' = k'" by simp_all
  from assms(1) have "inj_on c_Name (set cs)" by (simp add: clusters_ok_def distinct_map)
  with m assms(4) show ?thesis by (auto dest: inj_onD)
qed

text \<open>Deleting a cluster takes its nodes and instances with it, so nothing is said of the other tables.\<close>

interpretation pg_cluster: cluster_repo "deployed_clusters out" "\<lambda>w. row_of c_ID (pt_clusters (fst w))"
  "\<lambda>w. po_plain out \<and> pg_ok (fst w)" snd for out
proof (unfold_locales, goal_cases)
  case (1 w k c)
  then show ?case by (auto dest: row_of_Some)
next
  case (2 w k c k' c')
  then have "clusters_ok (pt_clusters (fst w))" by (simp add: pg_ok_def)
  from cluster_row_names [OF this 2(2,3,4)] show ?case .
next
  case (3 w r w')
  then obtain db where "ClusterRepo_ListClusters out (fst w) = (r, db)" "w' = (db, snd w)" by (auto simp: deployed_clusters_def on_db_eq)
  with 3 ListClusters_plain [of out "fst w" r db] reads_keep(1) [of "fst w" out] show ?case by (auto simp: pg_tables_def)
next
  case (4 w cs w')
  then obtain db where l: "ClusterRepo_ListClusters out (fst w) = (Inr cs, db)" by (auto simp: deployed_clusters_def on_db_eq)
  from 4 have d: "distinct (map c_ID (pt_clusters (fst w)))" by (simp add: pg_ok_def clusters_ok_def)
  from 4 ListClusters_plain [OF _ l] have "mset cs = mset (filter (\<lambda>_. True) (pt_clusters (fst w)))" by auto
  from listed_rows [OF this d] show ?case by simp
next
  case (5 w k r w')
  then obtain db where "ClusterRepo_GetCluster out k (fst w) = (r, db)" "w' = (db, snd w)" by (auto simp: deployed_clusters_def on_db_eq)
  with 5 GetCluster_plain [of out k "fst w" r db] reads_keep(2) [of "fst w" out k] show ?case by (auto simp: pg_tables_def)
next
  case (6 w k c w')
  then obtain db where "ClusterRepo_GetCluster out k (fst w) = (Inr c, db)" by (auto simp: deployed_clusters_def on_db_eq)
  with 6 GetCluster_plain [of out k "fst w" "Inr c" db] show ?case by auto
next
  case (7 w c c' w')
  then obtain db where c: "ClusterRepo_CreateCluster out c (fst w) = (Inr c', db)" "w' = (db, snd w)" by (auto simp: deployed_clusters_def on_db_eq)
  from 7 CreateCluster_plain [OF _ c(1)] have "cluster_data c' = cluster_data (c\<lparr>c_ID := c_ID c'\<rparr>)"
    "c_ID c' \<notin> c_ID ` set (pt_clusters (fst w))"
    "pg_tables db = (pt_clusters (fst w) @ [c'], pt_nodes (fst w), pt_insts (fst w))" by auto
  with 7 c cluster_writes_keep(1) [of "fst w" out c] show ?case
    by (auto simp: pg_tables_def row_of_append row_of_None)
next
  case (8 w c e w')
  then obtain db where c: "ClusterRepo_CreateCluster out c (fst w) = (Inl e, db)" "w' = (db, snd w)" by (auto simp: deployed_clusters_def on_db_eq)
  with 8 CreateCluster_plain [OF _ c(1)] cluster_writes_keep(1) [of "fst w" out c] show ?case by (auto simp: pg_tables_def)
next
  case (9 w c c' w')
  then obtain db where c: "ClusterRepo_UpdateCluster out c (fst w) = (Inr c', db)" "w' = (db, snd w)" by (auto simp: deployed_clusters_def on_db_eq)
  from 9 UpdateCluster_plain [OF _ c(1)] obtain old where old: "row_of c_ID (pt_clusters (fst w)) (c_ID c) = Some old"
    and d: "cluster_data c' = cluster_data c" "c_CreatedAt c' = c_CreatedAt old"
    and t: "pg_tables db = (replace_by c_ID (c_ID c) c' (pt_clusters (fst w)), pt_nodes (fst w), pt_insts (fst w))" by auto
  from cluster_data_ID [OF d(1)] have "c_ID c' = c_ID c" by simp
  with row_of_replace [of c_ID c' "c_ID c" "pt_clusters (fst w)"] old d t 9 c cluster_writes_keep(2) [of "fst w" out c] show ?case
    by (auto simp: pg_tables_def)
next
  case (10 w c e w')
  then obtain db where c: "ClusterRepo_UpdateCluster out c (fst w) = (Inl e, db)" "w' = (db, snd w)" by (auto simp: deployed_clusters_def on_db_eq)
  with 10 UpdateCluster_plain [OF _ c(1)] cluster_writes_keep(2) [of "fst w" out c] show ?case by (auto simp: pg_tables_def)
next
  case (11 w k w')
  then obtain db where "ClusterRepo_DeleteCluster out k (fst w) = (None, db)" "w' = (db, snd w)" by (auto simp: deployed_clusters_def on_db_eq)
  with 11 DeleteCluster_plain [of out k "fst w" None db] cluster_writes_keep(3) [of "fst w" out k] show ?case
    by (auto simp: row_of_remove row_of_None)
next
  case (12 w k e w')
  then obtain db where "ClusterRepo_DeleteCluster out k (fst w) = (Some e, db)" "w' = (db, snd w)" by (auto simp: deployed_clusters_def on_db_eq)
  with 12 DeleteCluster_plain [of out k "fst w" "Some e" db] cluster_writes_keep(3) [of "fst w" out k] show ?case by auto
qed

section \<open>The node sync on PostgreSQL\<close>

definition reads_lxd_only :: "(pg \<times> 'x) lxd_client \<Rightarrow> bool" where
  "reads_lxd_only C \<longleftrightarrow> keeps_db (Client_GetClusterMembers C) \<and> (\<forall>k. keeps_db (Client_GetNodeResources C k)) \<and>
     keeps_db (Client_ListInstances C)"

lemma pg_node_syncer:
  assumes "reads_lxd_only C"
  shows "node_syncer (deployed_nodes out) (\<lambda>w. row_of n_ID (pt_nodes (fst w))) (\<lambda>w. po_plain out \<and> pg_ok (fst w))
    (\<lambda>w. (pt_clusters (fst w), pt_insts (fst w), snd w)) C"
proof (intro node_syncer.intro pg_node.node_repo_axioms lxd_reader.intro, goal_cases)
  case (1 w r w')
  then show ?case using assms keeps_dbD unfolding reads_lxd_only_def by fastforce
next
  case (2 k w r w')
  then show ?case using assms keeps_dbD unfolding reads_lxd_only_def by fastforce
next
  case (3 w r w')
  then show ?case using assms keeps_dbD unfolding reads_lxd_only_def by fastforce
qed

text \<open>A node sync over PostgreSQL, whatever LXD answers, whichever statement fails and however far it gets: on
  a plain database the tables stay consistent, no node row is lost, a row of the cluster keeps its ID, cluster, name,
  LXD name and server ID, and the rows of the other clusters stay as they are.\<close>

theorem pg_node_sync_preserves:
  assumes "po_plain out" and "pg_ok (fst w)" and "reads_lxd_only C"
    and "Syncer_Sync p C (deployed_nodes out) c w = (r, w')"
  shows "pg_ok (fst w') \<and>
     (\<forall>old \<in> set (pt_nodes (fst w)). \<exists>new \<in> set (pt_nodes (fst w')). n_ID new = n_ID old \<and> node_ident new = node_ident old \<and>
        (n_ClusterID old \<noteq> c \<longrightarrow> new = old)) \<and>
     (\<forall>new \<in> set (pt_nodes (fst w')). n_ClusterID new \<noteq> c \<longrightarrow> new \<in> set (pt_nodes (fst w)))"
proof -
  let ?T = "\<lambda>w. row_of n_ID (pt_nodes (fst w))"
  have d: "distinct (map n_ID (pt_nodes (fst v)))" if "pg_ok (fst v)" for v :: "pg \<times> 'a"
    using that by (simp add: pg_ok_def nodes_ok_def)
  from node_syncer.Sync_keeps [OF pg_node_syncer [OF assms(3)], of out] assms
  have ok: "pg_ok (fst w')" and k: "pg_node.rec.keeps c (?T w) (?T w')" by blast+
  note mem = row_of_member [OF d] row_of_Some [of n_ID]
  have "\<exists>new \<in> set (pt_nodes (fst w')). n_ID new = n_ID old \<and> node_ident new = node_ident old \<and> (n_ClusterID old \<noteq> c \<longrightarrow> new = old)"
    if "old \<in> set (pt_nodes (fst w))" for old
    using k mem(1) [OF assms(2) that] mem(2) unfolding pg_node.rec.keeps_def by metis
  moreover have "new \<in> set (pt_nodes (fst w))" if m: "new \<in> set (pt_nodes (fst w'))" and "n_ClusterID new \<noteq> c" for new
  proof (cases "?T w (n_ID new)")
    case None
    with k mem(1) [OF ok m] that show ?thesis unfolding pg_node.rec.keeps_def by metis
  next
    case (Some old)
    with k mem(1) [OF ok m] that(2) have "new = old" using node_ident_fields unfolding pg_node.rec.keeps_def by (metis option.inject)
    with mem(2) [OF Some] show ?thesis by simp
  qed
  ultimately show ?thesis using ok by blast
qed

text \<open>LXD reports no member at all: the stored node is kept and marked offline.\<close>

definition ex_pg_offline :: node where
  "ex_pg_offline = ex_pg_node\<lparr>n_ID := ''aa'', n_Status := NodeStatusOffline, n_CreatedAt := 1, n_UpdatedAt := 3\<rparr>"

lemma ex_pg_list:
  "NodeRepo_ListNodes ex_pgo ''a'' ex_pg2 =
     (Inr [ex_pg_node\<lparr>n_ID := ''aa'', n_CreatedAt := 1, n_UpdatedAt := 1\<rparr>], ex_pg2\<lparr>pg_tick := 3\<rparr>)"
  by (simp add: NodeRepo_ListNodes_def wrapped_def query_def uuid_arg_def ex_pg2_eq ex_pgo_def ex_pg_node_def zero_node_def
      Let_def numeral_3_eq_3 numeral_2_eq_2)

lemma ex_pg_update:
  "NodeRepo_UpdateNode ex_pgo ((ex_pg_node\<lparr>n_ID := ''aa'', n_CreatedAt := 1, n_UpdatedAt := 1\<rparr>)\<lparr>n_Status := NodeStatusOffline\<rparr>)
       (ex_pg2\<lparr>pg_tick := 3\<rparr>) = (Inr ex_pg_offline, ex_pg2\<lparr>pt_nodes := [ex_pg_offline], pg_tick := 4\<rparr>)"
  by (simp add: NodeRepo_UpdateNode_def wrapped_def query_def node_args_def uuid_arg_def select_by_def node_violation_def
      node_check_def is_int4_def replace_by_def ex_pg2_eq ex_pgo_def ex_pg_cluster_def zero_cluster_def ex_pg_node_def
      zero_node_def ex_pg_offline_def NodeStatusOffline_def NodeStatusOnline_def Let_def)

lemma ex_pg_sync:
  "Syncer_Sync 0 ex_pg_client (deployed_nodes ex_pgo) ''a'' (ex_pg2, New) =
     (None, (ex_pg2\<lparr>pt_nodes := [ex_pg_offline], pg_tick := 4\<rparr>, New))"
proof -
  have "Client_GetClusterMembers ex_pg_client (ex_pg2, New) = (Inr [], (ex_pg2, New))"
    by (simp add: ex_pg_client_def fake_client_def lift_fake_def Fake_GetClusterMembers_def New_def)
  with ex_pg_list ex_pg_update show ?thesis
    by (simp add: Syncer_Sync_def deployed_nodes_def on_db_def byLXDName_def Let_def)
qed

lemma ex_pg_client_reads: "reads_lxd_only ex_pg_client"
  by (simp add: reads_lxd_only_def keeps_db_def ex_pg_client_def fake_client_def lift_fake_def Let_def split: prod.split)

theorem pg_node_sync_preserves_witness:
  "\<exists>w'. Syncer_Sync 0 ex_pg_client (deployed_nodes ex_pgo) ''a'' (ex_pg2, New) = (None, w') \<and>
     (\<exists>n \<in> set (pt_nodes (fst w')). n_ID n = ''aa'' \<and> n_Name n = ''n1'' \<and> n_Status n = NodeStatusOffline)"
proof -
  note s = ex_pg_sync
  have p: "po_plain ex_pgo" by (simp add: po_plain_def ex_pgo_def)
  note k = ex_pg_client_reads
  have "pg_ok (fst (ex_pg2, New))" using pg_reachable_ok [OF ex_pg2_reachable] by simp
  from pg_node_sync_preserves [OF p this k s]
  obtain new where n: "new = ex_pg_offline" "node_ident new = node_ident (ex_pg_node\<lparr>n_ID := ''aa'', n_CreatedAt := 1, n_UpdatedAt := 1\<rparr>)"
    by (auto simp: ex_pg2_eq)
  from node_ident_fields [OF n(2)] have "n_Name new = ''n1''" by (simp add: ex_pg_node_def zero_node_def)
  with s n(1) show ?thesis by (auto simp: ex_pg_offline_def)
qed

end
