(* ===== verification/Api_Postgres.thy ===== *)
theory Api_Postgres
  imports Postgres_Contract
begin

section \<open>The cluster routes on PostgreSQL\<close>

text \<open>
  What a client of the deployed API gets, on every branch, when the server takes every statement: the handlers of \<open>Api\<close> over
  the repository of \<open>Postgres\<close>. The API's own description is \<open>docs/api/openapi.yaml\<close>; the two differ where a status is unknown
  and where a cluster still has nodes. The last part compares the same routes on the in-memory store.
\<close>

text \<open>No statement fails on the way, and the canonical form of a UUID is one.\<close>

definition healthy :: "pg_outside \<Rightarrow> bool" where
  "healthy out \<longleftrightarrow> (\<forall>k. po_fault out k = None) \<and> (\<forall>s u. po_uuid out s = Some u \<longrightarrow> po_uuid out u = Some u)"

lemma healthy_query: "healthy out \<Longrightarrow> query out stmt db = stmt (pg_tick db) (db\<lparr>pg_tick := Suc (pg_tick db)\<rparr>)"
  by (simp add: query_def healthy_def Let_def)

lemma healthy_uuid: "healthy out \<Longrightarrow> po_uuid out s = Some u \<Longrightarrow> po_uuid out u = Some u"
  by (simp add: healthy_def)

lemma pg_tables_tick [simp]: "pg_tables (db\<lparr>pg_tick := k\<rparr>) = pg_tables db"
  by (simp add: pg_tables_def)

text \<open>The errors of a statement, as the handlers tell them apart.\<close>

lemma mapped_sentinels [simp]:
  "errors_is (the (mapErr (Some ErrNoRows))) (PersistenceErr s) \<longleftrightarrow> s = ErrNotFound"
  "errors_is (the (mapErr (Some (PgError code)))) (PersistenceErr ErrNotFound) \<longleftrightarrow> False"
  "errors_is (the (mapErr (Some (PgError code)))) (PersistenceErr ErrConflict) \<longleftrightarrow> code = ''23505'' \<or> code = ''23503''"
  by (auto simp: mapErr_def)

lemma Get_healthy:
  assumes "healthy out"
  shows "GetCluster (postgres_clusters out) i db =
    (case po_uuid out i of
       None \<Rightarrow> Inl (Wrapf ''ClusterRepo.GetCluster: %w'' [] (the (mapErr (Some bad_uuid))))
     | Some u \<Rightarrow>
         (case row_of c_ID (pt_clusters db) u of
            None \<Rightarrow> Inl (Wrapf ''ClusterRepo.GetCluster: %w'' [] (the (mapErr (Some ErrNoRows))))
          | Some c \<Rightarrow> Inr c), db\<lparr>pg_tick := Suc (pg_tick db)\<rparr>)"
  by (simp add: postgres_interfaces ClusterRepo_GetCluster_def healthy_query [OF assms] select_by_def uuid_arg_def row_of_def wrapped_def
      split: option.split)

lemma cluster_args_error: "cluster_args out c = Inl e \<Longrightarrow> e = PgError ''22021'' \<or> e = PgError ''22P05''"
  by (auto simp: cluster_args_def bad_text_def bad_json_def split: if_splits)

text \<open>The database after the deletion of a cluster, the cascades included.\<close>

definition after_delete :: "pg_outside \<Rightarrow> string \<Rightarrow> pg \<Rightarrow> pg" where
  "after_delete out u db = db\<lparr>pg_tick := Suc (pg_tick db), pt_clusters := filter (\<lambda>c. c_ID c \<noteq> u) (pt_clusters db),
     pt_nodes := filter (\<lambda>n. n_ClusterID n \<noteq> u) (pt_nodes db),
     pt_insts := map (unplace (po_now out (pg_tick db)) (n_ID ` set (filter (\<lambda>n. n_ClusterID n = u) (pt_nodes db))))
       (filter (\<lambda>i. i_ClusterID i \<noteq> u) (pt_insts db))\<rparr>"

lemma Delete_healthy:
  assumes "healthy out" and "po_uuid out i = Some u"
  shows "DeleteCluster (postgres_clusters out) i db =
    (if u \<notin> c_ID ` set (pt_clusters db)
     then Some (Wrapf ''ClusterRepo.DeleteCluster: %w'' [] (Sentinel (PersistenceErr ErrNotFound))) else None, after_delete out u db)"
proof -
  have "length (filter (\<lambda>c. c_ID c = u) (pt_clusters db)) = 0 \<longleftrightarrow> u \<notin> c_ID ` set (pt_clusters db)"
    by (auto simp: filter_empty_conv)
  then show ?thesis using assms(2)
    by (simp add: postgres_interfaces ClusterRepo_DeleteCluster_def deleted_def wrapped_def healthy_query [OF assms(1)]
        uuid_arg_def Let_def after_delete_def)
qed

lemma taken_iff:
  assumes "clusters_ok cs"
  shows "(\<exists>k d. row_of c_ID cs k = Some d \<and> k \<noteq> u \<and> c_Name d = n) \<longleftrightarrow> (\<exists>d \<in> set cs. c_ID d \<noteq> u \<and> c_Name d = n)"
  using row_of_member [of c_ID cs] assms by (auto simp: clusters_ok_def dest: row_of_Some)

lemma Update_healthy:
  assumes "healthy out" and "clusters_ok (pt_clusters db)" and "po_uuid out (c_ID c) = Some (c_ID c)"
    and "row_of c_ID (pt_clusters db) (c_ID c) = Some old"
    and "UpdateCluster (postgres_clusters out) c db = (r, db')"
  shows "if (\<exists>e. cluster_args out c = Inl e) \<or> \<not> cluster_check c
     then (\<exists>e. r = Inl e \<and> \<not> errors_is e (PersistenceErr ErrNotFound) \<and> \<not> errors_is e (PersistenceErr ErrConflict)) \<and>
       pg_tables db' = pg_tables db
     else if \<exists>k d. row_of c_ID (pt_clusters db) k = Some d \<and> k \<noteq> c_ID c \<and> c_Name d = c_Name c
     then (\<exists>e. r = Inl e \<and> \<not> errors_is e (PersistenceErr ErrNotFound) \<and> errors_is e (PersistenceErr ErrConflict)) \<and>
       pg_tables db' = pg_tables db
     else \<exists>d. r = Inr d \<and> cluster_data d = cluster_data c \<and> c_CreatedAt d = c_CreatedAt old \<and>
       pg_tables db' = (replace_by c_ID (c_ID c) d (pt_clusters db), pt_nodes db, pt_insts db)"
proof (cases "cluster_args out c")
  case (Inl e)
  with assms(5) cluster_args_error [OF Inl] show ?thesis
    by (auto simp: postgres_interfaces ClusterRepo_UpdateCluster_def healthy_query [OF assms(1)] wrapped_def)
next
  case (Inr a)
  let ?row = "c\<lparr>c_ID := c_ID old, c_CreatedAt := c_CreatedAt old, c_UpdatedAt := po_now out (pg_tick db)\<rparr>"
    and ?others = "filter (\<lambda>r. c_ID r \<noteq> c_ID old) (pt_clusters db)"
  have a: "a = c" using cluster_args_same [OF Inr] by simp
  have old: "c_ID old = c_ID c" using row_of_Some [OF assms(4)] by simp
  have "UpdateCluster (postgres_clusters out) c db = wrapped ''ClusterRepo.UpdateCluster: %w''
      (case cluster_violation ?row ?others of
         Some err \<Rightarrow> (Inl err, db\<lparr>pg_tick := Suc (pg_tick db)\<rparr>)
       | None \<Rightarrow> (Inr ?row, db\<lparr>pg_tick := Suc (pg_tick db), pt_clusters := replace_by c_ID (c_ID old) ?row (pt_clusters db)\<rparr>))"
    using assms(3,4) Inr a
    by (simp add: postgres_interfaces ClusterRepo_UpdateCluster_def healthy_query [OF assms(1)] select_by_def uuid_arg_def row_of_def
        Let_def cong: option.case_cong)
  moreover obtain taken where taken: "(\<exists>k d. row_of c_ID (pt_clusters db) k = Some d \<and> k \<noteq> c_ID c \<and> c_Name d = c_Name c) = taken"
    by blast
  then have "cluster_violation ?row ?others =
      (if \<not> cluster_check c then Some (PgError ''23514'') else if taken then Some (PgError ''23505'') else None)"
    unfolding taken_iff [OF assms(2)] by (auto simp: cluster_violation_def cluster_check_def list_ex_iff old)
  ultimately show ?thesis
    using assms(5) Inr unfolding taken
    by (cases "cluster_check c"; cases taken) (auto simp: wrapped_def old pg_tables_def cluster_data_def)
qed

section \<open>The two stores next to each other\<close>

text \<open>The same clusters in memory and in the database, up to the times that each store sets itself.\<close>

definition same_clusters :: "'z mem_scheme \<Rightarrow> pg \<Rightarrow> bool" where
  "same_clusters s db \<longleftrightarrow>
     (\<forall>k. map_option cluster_data (map_of (mem_clusters s) k) = map_option cluster_data (row_of c_ID (pt_clusters db) k))"

lemma same_clusters_cases:
  assumes "same_clusters s db"
  obtains "map_of (mem_clusters s) k = None" and "row_of c_ID (pt_clusters db) k = None"
  | c d where "map_of (mem_clusters s) k = Some c" and "row_of c_ID (pt_clusters db) k = Some d" and "cluster_data c = cluster_data d"
proof -
  from assms have "map_option cluster_data (map_of (mem_clusters s) k) = map_option cluster_data (row_of c_ID (pt_clusters db) k)"
    by (simp add: same_clusters_def)
  with that show thesis by (cases "map_of (mem_clusters s) k"; cases "row_of c_ID (pt_clusters db) k") auto
qed

lemma same_clusters_upd:
  assumes "same_clusters s db" and "map_of (mem_clusters s') = (map_of (mem_clusters s))(u := x)"
    and "row_of c_ID (pt_clusters db') = (row_of c_ID (pt_clusters db))(u := y)" and "map_option cluster_data x = map_option cluster_data y"
  shows "same_clusters s' db'"
  using assms by (simp add: same_clusters_def)

lemma same_clusters_same:
  "same_clusters s db \<Longrightarrow> mem_clusters s' = mem_clusters s \<Longrightarrow> pg_tables db' = pg_tables db \<Longrightarrow> same_clusters s' db'"
  by (simp add: same_clusters_def pg_tables_def)

lemma data_name: "cluster_data c = cluster_data d \<Longrightarrow> c_Name c = c_Name d"
  by (cases c; cases d) (simp add: cluster_data_def)

lemma same_taken:
  assumes "same_clusters s db"
  shows "(\<exists>k d. map_of (mem_clusters s) k = Some d \<and> k \<noteq> u \<and> c_Name d = n) \<longleftrightarrow>
    (\<exists>k d. row_of c_ID (pt_clusters db) k = Some d \<and> k \<noteq> u \<and> c_Name d = n)"
proof -
  have "(\<exists>d. map_of (mem_clusters s) k = Some d \<and> c_Name d = n) \<longleftrightarrow> (\<exists>d. row_of c_ID (pt_clusters db) k = Some d \<and> c_Name d = n)" for k
    by (rule same_clusters_cases [OF assms, of k]) (auto dest: data_name)
  then show ?thesis by blast
qed

text \<open>A merge looks at the data only.\<close>

lemma merge_update_data:
  "cluster_data a = cluster_data b \<Longrightarrow>
     (\<exists>m. merge_update req a = Inl m \<and> merge_update req b = Inl m) \<or>
     (\<exists>c d. merge_update req a = Inr c \<and> merge_update req b = Inr d \<and> cluster_data c = cluster_data d)"
  by (cases a; cases b)
    (auto simp: merge_update_def merge_name_def merge_endpoint_def merge_rest_def cluster_data_def split: option.split)

lemma put_agrees:
  assumes "healthy pgo" and "po_uuid pgo cid = Some cid" and "pg_ok db" and "mem_inv s" and "same_clusters s db"
    and req: "decode_update out body = Some req"
    and storable: "\<And>old c. row_of c_ID (pt_clusters db) cid = Some old \<Longrightarrow> merge_update req old = Inr c \<Longrightarrow>
      cluster_args pgo c = Inr c \<and> cluster_check c"
    and m: "handleUpdateCluster out memory_clusters cid body s = (r1, s')"
    and p: "handleUpdateCluster out (postgres_clusters pgo) cid body db = (r2, db')"
  shows "rs_Status r1 = rs_Status r2 \<and> same_clusters s' db'"
proof -
  let ?db = "db\<lparr>pg_tick := Suc (pg_tick db)\<rparr>"
  note pg = p [unfolded handleUpdateCluster_def req option.case Get_healthy [OF assms(1)] assms(2)]
  note mem = update_cluster_outcome [OF assms(4) req m]
  show ?thesis
  proof (rule same_clusters_cases [OF assms(5), of cid])
    assume "map_of (mem_clusters s) cid = None" "row_of c_ID (pt_clusters db) cid = None"
    with pg mem show ?thesis by (auto simp: writeError_def intro: same_clusters_same [OF assms(5)])
  next
    fix a b assume ab: "map_of (mem_clusters s) cid = Some a" "row_of c_ID (pt_clusters db) cid = Some b" "cluster_data a = cluster_data b"
    from merge_update_data [OF ab(3), of req] show ?thesis
    proof (elim disjE exE conjE)
      fix msg assume "merge_update req a = Inl msg" "merge_update req b = Inl msg"
      with pg mem ab show ?thesis by (auto intro: same_clusters_same [OF assms(5)])
    next
      fix c d assume cd: "merge_update req a = Inr c" "merge_update req b = Inr d" "cluster_data c = cluster_data d"
      from merge_update_fields [OF cd(2)] row_of_Some [OF ab(2)] have id: "c_ID d = cid" by simp
      obtain r db2 where r: "UpdateCluster (postgres_clusters pgo) d ?db = (r, db2)" by (rule that [OF surjective_pairing])
      have "clusters_ok (pt_clusters ?db)" using assms(3) by (simp add: pg_ok_def)
      note upd = Update_healthy [OF assms(1) this _ _ r] 
      note st = storable [OF ab(2) cd(2)]
      obtain taken where t: "(\<exists>k x. row_of c_ID (pt_clusters db) k = Some x \<and> k \<noteq> cid \<and> c_Name x = c_Name d) = taken" by blast
      with same_taken [OF assms(5), of cid "c_Name d"] data_name [OF cd(3)]
      have t': "(\<exists>k x. map_of (mem_clusters s) k = Some x \<and> k \<noteq> cid \<and> c_Name x = c_Name c) = taken" by simp
      show ?thesis
      proof (cases taken)
        case True
        with upd id assms(2) ab st t obtain e where "r = Inl e" "errors_is e (PersistenceErr ErrConflict)"
          "\<not> errors_is e (PersistenceErr ErrNotFound)" "pg_tables db2 = pg_tables db" by auto
        moreover from True mem ab cd t' have "rs_Status r1 = 409" "s' = s" by simp_all
        ultimately show ?thesis using pg ab cd r by (auto simp: writeError_def intro: same_clusters_same [OF assms(5)])
      next
        case False
        with upd id assms(2) ab st t obtain x where x: "r = Inr x" "cluster_data x = cluster_data d"
          "pt_clusters db2 = replace_by c_ID cid x (pt_clusters db)" by (auto simp: pg_tables_def)
        from False mem ab cd t' obtain y where y: "r1 = writeJSON 200 (ClusterBody y)" "cluster_data y = cluster_data c"
          "map_of (mem_clusters s') = (map_of (mem_clusters s))(cid \<mapsto> y)" by auto
        from cluster_data_ID [OF x(2)] id have "c_ID x = cid" by simp
        with x(3) ab(2) have "row_of c_ID (pt_clusters db2) = (row_of c_ID (pt_clusters db))(cid \<mapsto> x)"
          by (simp add: row_of_replace)
        from same_clusters_upd [OF assms(5) y(3) this] x(2) y(2) cd(3) have "same_clusters s' db2" by simp
        with pg ab cd r x y show ?thesis by (auto simp: writeJSON_def)
      qed
    qed
  qed
qed

lemma put_or_refused_agrees:
  assumes "healthy pgo" and "po_uuid pgo cid = Some cid" and "pg_ok db" and "mem_inv s" and "same_clusters s db"
    and "\<And>req old c. decode_update out body = Some req \<Longrightarrow> row_of c_ID (pt_clusters db) cid = Some old \<Longrightarrow>
      merge_update req old = Inr c \<Longrightarrow> cluster_args pgo c = Inr c \<and> cluster_check c"
  shows "case (handleUpdateCluster out memory_clusters cid body s, handleUpdateCluster out (postgres_clusters pgo) cid body db) of
    ((r1, s'), (r2, db')) \<Rightarrow> rs_Status r1 = rs_Status r2 \<and> same_clusters s' db'"
proof (cases "decode_update out body")
  case None
  with assms(5) show ?thesis by (simp add: handleUpdateCluster_def)
next
  case (Some req)
  obtain r1 s' r2 db' where m: "handleUpdateCluster out memory_clusters cid body s = (r1, s')"
    and p: "handleUpdateCluster out (postgres_clusters pgo) cid body db = (r2, db')" by (metis surj_pair)
  from put_agrees [OF assms(1-5) Some assms(6) [OF Some] m p] m p show ?thesis by simp
qed

lemma get_agrees:
  assumes "healthy pgo" and "po_uuid pgo cid = Some cid" and "same_clusters s db"
  shows "case (handleGetCluster memory_clusters cid s, handleGetCluster (postgres_clusters pgo) cid db) of
    ((r1, s'), (r2, db')) \<Rightarrow> rs_Status r1 = rs_Status r2 \<and> same_clusters s' db'"
proof -
  have "GetCluster memory_clusters cid s = ((case map_of (mem_clusters s) cid of
      None \<Rightarrow> Inl not_found_error | Some c \<Rightarrow> Inr c), s)" 
    by (simp add: memory_interfaces ClusterStore_GetCluster_def split: option.split)
  moreover have "same_clusters s (db\<lparr>pg_tick := k\<rparr>)" for k using assms(3) by (rule same_clusters_same) simp_all
  ultimately show ?thesis
    by (rule_tac same_clusters_cases [OF assms(3), of cid])
      (simp_all add: handleGetCluster_def Get_healthy [OF assms(1)] assms(2) writeJSON_def not_found_error_def)
qed

lemma delete_agrees:
  assumes "healthy pgo" and "po_uuid pgo cid = Some cid" and "pg_ok db" and "mem_inv s" and "same_clusters s db"
  shows "case (handleDeleteCluster memory_clusters cid s, handleDeleteCluster (postgres_clusters pgo) cid db) of
    ((r1, s'), (r2, db')) \<Rightarrow> rs_Status r1 = rs_Status r2 \<and> same_clusters s' db'"
proof (rule same_clusters_cases [OF assms(5), of cid])
  assume n: "map_of (mem_clusters s) cid = None" "row_of c_ID (pt_clusters db) cid = None"
  then have "filter (\<lambda>c. c_ID c \<noteq> cid) (pt_clusters db) = pt_clusters db"
    by (auto simp: row_of_None filter_id_conv)
  with n assms(5) show ?thesis
    by (simp add: handleDeleteCluster_def Delete_healthy [OF assms(1,2)] row_of_None memory_interfaces ClusterStore_DeleteCluster_def
        not_found_error_def after_delete_def same_clusters_def)
next
  fix c d assume r: "map_of (mem_clusters s) cid = Some c" "row_of c_ID (pt_clusters db) cid = Some d"
  then have "cid \<in> c_ID ` set (pt_clusters db)" by (auto dest: row_of_Some)
  moreover have "same_clusters (s\<lparr>mem_clusters := AList.delete cid (mem_clusters s)\<rparr>) (after_delete pgo cid db)"
    by (rule same_clusters_upd [OF assms(5), where u = cid and x = None and y = None])
      (simp_all add: after_delete_def row_of_remove delete_conv')
  ultimately show ?thesis using r(1)
    by (simp add: handleDeleteCluster_def Delete_healthy [OF assms(1,2)] memory_interfaces ClusterStore_DeleteCluster_def)
qed

section \<open>Properties\<close>

text \<open>C6. A PUT of a cluster on PostgreSQL, on every branch: 500 for an ID that is no UUID, 404 without a row, 422 for a blank name or
  endpoint, 500 for a status outside the three of the schema or for text the server does not take (where the API description
  says 422), 409 exactly when another cluster has the name, otherwise 200 with the merged row, which keeps ID and creation
  time. Only a 200 changes a table, and only this row.\<close>

theorem pg_put_outcome:
  assumes "healthy pgo" and "pg_ok db" and "decode_update out body = Some req"
    and "handleUpdateCluster out (postgres_clusters pgo) cid body db = (resp, db')"
  defines "T \<equiv> row_of c_ID (pt_clusters db)" and "same \<equiv> pg_tables db' = pg_tables db"
  shows "case po_uuid pgo cid of
      None \<Rightarrow> resp = writeInternalError \<and> same
    | Some u \<Rightarrow>
        (case T u of
           None \<Rightarrow> rs_Status resp = 404 \<and> same
         | Some old \<Rightarrow>
             (case merge_update req old of
                Inl message \<Rightarrow> resp = validation_error message \<and> same
              | Inr c \<Rightarrow>
                  if (\<exists>e. cluster_args pgo c = Inl e) \<or> \<not> cluster_check c then resp = writeInternalError \<and> same
                  else if \<exists>k d. T k = Some d \<and> k \<noteq> u \<and> c_Name d = c_Name c then rs_Status resp = 409 \<and> same
                  else \<exists>d. resp = writeJSON 200 (ClusterBody d) \<and> cluster_data d = cluster_data c \<and>
                     c_CreatedAt d = c_CreatedAt old \<and>
                     pg_tables db' = (replace_by c_ID u d (pt_clusters db), pt_nodes db, pt_insts db)))"
proof -
  note get = Get_healthy [OF assms(1), of cid db]
  note run = assms(4) [unfolded handleUpdateCluster_def assms(3) option.case get]
  show ?thesis
  proof (cases "po_uuid pgo cid")
    case None
    with run show ?thesis by (auto simp: bad_uuid_def same_def)
  next
    case u: (Some u)
    show ?thesis
    proof (cases "T u")
      case None
      with u run show ?thesis by (auto simp: T_def same_def writeError_def)
    next
      case old: (Some old)
      then have row: "row_of c_ID (pt_clusters db) u = Some old" by (simp add: T_def)
      show ?thesis
      proof (cases "merge_update req old")
        case (Inl m)
        with u row old run show ?thesis by (auto simp: same_def)
      next
        case (Inr c)
        let ?db = "db\<lparr>pg_tick := Suc (pg_tick db)\<rparr>"
        from merge_update_fields [OF Inr] row_of_Some [OF row] have id: "c_ID c = u" by simp
        obtain r db2 where r: "UpdateCluster (postgres_clusters pgo) c ?db = (r, db2)" by (rule that [OF surjective_pairing])
        have "clusters_ok (pt_clusters ?db)" using assms(2) by (simp add: pg_ok_def)
        from Update_healthy [OF assms(1) this _ _ r] id row healthy_uuid [OF assms(1) u]
        show ?thesis using run u row old Inr r
          by (auto simp: T_def same_def writeError_def split: if_splits)
      qed
    qed
  qed
qed

text \<open>C7. A DELETE of a cluster on PostgreSQL, on every branch: 500 for an ID that is no UUID, 404 without a row, and otherwise
  204, whatever the cluster still has. Its nodes and instances are gone with it, and an instance of another cluster that ran on
  one of its nodes is without a node. (The API description answers 409 while a cluster has active nodes or instances.)\<close>

theorem pg_delete_outcome:
  assumes "healthy pgo" and "pg_ok db" and "handleDeleteCluster (postgres_clusters pgo) cid db = (resp, db')"
  shows "case po_uuid pgo cid of
      None \<Rightarrow> resp = writeInternalError \<and> pg_tables db' = pg_tables db
    | Some u \<Rightarrow>
        if u \<notin> c_ID ` set (pt_clusters db) then rs_Status resp = 404 \<and> pg_tables db' = pg_tables db
        else rs_Status resp = 204 \<and> pt_clusters db' = filter (\<lambda>c. c_ID c \<noteq> u) (pt_clusters db) \<and>
          pt_nodes db' = filter (\<lambda>n. n_ClusterID n \<noteq> u) (pt_nodes db) \<and>
          (\<forall>i \<in> set (pt_insts db'). i_ClusterID i \<noteq> u \<and> (i_NodeID i = '''' \<or> i_NodeID i \<in> n_ID ` set (pt_nodes db'))) \<and>
          map i_ID (pt_insts db') = map i_ID (filter (\<lambda>i. i_ClusterID i \<noteq> u) (pt_insts db))"
proof (cases "po_uuid pgo cid")
  case None
  with assms(3) show ?thesis
    by (auto simp: handleDeleteCluster_def postgres_interfaces ClusterRepo_DeleteCluster_def deleted_def wrapped_def
        healthy_query [OF assms(1)] uuid_arg_def bad_uuid_def)
next
  case (Some u)
  let ?db = "after_delete pgo u db"
  note del = Delete_healthy [OF assms(1) Some, of db]
  from assms(2) have "pg_ok ?db" using cluster_writes_keep(3) [of db pgo cid] del by (simp add: postgres_interfaces)
  show ?thesis
  proof (cases "u \<in> c_ID ` set (pt_clusters db)")
    case True
    with assms(3) del have "rs_Status resp = 204" "db' = ?db" by (auto simp: handleDeleteCluster_def)
    with Some True \<open>pg_ok ?db\<close> show ?thesis by (auto simp: after_delete_def pg_ok_def insts_ok_def o_def)
  next
    case False
    with assms(2) have "\<forall>n \<in> set (pt_nodes db). n_ClusterID n \<noteq> u" "\<forall>i \<in> set (pt_insts db). i_ClusterID i \<noteq> u"
      by (auto simp: pg_ok_def nodes_ok_def insts_ok_def)
    then have "pg_tables ?db = pg_tables db"
      using False by (auto simp: after_delete_def pg_tables_def unplace_def filter_id_conv filter_empty_conv intro!: map_idI)
    with Some False assms(3) del show ?thesis by (auto simp: handleDeleteCluster_def writeError_def)
  qed
qed

text \<open>C8. The API behaves the same on the in-memory store, which its tests use, and on PostgreSQL, as long as the
  database takes what it is sent. For the same clusters, a GET, a PUT and a DELETE of a well-formed ID have the same
  status on both, and the clusters are still the same afterwards.\<close>

theorem stores_agree:
  assumes "healthy pgo" and "po_uuid pgo cid = Some cid" and "pg_ok db" and "mem_inv s" and "same_clusters s db"
    and "\<And>req old c. decode_update out body = Some req \<Longrightarrow> row_of c_ID (pt_clusters db) cid = Some old \<Longrightarrow>
      merge_update req old = Inr c \<Longrightarrow> cluster_args pgo c = Inr c \<and> cluster_check c"
  shows "(case (handleGetCluster memory_clusters cid s, handleGetCluster (postgres_clusters pgo) cid db) of
       ((r1, s'), (r2, db')) \<Rightarrow> rs_Status r1 = rs_Status r2 \<and> same_clusters s' db') \<and>
     (case (handleUpdateCluster out memory_clusters cid body s, handleUpdateCluster out (postgres_clusters pgo) cid body db) of
       ((r1, s'), (r2, db')) \<Rightarrow> rs_Status r1 = rs_Status r2 \<and> same_clusters s' db') \<and>
     (case (handleDeleteCluster memory_clusters cid s, handleDeleteCluster (postgres_clusters pgo) cid db) of
       ((r1, s'), (r2, db')) \<Rightarrow> rs_Status r1 = rs_Status r2 \<and> same_clusters s' db')"
  using get_agrees [OF assms(1,2,5)] delete_agrees [OF assms(1-5)] put_or_refused_agrees [OF assms] by simp

section \<open>Concrete requests\<close>

definition ex_put_status :: clusterUpdateRequest where
  "ex_put_status = \<lparr>ur_Name = None, ur_LXDEndpoint = None, ur_HyperscalerProvider = None, ur_HyperscalerConfig = None,
     ur_ScalingConfig = None, ur_Status = Some ''maintenance''\<rparr>"

lemma ex_pgo_healthy: "healthy ex_pgo"
  by (auto simp: healthy_def ex_pgo_def split: if_splits)

lemma ex_pg2_ok: "pg_ok ex_pg2"
  by (simp add: ex_pg2_eq pg_ok_def clusters_ok_def nodes_ok_def insts_ok_def cluster_check_def node_check_def ex_pg_cluster_def
      ex_pg_node_def NodeStatusOnline_def)

text \<open>A status that the schema does not know is answered with 500.\<close>

theorem pg_put_outcome_witness:
  "fst (handleUpdateCluster (ex_out\<lparr>decode_update := (\<lambda>_. Some ex_put_status)\<rparr>) (postgres_clusters ex_pgo) ''a'' '''' ex_pg2) =
     writeInternalError"
proof -
  let ?out = "ex_out\<lparr>decode_update := (\<lambda>_. Some ex_put_status)\<rparr>"
  have row: "row_of c_ID (pt_clusters ex_pg2) ''a'' = Some (ex_pg_cluster\<lparr>c_ID := ''a''\<rparr>)" by (simp add: ex_pg2_eq)
  have "merge_update ex_put_status (ex_pg_cluster\<lparr>c_ID := ''a''\<rparr>) = Inr (ex_pg_cluster\<lparr>c_ID := ''a'', c_Status := ''maintenance''\<rparr>)"
    by (simp add: merge_update_def merge_name_def merge_endpoint_def merge_rest_def ex_put_status_def ex_pg_cluster_def zero_cluster_def)
  with pg_put_outcome [OF ex_pgo_healthy ex_pg2_ok _ surjective_pairing, of ?out "''''" ex_put_status "''a''"] row show ?thesis
    by (simp add: ex_pgo_def cluster_check_def)
qed

text \<open>Deleting a cluster that has an online node succeeds, and the node's row is gone.\<close>

theorem pg_delete_outcome_witness:
  "\<exists>resp db'. handleDeleteCluster (postgres_clusters ex_pgo) ''a'' ex_pg2 = (resp, db') \<and> rs_Status resp = 204 \<and>
     pt_nodes ex_pg2 \<noteq> [] \<and> pt_nodes db' = []"
proof -
  obtain resp db' where d: "handleDeleteCluster (postgres_clusters ex_pgo) ''a'' ex_pg2 = (resp, db')" by (rule that [OF surjective_pairing])
  from pg_delete_outcome [OF ex_pgo_healthy ex_pg2_ok d] have "rs_Status resp = 204" "pt_nodes db' = []"
    by (simp_all add: ex_pgo_def ex_pg2_eq ex_pg_node_def)
  moreover have "pt_nodes ex_pg2 \<noteq> []" by (simp add: ex_pg2_eq)
  ultimately show ?thesis using d by blast
qed

text \<open>The same cluster in memory. A PUT that renames it does the same on both stores.\<close>

definition ex_same_mem :: mem where
  "ex_same_mem = (mem_init ex_supply)\<lparr>mem_clusters := [(''a'', ex_pg_cluster\<lparr>c_ID := ''a'', c_CreatedAt := 5\<rparr>)]\<rparr>"

lemma ex_same_mem_inv: "mem_inv ex_same_mem"
  using ex_supply_distinct
  by (fastforce simp: ex_same_mem_def mem_init_def mem_inv_def fresh_supply_def used_ids_def distinct_uuids_def rows_wf_def
      ex_pg_cluster_def zero_cluster_def dest: ex_supply_long)

lemma ex_same_clusters: "same_clusters ex_same_mem ex_pg2"
  by (simp add: same_clusters_def ex_same_mem_def ex_pg2_eq ex_pg_cluster_def zero_cluster_def cluster_data_def)

theorem stores_agree_witness:
  "map_of (mem_clusters ex_same_mem) ''a'' \<noteq> None \<and>
   rs_Status (fst (handleUpdateCluster ex_out memory_clusters ''a'' ''c2'' ex_same_mem)) =
     rs_Status (fst (handleUpdateCluster ex_out (postgres_clusters ex_pgo) ''a'' ''c2'' ex_pg2))"
proof -
  have "po_uuid ex_pgo ''a'' = Some ''a''" by (simp add: ex_pgo_def)
  moreover have "cluster_args ex_pgo c = Inr c \<and> cluster_check c"
    if "decode_update ex_out ''c2'' = Some req" "row_of c_ID (pt_clusters ex_pg2) ''a'' = Some old" "merge_update req old = Inr c"
    for req old c
    using that by (auto simp: ex_out_def ex_pg2_eq ex_pg_cluster_def zero_cluster_def merge_update_def merge_name_def merge_endpoint_def
        merge_rest_def cluster_args_def cluster_check_def ex_pgo_def split: if_splits)
  ultimately show ?thesis
    using stores_agree [OF ex_pgo_healthy _ ex_pg2_ok ex_same_mem_inv ex_same_clusters, of "''a''" ex_out "''c2''"]
    by (auto simp: ex_same_mem_def split: prod.splits)
qed

end
