(* ===== verification/Json.thy ===== *)
theory Json
  imports Go_Strings Go_Strconv
begin

section \<open>JSON values and their decoding into structs (encoding/json)\<close>

text \<open>
  A JSON text is its value; a number is its literal. What \<open>json.Unmarshal\<close> does with a value: \<open>null\<close> leaves the
  target as it is, a value of another kind is an error, an unknown key is ignored, a key matches a field name
  exactly or up to case. The keys of one object do not repeat.
\<close>

datatype json =
  JNull
| JBool bool
| JNum string
| JStr string
| JArr "json list"
| JObj "(string \<times> json) list"

definition type_mismatch :: go_error where
  "type_mismatch = Errors_New ''json: cannot unmarshal value into Go value''"

type_synonym 'a decoder = "json \<Rightarrow> 'a \<Rightarrow> 'a res"

definition dec_string :: "string decoder" where
  "dec_string j old = (case j of JNull \<Rightarrow> Inr old | JStr s \<Rightarrow> Inr s | _ \<Rightarrow> Inl type_mismatch)"

definition dec_bool :: "bool decoder" where
  "dec_bool j old = (case j of JNull \<Rightarrow> Inr old | JBool b \<Rightarrow> Inr b | _ \<Rightarrow> Inl type_mismatch)"

definition dec_int :: "int64 decoder" where
  "dec_int j old = (case j of JNull \<Rightarrow> Inr old | JNum lit \<Rightarrow> ParseInt lit | _ \<Rightarrow> Inl type_mismatch)"

definition dec_uint64 :: "64 word decoder" where
  "dec_uint64 j old = (case j of JNull \<Rightarrow> Inr old | JNum lit \<Rightarrow> ParseUint lit | _ \<Rightarrow> Inl type_mismatch)"

text \<open>A \<open>json.RawMessage\<close> keeps the value, \<open>null\<close> included.\<close>

definition dec_raw :: "json option decoder" where
  "dec_raw j old = Inr (Some j)"

fun dec_elems :: "'a decoder \<Rightarrow> 'a \<Rightarrow> json list \<Rightarrow> 'a list res" where
  "dec_elems dec zero [] = Inr []"
| "dec_elems dec zero (j # js) =
     (case dec j zero of
        Inl err \<Rightarrow> Inl err
      | Inr x \<Rightarrow> (case dec_elems dec zero js of Inl err \<Rightarrow> Inl err | Inr xs \<Rightarrow> Inr (x # xs)))"

text \<open>A slice; \<open>nil\<close> and the empty slice are both the empty list.\<close>

definition dec_list :: "'a decoder \<Rightarrow> 'a \<Rightarrow> 'a list decoder" where
  "dec_list dec zero j old =
     (case j of JNull \<Rightarrow> Inr [] | JArr js \<Rightarrow> dec_elems dec zero js | _ \<Rightarrow> Inl type_mismatch)"

text \<open>A \<open>map[string]string\<close>; \<open>None\<close> is \<open>nil\<close>.\<close>

fun dec_entries :: "(string \<times> json) list \<Rightarrow> (string \<Rightarrow> string option) \<Rightarrow> (string \<Rightarrow> string option) res" where
  "dec_entries [] m = Inr m"
| "dec_entries ((k, j) # kvs) m =
     (case dec_string j '''' of Inl err \<Rightarrow> Inl err | Inr v \<Rightarrow> dec_entries kvs (m(k \<mapsto> v)))"

definition dec_string_map :: "(string \<Rightarrow> string option) option decoder" where
  "dec_string_map j old =
     (case j of
        JNull \<Rightarrow> Inr None
      | JObj kvs \<Rightarrow>
          (case dec_entries kvs (case old of None \<Rightarrow> Map.empty | Some m \<Rightarrow> m) of
             Inl err \<Rightarrow> Inl err | Inr m \<Rightarrow> Inr (Some m))
      | _ \<Rightarrow> Inl type_mismatch)"

text \<open>The folding of key names: ASCII letters, the long s and the Kelvin sign.\<close>

definition fold_pairs :: "(string \<times> string) list" where
  "fold_pairs = [(bytes_string [197, 191], ''s''), (bytes_string [226, 132, 170], ''k'')]"

fun fold_name :: "string \<Rightarrow> string" where
  "fold_name (a # b # c # cs) =
     (case map_of fold_pairs [a, b] of
        Some s \<Rightarrow> s @ fold_name (c # cs)
      | None \<Rightarrow>
          (case map_of fold_pairs [a, b, c] of
             Some s \<Rightarrow> s @ fold_name cs
           | None \<Rightarrow> ascii_lower a # fold_name (b # c # cs)))"
| "fold_name [a, b] = (case map_of fold_pairs [a, b] of Some s \<Rightarrow> s | None \<Rightarrow> [ascii_lower a, ascii_lower b])"
| "fold_name [a] = [ascii_lower a]"
| "fold_name [] = []"

text \<open>Lower-case ASCII names fold to themselves.\<close>

definition lower_ascii :: "char \<Rightarrow> bool" where
  "lower_ascii c \<longleftrightarrow> (of_char c :: nat) < 128 \<and> ascii_lower c = c"

lemma fold_pairs_ascii: "lower_ascii a \<Longrightarrow> map_of fold_pairs (a # s) = None"
proof -
  assume a: "lower_ascii a"
  have "a \<noteq> char_of (197 :: nat)" "a \<noteq> char_of (226 :: nat)" using a by (auto simp: lower_ascii_def)
  then show ?thesis by (simp add: fold_pairs_def bytes_string_def)
qed

lemma fold_name_ascii: "list_all lower_ascii s \<Longrightarrow> fold_name s = s"
proof (induction s rule: fold_name.induct)
qed (auto simp: fold_pairs_ascii lower_ascii_def)

declare fold_name.simps [simp del]

text \<open>A struct: a field is its JSON name with the decoder that sets it. The names are lower case.\<close>

type_synonym 'r fields = "(string \<times> 'r decoder) list"

definition field :: "string \<Rightarrow> 'a decoder \<Rightarrow> ('r \<Rightarrow> 'a) \<Rightarrow> (('a \<Rightarrow> 'a) \<Rightarrow> 'r \<Rightarrow> 'r) \<Rightarrow> string \<times> 'r decoder" where
  "field name dec get upd =
     (name, \<lambda>j r. case dec j (get r) of Inl err \<Rightarrow> Inl err | Inr v \<Rightarrow> Inr (upd (\<lambda>_. v) r))"

definition find_field :: "'r fields \<Rightarrow> string \<Rightarrow> 'r decoder option" where
  "find_field fs key = (case map_of fs key of Some d \<Rightarrow> Some d | None \<Rightarrow> map_of fs (fold_name key))"

fun dec_members :: "'r fields \<Rightarrow> (string \<times> json) list \<Rightarrow> 'r \<Rightarrow> 'r res" where
  "dec_members fs [] r = Inr r"
| "dec_members fs ((key, j) # kvs) r =
     (case find_field fs key of
        None \<Rightarrow> dec_members fs kvs r
      | Some d \<Rightarrow> (case d j r of Inl err \<Rightarrow> Inl err | Inr r' \<Rightarrow> dec_members fs kvs r'))"

definition dec_struct :: "'r fields \<Rightarrow> 'r decoder" where
  "dec_struct fs j old =
     (case j of JNull \<Rightarrow> Inr old | JObj kvs \<Rightarrow> dec_members fs kvs old | _ \<Rightarrow> Inl type_mismatch)"

subsection \<open>Decoding what was encoded\<close>

lemma dec_simps [simp]:
  "dec_string (JStr s) x = Inr s" "dec_bool (JBool b) x' = Inr b" "dec_raw j y = Inr (Some j)"
  "dec_string JNull x = Inr x" "dec_bool JNull x' = Inr x'"
  by (simp_all add: dec_string_def dec_bool_def dec_raw_def)

lemma dec_int_literal [simp]: "dec_int (JNum (FormatInt k)) x = Inr k"
  by (simp add: dec_int_def ParseInt_FormatInt)

lemma dec_uint64_literal [simp]: "dec_uint64 (JNum (nat_digits (unat k))) x = Inr k"
  by (simp add: dec_uint64_def ParseUint_digits)

lemma dec_elems_map:
  "(\<And>x. x \<in> set xs \<Longrightarrow> dec (enc x) zero = Inr (f x)) \<Longrightarrow> dec_elems dec zero (map enc xs) = Inr (map f xs)"
  by (induction xs) auto

lemma dec_list_map:
  "(\<And>x. x \<in> set xs \<Longrightarrow> dec (enc x) zero = Inr (f x)) \<Longrightarrow> dec_list dec zero (JArr (map enc xs)) old = Inr (map f xs)"
  by (simp add: dec_list_def dec_elems_map)

lemma dec_entries_strings:
  "distinct (map fst kvs) \<Longrightarrow> dec_entries (map (\<lambda>(k, v). (k, JStr v)) kvs) m = Inr (m ++ map_of kvs)"
proof (induction kvs arbitrary: m)
  case (Cons kv kvs)
  obtain k v where "kv = (k, v)" by fastforce
  moreover from this Cons.prems have "map_of kvs k = None" by (simp add: map_of_eq_None_iff)
  ultimately show ?case using Cons by (auto simp: map_add_def fun_eq_iff split: option.split)
qed simp

lemma dec_struct_JObj: "dec_struct fs (JObj kvs) r = dec_members fs kvs r"
  by (simp add: dec_struct_def)

end
