(* ===== verification/Go_Url.thy ===== *)
theory Go_Url
  imports Go_Strings
begin

section \<open>URL escaping (net/url)\<close>

text \<open>How a path segment and a query value are escaped and read back, with the round trips.\<close>

definition unreserved :: "char \<Rightarrow> bool" where
  "unreserved c \<longleftrightarrow>
     c \<in> set ''abcdefghijklmnopqrstuvwxyzABCDEFGHIJKLMNOPQRSTUVWXYZ0123456789-_.~''"

definition upper_hex :: "nat \<Rightarrow> char" where
  "upper_hex d = ''0123456789ABCDEF'' ! d"

definition percent :: "char \<Rightarrow> string" where
  "percent c = [CHR ''%'', upper_hex (of_char c div 16), upper_hex (of_char c mod 16)]"

definition path_char :: "char \<Rightarrow> string" where
  "path_char c = (if unreserved c \<or> c \<in> set ''$&+:=@'' then [c] else percent c)"

definition query_char :: "char \<Rightarrow> string" where
  "query_char c = (if unreserved c then [c] else if c = CHR '' '' then ''+'' else percent c)"

definition PathEscape :: "string \<Rightarrow> string" where
  "PathEscape s = concat (map path_char s)"

definition QueryEscape :: "string \<Rightarrow> string" where
  "QueryEscape s = concat (map query_char s)"

text \<open>\<open>PathUnescape\<close> and \<open>QueryUnescape\<close>, the latter reading \<open>+\<close> as a space.\<close>

definition unhex :: "char \<Rightarrow> nat option" where
  "unhex c =
     (let k = of_char c :: nat
      in if 48 \<le> k \<and> k \<le> 57 then Some (k - 48)
         else if 97 \<le> k \<and> k \<le> 102 then Some (k - 87)
         else if 65 \<le> k \<and> k \<le> 70 then Some (k - 55) else None)"

fun unescape :: "bool \<Rightarrow> string \<Rightarrow> string option" where
  "unescape query [] = Some []"
| "unescape query (c # cs) =
     (if c = CHR ''%'' then
        (case cs of
           a # b # rest \<Rightarrow>
             (case (unhex a, unhex b) of
                (Some x, Some y) \<Rightarrow> map_option (\<lambda>t. char_of (16 * x + y) # t) (unescape query rest)
              | _ \<Rightarrow> None)
         | _ \<Rightarrow> None)
      else map_option (\<lambda>t. (if query \<and> c = CHR ''+'' then CHR '' '' else c) # t) (unescape query cs))"

lemma unhex_upper: "d < 16 \<Longrightarrow> unhex (upper_hex d) = Some d"
proof -
  assume "d < 16"
  then have "d \<in> set [0..<16]" by simp
  then show ?thesis by (auto simp: upt_rec upper_hex_def unhex_def)
qed

lemma of_char_div: "(of_char c :: nat) div 16 < 16"
proof -
  have "(of_char c :: nat) < 256" by (rule nat_of_char_less_256)
  then show ?thesis by (simp add: less_mult_imp_div_less)
qed

lemma unescape_percent [simp]: "unescape query (percent c @ s) = map_option (Cons c) (unescape query s)"
proof -
  have "unhex (upper_hex (of_char c div 16)) = Some (of_char c div 16)"
    "unhex (upper_hex (of_char c mod 16)) = Some (of_char c mod 16)"
    using of_char_div by (auto intro!: unhex_upper)
  then show ?thesis by (simp add: percent_def)
qed

lemma unescape_path_char: "unescape False (path_char c @ s) = map_option (Cons c) (unescape False s)"
  by (cases "c = CHR ''%''") (auto simp: path_char_def unreserved_def)

lemma unescape_query_char: "unescape True (query_char c @ s) = map_option (Cons c) (unescape True s)"
  by (cases "c = CHR ''%''"; cases "c = CHR ''+''") (auto simp: query_char_def unreserved_def)

lemma unescape_PathEscape: "unescape False (PathEscape s) = Some s"
  by (induction s) (simp_all add: PathEscape_def unescape_path_char)

lemma unescape_QueryEscape: "unescape True (QueryEscape s) = Some s"
  by (induction s) (simp_all add: QueryEscape_def unescape_query_char)

lemma PathEscape_inj: "PathEscape s = PathEscape t \<Longrightarrow> s = t"
  by (metis unescape_PathEscape option.inject)

lemma QueryEscape_inj: "QueryEscape s = QueryEscape t \<Longrightarrow> s = t"
  by (metis unescape_QueryEscape option.inject)

text \<open>What escaping leaves: none of the characters that end a path segment or a query value.\<close>

lemma upper_hex_unreserved: "d < 16 \<Longrightarrow> unreserved (upper_hex d)"
proof -
  assume "d < 16"
  then have "d \<in> set [0..<16]" by simp
  then show ?thesis by (auto simp: upt_rec upper_hex_def unreserved_def)
qed

lemma percent_chars: "x \<in> set (percent c) \<Longrightarrow> x = CHR ''%'' \<or> unreserved x"
  using of_char_div [of c] by (auto simp: percent_def intro: upper_hex_unreserved)

lemma PathEscape_chars: "x \<in> set (PathEscape s) \<Longrightarrow> unreserved x \<or> x \<in> set ''%$&+:=@''"
  by (auto simp: PathEscape_def path_char_def split: if_splits dest: percent_chars)

lemma QueryEscape_chars: "x \<in> set (QueryEscape s) \<Longrightarrow> unreserved x \<or> x \<in> set ''%+''"
  by (auto simp: QueryEscape_def query_char_def split: if_splits dest: percent_chars)

lemma PathEscape_no_delims: "set (PathEscape s) \<inter> set ''/?#'' = {}"
  using PathEscape_chars by (fastforce simp: unreserved_def)

end
