(* ===== verification/Lxd_Http.thy ===== *)
theory Lxd_Http
  imports Lxd Json Go_Url
begin

section \<open>The LXD client over HTTP (internal/lxd/lxd.go)\<close>

text \<open>
  The wire types with their JSON names, the construction of a client with its options, the client
  operations and the HTTP helpers. Outside the code, and an argument: the transport (\<open>ho_Do\<close>), the check
  of a URL by \<open>http.NewRequest\<close> and the two PEM parsers. A response body is the JSON value it holds, \<open>None\<close> when it
  is not JSON. The text of an error that is formatted with \<open>%s\<close> is left out of the message.
\<close>

subsection \<open>Wire types\<close>

record apiResponse =
  ar_Type :: string
  ar_Status :: string
  ar_StatusCode :: int64
  ar_Operation :: string
  ar_Error :: string
  ar_ErrorCode :: int64
  ar_Metadata :: "json option"

definition apiResponse_zero :: apiResponse where
  "apiResponse_zero = \<lparr>ar_Type = '''', ar_Status = '''', ar_StatusCode = 0, ar_Operation = '''', ar_Error = '''',
     ar_ErrorCode = 0, ar_Metadata = None\<rparr>"

definition apiResponse_fields :: "apiResponse fields" where
  "apiResponse_fields =
     [field ''type'' dec_string ar_Type ar_Type_update, field ''status'' dec_string ar_Status ar_Status_update,
      field ''status_code'' dec_int ar_StatusCode ar_StatusCode_update,
      field ''operation'' dec_string ar_Operation ar_Operation_update, field ''error'' dec_string ar_Error ar_Error_update,
      field ''error_code'' dec_int ar_ErrorCode ar_ErrorCode_update, field ''metadata'' dec_raw ar_Metadata ar_Metadata_update]"

record apiMember =
  am_ServerName :: string
  am_URL :: string
  am_Status :: string
  am_Message :: string
  am_Architecture :: string
  am_Description :: string
  am_Roles :: "string list"

definition apiMember_zero :: apiMember where
  "apiMember_zero = \<lparr>am_ServerName = '''', am_URL = '''', am_Status = '''', am_Message = '''', am_Architecture = '''',
     am_Description = '''', am_Roles = []\<rparr>"

definition apiMember_fields :: "apiMember fields" where
  "apiMember_fields =
     [field ''server_name'' dec_string am_ServerName am_ServerName_update, field ''url'' dec_string am_URL am_URL_update,
      field ''status'' dec_string am_Status am_Status_update, field ''message'' dec_string am_Message am_Message_update,
      field ''architecture'' dec_string am_Architecture am_Architecture_update,
      field ''description'' dec_string am_Description am_Description_update,
      field ''roles'' (dec_list dec_string '''') am_Roles am_Roles_update]"

record apiInstance =
  ai_Name :: string
  ai_Status :: string
  ai_Type :: string
  ai_Location :: string
  ai_Description :: string
  ai_Config :: string_map

definition apiInstance_zero :: apiInstance where
  "apiInstance_zero = \<lparr>ai_Name = '''', ai_Status = '''', ai_Type = '''', ai_Location = '''', ai_Description = '''', ai_Config = None\<rparr>"

definition apiInstance_fields :: "apiInstance fields" where
  "apiInstance_fields =
     [field ''name'' dec_string ai_Name ai_Name_update, field ''status'' dec_string ai_Status ai_Status_update,
      field ''type'' dec_string ai_Type ai_Type_update, field ''location'' dec_string ai_Location ai_Location_update,
      field ''description'' dec_string ai_Description ai_Description_update,
      field ''config'' dec_string_map ai_Config ai_Config_update]"

record apiPartition =
  ap_Size :: "64 word"
  ap_Used :: "64 word"

definition apiPartition_fields :: "apiPartition fields" where
  "apiPartition_fields = [field ''size'' dec_uint64 ap_Size ap_Size_update, field ''used'' dec_uint64 ap_Used ap_Used_update]"

record apiDisk =
  ad_Size :: "64 word"
  ad_Partitions :: "apiPartition list"

definition apiDisk_fields :: "apiDisk fields" where
  "apiDisk_fields =
     [field ''size'' dec_uint64 ad_Size ad_Size_update,
      field ''partitions'' (dec_list (dec_struct apiPartition_fields) \<lparr>ap_Size = 0, ap_Used = 0\<rparr>) ad_Partitions ad_Partitions_update]"

text \<open>The nested anonymous structs of \<open>apiResources\<close> are flattened; each keeps its own level of JSON.\<close>

record apiResources =
  ars_CPU_Total :: "64 word"
  ars_Memory_Total :: "64 word"
  ars_Memory_Used :: "64 word"
  ars_Storage_Disks :: "apiDisk list"

definition apiResources_zero :: apiResources where
  "apiResources_zero = \<lparr>ars_CPU_Total = 0, ars_Memory_Total = 0, ars_Memory_Used = 0, ars_Storage_Disks = []\<rparr>"

definition apiResources_fields :: "apiResources fields" where
  "apiResources_fields =
     [(''cpu'', dec_struct [field ''total'' dec_uint64 ars_CPU_Total ars_CPU_Total_update]),
      (''memory'', dec_struct [field ''total'' dec_uint64 ars_Memory_Total ars_Memory_Total_update,
                               field ''used'' dec_uint64 ars_Memory_Used ars_Memory_Used_update]),
      (''storage'', dec_struct [field ''disks'' (dec_list (dec_struct apiDisk_fields) \<lparr>ad_Size = 0, ad_Partitions = []\<rparr>)
                                  ars_Storage_Disks ars_Storage_Disks_update])]"

record apiOperation =
  aop_ID :: string
  aop_Status :: string
  aop_StatusCode :: int64
  aop_Err :: string

definition apiOperation_zero :: apiOperation where
  "apiOperation_zero = \<lparr>aop_ID = '''', aop_Status = '''', aop_StatusCode = 0, aop_Err = ''''\<rparr>"

definition apiOperation_fields :: "apiOperation fields" where
  "apiOperation_fields =
     [field ''id'' dec_string aop_ID aop_ID_update, field ''status'' dec_string aop_Status aop_Status_update,
      field ''status_code'' dec_int aop_StatusCode aop_StatusCode_update, field ''err'' dec_string aop_Err aop_Err_update]"

record apiClusterStatus =
  acs_Enabled :: bool
  acs_ServerName :: string
  acs_ClusterAddress :: string

definition apiClusterStatus_zero :: apiClusterStatus where
  "apiClusterStatus_zero = \<lparr>acs_Enabled = False, acs_ServerName = '''', acs_ClusterAddress = ''''\<rparr>"

definition apiClusterStatus_fields :: "apiClusterStatus fields" where
  "apiClusterStatus_fields =
     [field ''enabled'' dec_bool acs_Enabled acs_Enabled_update, field ''server_name'' dec_string acs_ServerName acs_ServerName_update,
      field ''cluster_address'' dec_string acs_ClusterAddress acs_ClusterAddress_update]"

record apiServerInfo =
  asi_Certificate :: string

definition apiServerInfo_fields :: "apiServerInfo fields" where
  "apiServerInfo_fields = [(''environment'', dec_struct [field ''certificate'' dec_string asi_Certificate asi_Certificate_update])]"

text \<open>The request bodies, as the JSON that \<open>json.Marshal\<close> makes of the structs.\<close>

definition omitempty :: "string \<Rightarrow> string \<Rightarrow> (string \<times> json) list" where
  "omitempty key v = (if v = '''' then [] else [(key, JStr v)])"

record apiMoveRequest =
  mv_Migration :: bool
  mv_Live :: bool
  mv_Target :: string

definition move_json :: "apiMoveRequest \<Rightarrow> json" where
  "move_json m = JObj ([(''migration'', JBool (mv_Migration m)), (''live'', JBool (mv_Live m))] @ omitempty ''target'' (mv_Target m))"

record apiClusterMemberConfig =
  mc_Entity :: string
  mc_Name :: string
  mc_Key :: string
  mc_Value :: string
  mc_Description :: string

definition member_config_json :: "apiClusterMemberConfig \<Rightarrow> json" where
  "member_config_json m =
     JObj ([(''entity'', JStr (mc_Entity m)), (''name'', JStr (mc_Name m)), (''key'', JStr (mc_Key m)), (''value'', JStr (mc_Value m))]
           @ omitempty ''description'' (mc_Description m))"

record apiClusterPut =
  cp_ServerName :: string
  cp_Enabled :: bool
  cp_ClusterAddress :: string
  cp_ClusterCertificate :: string
  cp_ClusterPassword :: string
  cp_MemberConfig :: "apiClusterMemberConfig list"

definition cluster_put_json :: "apiClusterPut \<Rightarrow> json" where
  "cluster_put_json p =
     JObj ([(''server_name'', JStr (cp_ServerName p)), (''enabled'', JBool (cp_Enabled p))]
           @ omitempty ''cluster_address'' (cp_ClusterAddress p) @ omitempty ''cluster_certificate'' (cp_ClusterCertificate p)
           @ omitempty ''cluster_password'' (cp_ClusterPassword p)
           @ [(''member_config'', JArr (map member_config_json (cp_MemberConfig p)))])"

subsection \<open>Client construction\<close>

text \<open>The parts of \<open>tls.Config\<close>, \<open>http.Transport\<close> and \<open>http.Client\<close> that the options touch; certificates and pools
  are what the PEM parsers return.\<close>

record tls_config =
  tc_InsecureSkipVerify :: bool
  tc_Certificates :: "string list"
  tc_RootCAs :: "string option"

definition tls_zero :: tls_config where
  "tls_zero = \<lparr>tc_InsecureSkipVerify = False, tc_Certificates = [], tc_RootCAs = None\<rparr>"

text \<open>\<open>Client.Transport\<close>: nil, a \<open>*http.Transport\<close> with its TLS configuration or nil, or another round tripper.\<close>

datatype transport = NilTransport | Transport "tls_config option" | CustomTransport string

record http_client =
  hc_Transport :: transport
  hc_Timeout :: nat

record lxdClient =
  lc_endpoint :: string
  lc_httpClient :: http_client

record lxd_request =
  lr_Method :: string
  lr_URL :: string
  lr_Body :: "json option"

record lxd_response =
  lp_StatusCode :: int
  lp_Body :: "string + json option"

record 'w http_outside =
  ho_NewRequest :: "string \<Rightarrow> string \<Rightarrow> bool"
  ho_Do :: "http_client \<Rightarrow> lxd_request \<Rightarrow> 'w \<Rightarrow> lxd_response option \<times> 'w"
  ho_X509KeyPair :: "string \<Rightarrow> string \<Rightarrow> string res"
  ho_AppendCertsFromPEM :: "string \<Rightarrow> string option"

definition cloneTransport :: "http_client \<Rightarrow> tls_config option" where
  "cloneTransport client = (case hc_Transport client of Transport t \<Rightarrow> t | _ \<Rightarrow> None)"

definition with_tls :: "(tls_config \<Rightarrow> tls_config) \<Rightarrow> lxdClient \<Rightarrow> lxdClient" where
  "with_tls f c =
     (let t = (case cloneTransport (lc_httpClient c) of None \<Rightarrow> tls_zero | Some t \<Rightarrow> t)
      in c\<lparr>lc_httpClient := \<lparr>hc_Transport = Transport (Some (f t)), hc_Timeout = hc_Timeout (lc_httpClient c)\<rparr>\<rparr>)"

type_synonym client_option = "lxdClient \<Rightarrow> lxdClient res"

definition WithInsecureSkipVerify :: client_option where
  "WithInsecureSkipVerify c = Inr (with_tls (\<lambda>t. t\<lparr>tc_InsecureSkipVerify := True\<rparr>) c)"

definition WithClientCertificate :: "'w http_outside \<Rightarrow> string \<Rightarrow> string \<Rightarrow> client_option" where
  "WithClientCertificate ho certPEM keyPEM c =
     (case ho_X509KeyPair ho certPEM keyPEM of
        Inl err \<Rightarrow> Inl (Wrapf ''lxd: parse client certificate: %w'' [] err)
      | Inr cert \<Rightarrow> Inr (with_tls (\<lambda>t. t\<lparr>tc_Certificates := tc_Certificates t @ [cert]\<rparr>) c))"

definition WithServerCA :: "'w http_outside \<Rightarrow> string \<Rightarrow> client_option" where
  "WithServerCA ho caPEM c =
     (case ho_AppendCertsFromPEM ho caPEM of
        None \<Rightarrow> Inl (Errorf ''lxd: parse CA certificate: no valid certificates found in PEM'' [])
      | Some pool \<Rightarrow> Inr (with_tls (\<lambda>t. t\<lparr>tc_RootCAs := Some pool\<rparr>) c))"

definition WithHTTPClient :: "http_client \<Rightarrow> client_option" where
  "WithHTTPClient client c = Inr (c\<lparr>lc_httpClient := client\<rparr>)"

fun apply_options :: "client_option list \<Rightarrow> lxdClient \<Rightarrow> lxdClient res" where
  "apply_options [] c = Inr c"
| "apply_options (opt # opts) c = (case opt c of Inl err \<Rightarrow> Inl err | Inr c' \<Rightarrow> apply_options opts c')"

text \<open>\<open>strings.TrimRight(s, "/")\<close>, and seconds as nanoseconds.\<close>

definition trim_slashes :: "string \<Rightarrow> string" where
  "trim_slashes s = rev (dropWhile (\<lambda>c. c = CHR ''/'') (rev s))"

definition New_client :: "string \<Rightarrow> client_option list \<Rightarrow> lxdClient res" where
  "New_client endpoint opts =
     (if endpoint = '''' then Inl (Errors_New ''lxd: endpoint must not be empty'')
      else apply_options opts
        \<lparr>lc_endpoint = trim_slashes endpoint, lc_httpClient = \<lparr>hc_Transport = NilTransport, hc_Timeout = 30 * 10 ^ 9\<rparr>\<rparr>)"

subsection \<open>HTTP helpers\<close>

definition unreachable :: "string \<Rightarrow> go_error" where
  "unreachable fmt = Wrapf fmt [] (Sentinel (LxdErr ErrUnreachable))"

text \<open>\<open>http.NewRequestWithContext\<close> and \<open>httpClient.Do\<close>, the start of \<open>getJSON\<close> and \<open>writeJSON\<close>.\<close>

definition do_request ::
    "'w http_outside \<Rightarrow> lxdClient \<Rightarrow> string \<Rightarrow> string \<Rightarrow> json option \<Rightarrow> 'w \<Rightarrow> lxd_response res \<times> 'w" where
  "do_request ho c meth path body w =
     (let url = lc_endpoint c @ path
      in if \<not> ho_NewRequest ho meth url then (Inl (unreachable ''%w: build request: %s''), w)
         else case ho_Do ho (lc_httpClient c) \<lparr>lr_Method = meth, lr_URL = url, lr_Body = body\<rparr> w of
                (None, w1) \<Rightarrow> (Inl (unreachable ''%w: %s''), w1)
              | (Some resp, w1) \<Rightarrow> (Inr resp, w1))"

definition checkAPIError :: "apiResponse \<Rightarrow> int \<Rightarrow> go_error option" where
  "checkAPIError env httpStatus =
     (if ar_ErrorCode env \<noteq> 0 \<or> (httpStatus \<ge> 400 \<and> ar_Error env \<noteq> '''')
      then Some
        (if ar_ErrorCode env = 404 \<or> httpStatus = 404
         then Wrapf ''%w: %s'' [ar_Error env] (Sentinel (LxdErr ErrNodeNotFound))
         else if httpStatus = 0 then Wrapf ''%w: %s'' [ar_Error env] (Sentinel (LxdErr ErrUnreachable))
         else Errorf ''lxd: API error %d: %s'' [FormatInt (ar_ErrorCode env), ar_Error env])
      else if httpStatus \<ge> 400 then Some (Errorf ''lxd: HTTP %d'' [FormatInt (word_of_int httpStatus)])
      else None)"

text \<open>The body read, decoded into the envelope and checked, as \<open>decodeSync\<close> and \<open>writeJSON\<close> do.\<close>

definition read_envelope :: "lxd_response \<Rightarrow> apiResponse res" where
  "read_envelope resp =
     (case lp_Body resp of
        Inl msg \<Rightarrow> Inl (Wrapf ''lxd: read response body: %w'' [] (Errors_New msg))
      | Inr None \<Rightarrow> Inl (Wrapf ''lxd: decode response envelope: %w'' [] (Errors_New ''invalid character''))
      | Inr (Some raw) \<Rightarrow>
          (case dec_struct apiResponse_fields raw apiResponse_zero of
             Inl err \<Rightarrow> Inl (Wrapf ''lxd: decode response envelope: %w'' [] err)
           | Inr envelope \<Rightarrow>
               (case checkAPIError envelope (lp_StatusCode resp) of
                  Some err \<Rightarrow> Inl err
                | None \<Rightarrow> Inr envelope)))"

definition decodeSync :: "'a decoder \<Rightarrow> 'a \<Rightarrow> lxd_response \<Rightarrow> 'a res" where
  "decodeSync dec out resp =
     (case read_envelope resp of
        Inl err \<Rightarrow> Inl err
      | Inr envelope \<Rightarrow>
          (case ar_Metadata envelope of
             None \<Rightarrow> Inl (Wrapf ''lxd: decode response metadata: %w'' [] (Errors_New ''unexpected end of JSON input''))
           | Some j \<Rightarrow>
               (case dec j out of
                  Inl err \<Rightarrow> Inl (Wrapf ''lxd: decode response metadata: %w'' [] err)
                | Inr x \<Rightarrow> Inr x)))"

definition getJSON :: "'w http_outside \<Rightarrow> lxdClient \<Rightarrow> string \<Rightarrow> 'a decoder \<Rightarrow> 'a \<Rightarrow> 'w \<Rightarrow> 'a res \<times> 'w" where
  "getJSON ho c path dec out w =
     (case do_request ho c ''GET'' path None w of
        (Inl err, w1) \<Rightarrow> (Inl err, w1)
      | (Inr resp, w1) \<Rightarrow> (decodeSync dec out resp, w1))"

definition client_writeJSON :: "'w http_outside \<Rightarrow> lxdClient \<Rightarrow> string \<Rightarrow> string \<Rightarrow> json \<Rightarrow> 'w \<Rightarrow> string res \<times> 'w" where
  "client_writeJSON ho c meth path body w =
     (case do_request ho c meth path (Some body) w of
        (Inl err, w1) \<Rightarrow> (Inl err, w1)
      | (Inr resp, w1) \<Rightarrow>
          (case read_envelope resp of
             Inl err \<Rightarrow> Inl err
           | Inr envelope \<Rightarrow> Inr (if ar_Type envelope = ''async'' then ar_Operation envelope else ''''), w1))"

definition postJSON :: "'w http_outside \<Rightarrow> lxdClient \<Rightarrow> string \<Rightarrow> json \<Rightarrow> 'w \<Rightarrow> string res \<times> 'w" where
  "postJSON ho c = client_writeJSON ho c ''POST''"

definition putJSON :: "'w http_outside \<Rightarrow> lxdClient \<Rightarrow> string \<Rightarrow> json \<Rightarrow> 'w \<Rightarrow> string res \<times> 'w" where
  "putJSON ho c = client_writeJSON ho c ''PUT''"

definition wait_path :: "string \<Rightarrow> string" where
  "wait_path operationPath =
     ''/'' @ (if operationPath \<noteq> '''' \<and> hd operationPath = CHR ''/'' then tl operationPath else operationPath) @ ''/wait''"

definition waitOperation :: "'w http_outside \<Rightarrow> lxdClient \<Rightarrow> string \<Rightarrow> 'w \<Rightarrow> go_error option \<times> 'w" where
  "waitOperation ho c operationPath w =
     (if operationPath = '''' then (None, w)
      else
        (case getJSON ho c (wait_path operationPath) (dec_struct apiOperation_fields) apiOperation_zero w of
           (Inl err, w1) \<Rightarrow> (Some (Wrapf ''wait for operation: %w'' [] err), w1)
         | (Inr op, w1) \<Rightarrow>
             (if sint (aop_StatusCode op) \<ge> 400 \<or> aop_Err op \<noteq> ''''
              then Some (Wrapf ''%w: %s'' [if aop_Err op = '''' then aop_Status op else aop_Err op] (Sentinel (LxdErr ErrMigrationFailed)))
              else None, w1)))"

subsection \<open>Mapping helpers\<close>

definition memberToNodeInfo :: "apiMember \<Rightarrow> NodeInfo" where
  "memberToNodeInfo m =
     \<lparr>ni_Name = am_ServerName m, ni_URL = am_URL m, ni_Status = am_Status m, ni_Message = am_Message m,
      ni_Architecture = am_Architecture m, ni_Description = am_Description m, ni_Roles = am_Roles m\<rparr>"

definition instanceToInfo :: "apiInstance \<Rightarrow> InstanceInfo" where
  "instanceToInfo i =
     \<lparr>ii_Name = ai_Name i, ii_Status = ai_Status i, ii_InstanceType = ai_Type i, ii_Location = ai_Location i,
      ii_Description = ai_Description i, ii_Config = ai_Config i\<rparr>"

fun sum_used :: "apiPartition list \<Rightarrow> 64 word \<Rightarrow> 64 word" where
  "sum_used [] used = used"
| "sum_used (p # ps) used = sum_used ps (used + ap_Used p)"

fun sum_disks :: "apiDisk list \<Rightarrow> 64 word \<Rightarrow> 64 word \<Rightarrow> 64 word \<times> 64 word" where
  "sum_disks [] dtotal used = (dtotal, used)"
| "sum_disks (d # ds) dtotal used = sum_disks ds (dtotal + ad_Size d) (sum_used (ad_Partitions d) used)"

definition resourcesToNodeResources :: "apiResources \<Rightarrow> NodeResources" where
  "resourcesToNodeResources r =
     (case sum_disks (ars_Storage_Disks r) 0 0 of
        (diskTotal, diskUsed) \<Rightarrow>
          \<lparr>nr_CPU = \<lparr>CPU_Total = ars_CPU_Total r\<rparr>,
           nr_Memory = \<lparr>Memory_Total = ars_Memory_Total r, Memory_Used = ars_Memory_Used r\<rparr>,
           nr_Disk = \<lparr>Disk_Total = diskTotal, Disk_Used = diskUsed\<rparr>\<rparr>)"

subsection \<open>Operations\<close>

text \<open>The result of a \<open>getJSON\<close>, its error wrapped and its value mapped.\<close>

definition map_result :: "(go_error \<Rightarrow> go_error) \<Rightarrow> ('a \<Rightarrow> 'b) \<Rightarrow> 'a res \<times> 'w \<Rightarrow> 'b res \<times> 'w" where
  "map_result wrap f p = (case p of (Inl err, w) \<Rightarrow> (Inl (wrap err), w) | (Inr x, w) \<Rightarrow> (Inr (f x), w))"

definition lxdClient_GetClusterMembers :: "'w http_outside \<Rightarrow> lxdClient \<Rightarrow> 'w \<Rightarrow> NodeInfo list res \<times> 'w" where
  "lxdClient_GetClusterMembers ho c w =
     map_result (Wrapf ''lxd: get cluster members: %w'' []) (map memberToNodeInfo)
       (getJSON ho c ''/1.0/cluster/members?recursion=1'' (dec_list (dec_struct apiMember_fields) apiMember_zero) [] w)"

definition lxdClient_GetClusterMember :: "'w http_outside \<Rightarrow> lxdClient \<Rightarrow> string \<Rightarrow> 'w \<Rightarrow> NodeInfo res \<times> 'w" where
  "lxdClient_GetClusterMember ho c name w =
     (if name = '''' then (Inl (Errorf ''lxd: get cluster member: name must not be empty'' []), w)
      else map_result (Wrapf ''lxd: get cluster member %q: %w'' [name]) memberToNodeInfo
             (getJSON ho c (''/1.0/cluster/members/'' @ PathEscape name) (dec_struct apiMember_fields) apiMember_zero w))"

definition lxdClient_GetNodeResources :: "'w http_outside \<Rightarrow> lxdClient \<Rightarrow> string \<Rightarrow> 'w \<Rightarrow> NodeResources res \<times> 'w" where
  "lxdClient_GetNodeResources ho c nodeName w =
     (if nodeName = '''' then (Inl (Errorf ''lxd: get node resources: nodeName must not be empty'' []), w)
      else map_result (Wrapf ''lxd: get node resources for %q: %w'' [nodeName]) resourcesToNodeResources
             (getJSON ho c (''/1.0/resources?target='' @ QueryEscape nodeName) (dec_struct apiResources_fields) apiResources_zero w))"

definition lxdClient_ListInstances :: "'w http_outside \<Rightarrow> lxdClient \<Rightarrow> 'w \<Rightarrow> InstanceInfo list res \<times> 'w" where
  "lxdClient_ListInstances ho c w =
     map_result (Wrapf ''lxd: list instances: %w'' []) (map instanceToInfo)
       (getJSON ho c ''/1.0/instances?recursion=1'' (dec_list (dec_struct apiInstance_fields) apiInstance_zero) [] w)"

definition lxdClient_GetInstance :: "'w http_outside \<Rightarrow> lxdClient \<Rightarrow> string \<Rightarrow> 'w \<Rightarrow> InstanceInfo res \<times> 'w" where
  "lxdClient_GetInstance ho c name w =
     (if name = '''' then (Inl (Errorf ''lxd: get instance: name must not be empty'' []), w)
      else map_result (Wrapf ''lxd: get instance %q: %w'' [name]) instanceToInfo
             (getJSON ho c (''/1.0/instances/'' @ PathEscape name) (dec_struct apiInstance_fields) apiInstance_zero w))"

text \<open>A write followed by the wait, both errors wrapped the same way: the end of the three changing operations.\<close>

definition write_and_wait ::
    "'w http_outside \<Rightarrow> lxdClient \<Rightarrow> (go_error \<Rightarrow> go_error) \<Rightarrow> string res \<times> 'w \<Rightarrow> go_error option \<times> 'w" where
  "write_and_wait ho c wrap p =
     (case p of
        (Inl err, w1) \<Rightarrow> (Some (wrap err), w1)
      | (Inr operationPath, w1) \<Rightarrow>
          (case waitOperation ho c operationPath w1 of
             (Some err, w2) \<Rightarrow> (Some (wrap err), w2)
           | (None, w2) \<Rightarrow> (None, w2)))"

definition move_path :: "string \<Rightarrow> string \<Rightarrow> string" where
  "move_path instanceName targetNode = ''/1.0/instances/'' @ PathEscape instanceName @ ''?target='' @ QueryEscape targetNode"

definition move_body :: "string \<Rightarrow> json" where
  "move_body targetNode = move_json \<lparr>mv_Migration = True, mv_Live = True, mv_Target = targetNode\<rparr>"

definition lxdClient_MoveInstance :: "'w http_outside \<Rightarrow> lxdClient \<Rightarrow> string \<Rightarrow> string \<Rightarrow> 'w \<Rightarrow> go_error option \<times> 'w" where
  "lxdClient_MoveInstance ho c instanceName targetNode w =
     (if instanceName = '''' then (Some (Errorf ''lxd: move instance: instanceName must not be empty'' []), w)
      else if targetNode = '''' then (Some (Errorf ''lxd: move instance: targetNode must not be empty'' []), w)
      else write_and_wait ho c (Wrapf ''lxd: move instance %q to %q: %w'' [instanceName, targetNode])
             (postJSON ho c (move_path instanceName targetNode) (move_body targetNode) w))"

definition lxdClient_GetClusterStatus :: "'w http_outside \<Rightarrow> lxdClient \<Rightarrow> 'w \<Rightarrow> ClusterStatus res \<times> 'w" where
  "lxdClient_GetClusterStatus ho c w =
     map_result (Wrapf ''lxd: get cluster status: %w'' [])
       (\<lambda>s. \<lparr>cs_Enabled = acs_Enabled s, cs_ServerName = acs_ServerName s, cs_ClusterAddress = acs_ClusterAddress s\<rparr>)
       (getJSON ho c ''/1.0/cluster'' (dec_struct apiClusterStatus_fields) apiClusterStatus_zero w)"

definition lxdClient_GetClusterCertificate :: "'w http_outside \<Rightarrow> lxdClient \<Rightarrow> 'w \<Rightarrow> string res \<times> 'w" where
  "lxdClient_GetClusterCertificate ho c w =
     (case getJSON ho c ''/1.0'' (dec_struct apiServerInfo_fields) \<lparr>asi_Certificate = ''''\<rparr> w of
        (Inl err, w1) \<Rightarrow> (Inl (Wrapf ''lxd: get cluster certificate: %w'' [] err), w1)
      | (Inr info, w1) \<Rightarrow>
          (if asi_Certificate info = ''''
           then Inl (Errorf ''lxd: get cluster certificate: server returned empty certificate'' [])
           else Inr (asi_Certificate info), w1))"

definition pool_config :: "StoragePoolConfig \<Rightarrow> apiClusterMemberConfig" where
  "pool_config p = \<lparr>mc_Entity = ''storage-pool'', mc_Name = sp_Name p, mc_Key = ''driver'', mc_Value = sp_Driver p, mc_Description = ''''\<rparr>"

definition init_body :: "ClusterInitConfig \<Rightarrow> json" where
  "init_body cfg = cluster_put_json
     \<lparr>cp_ServerName = ic_ServerName cfg, cp_Enabled = True, cp_ClusterAddress = '''', cp_ClusterCertificate = '''',
      cp_ClusterPassword = '''', cp_MemberConfig = [pool_config (ic_StoragePool cfg)]\<rparr>"

definition lxdClient_InitCluster :: "'w http_outside \<Rightarrow> lxdClient \<Rightarrow> ClusterInitConfig \<Rightarrow> 'w \<Rightarrow> go_error option \<times> 'w" where
  "lxdClient_InitCluster ho c cfg w =
     (if ic_ServerName cfg = '''' then (Some (Errorf ''lxd: init cluster: ServerName must not be empty'' []), w)
      else if ic_ListenAddress cfg = '''' then (Some (Errorf ''lxd: init cluster: ListenAddress must not be empty'' []), w)
      else if sp_Name (ic_StoragePool cfg) = '''' then (Some (Errorf ''lxd: init cluster: StoragePool.Name must not be empty'' []), w)
      else if sp_Driver (ic_StoragePool cfg) = '''' then (Some (Errorf ''lxd: init cluster: StoragePool.Driver must not be empty'' []), w)
      else write_and_wait ho c (Wrapf ''lxd: init cluster on %q: %w'' [ic_ServerName cfg])
             (putJSON ho c ''/1.0/cluster'' (init_body cfg) w))"

definition join_body :: "ClusterJoinConfig \<Rightarrow> json" where
  "join_body cfg = cluster_put_json
     \<lparr>cp_ServerName = jc_ServerName cfg, cp_Enabled = True, cp_ClusterAddress = jc_ClusterAddress cfg,
      cp_ClusterCertificate = jc_ClusterCertificate cfg, cp_ClusterPassword = jc_TrustToken cfg,
      cp_MemberConfig = (if sp_Name (jc_StoragePool cfg) \<noteq> '''' \<and> sp_Driver (jc_StoragePool cfg) \<noteq> ''''
                         then [pool_config (jc_StoragePool cfg)] else [])\<rparr>"

definition lxdClient_JoinCluster :: "'w http_outside \<Rightarrow> lxdClient \<Rightarrow> ClusterJoinConfig \<Rightarrow> 'w \<Rightarrow> go_error option \<times> 'w" where
  "lxdClient_JoinCluster ho c cfg w =
     (if jc_ServerName cfg = '''' then (Some (Errorf ''lxd: join cluster: ServerName must not be empty'' []), w)
      else if jc_ClusterAddress cfg = '''' then (Some (Errorf ''lxd: join cluster: ClusterAddress must not be empty'' []), w)
      else if jc_ClusterCertificate cfg = '''' then (Some (Errorf ''lxd: join cluster: ClusterCertificate must not be empty'' []), w)
      else if jc_TrustToken cfg = '''' then (Some (Errorf ''lxd: join cluster: TrustToken must not be empty'' []), w)
      else write_and_wait ho c (Wrapf ''lxd: join cluster for %q: %w'' [jc_ServerName cfg])
             (putJSON ho c ''/1.0/cluster'' (join_body cfg) w))"

definition http_lxd_client :: "'w http_outside \<Rightarrow> lxdClient \<Rightarrow> 'w lxd_client" where
  "http_lxd_client ho c =
     \<lparr>Client_GetClusterMembers = lxdClient_GetClusterMembers ho c, Client_GetClusterMember = lxdClient_GetClusterMember ho c,
      Client_GetNodeResources = lxdClient_GetNodeResources ho c, Client_ListInstances = lxdClient_ListInstances ho c,
      Client_GetInstance = lxdClient_GetInstance ho c, Client_MoveInstance = lxdClient_MoveInstance ho c,
      Client_GetClusterStatus = lxdClient_GetClusterStatus ho c, Client_GetClusterCertificate = lxdClient_GetClusterCertificate ho c,
      Client_InitCluster = lxdClient_InitCluster ho c, Client_JoinCluster = lxdClient_JoinCluster ho c\<rparr>"

end
