(* ===== verification/Lxd_Rest.thy ===== *)
theory Lxd_Rest
  imports Lxd_Http Lxd_Fake
begin

section \<open>What the HTTP client guarantees\<close>

text \<open>
  The errors it returns, the requests it sends, and what it makes of a server that answers as the LXD REST API
  does: a \<open>sync\<close> envelope with the value in \<open>metadata\<close>.
\<close>

subsection \<open>Sentinels\<close>

lemma checkAPIError_sentinel:
  "checkAPIError env st = Some e \<Longrightarrow> errors_is e (LxdErr s) \<Longrightarrow> s \<in> {ErrNodeNotFound, ErrUnreachable}"
  by (auto simp: checkAPIError_def split: if_splits)

text \<open>The decoders' own errors carry no sentinel.\<close>

definition plain :: "'a decoder \<Rightarrow> bool" where
  "plain dec \<longleftrightarrow> (\<forall>j x e s. dec j x = Inl e \<longrightarrow> \<not> errors_is e s)"

lemma ParseInt_plain: "ParseInt t = Inl e \<Longrightarrow> \<not> errors_is e s"
  by (auto simp: ParseInt_def Let_def split: if_splits option.splits)

lemma ParseUint_plain: "ParseUint t = Inl e \<Longrightarrow> \<not> errors_is e s"
  by (auto simp: ParseUint_def split: if_splits option.splits)

lemma plain_basic:
  "plain dec_string" "plain dec_bool" "plain dec_int" "plain dec_uint64" "plain dec_raw"
  by (auto simp: plain_def dec_string_def dec_bool_def dec_int_def dec_uint64_def dec_raw_def type_mismatch_def
        split: json.splits dest: ParseInt_plain ParseUint_plain)

lemma plain_list: "plain dec \<Longrightarrow> plain (dec_list dec zero)"
proof -
  assume p: "plain dec"
  have "\<not> errors_is e s" if "dec_elems dec zero js = Inl e" for js e s
    using that p by (induction js) (auto simp: plain_def split: sum.splits)
  then show ?thesis by (auto simp: plain_def dec_list_def type_mismatch_def split: json.splits)
qed

lemma plain_string_map: "plain dec_string_map"
proof -
  have "\<not> errors_is e s" if "dec_entries kvs m = Inl e" for kvs m e s
    using that plain_basic(1) by (induction kvs m rule: dec_entries.induct) (auto simp: plain_def split: sum.splits)
  then show ?thesis by (auto simp: plain_def dec_string_map_def type_mismatch_def split: json.splits sum.splits option.splits)
qed

lemma plain_struct: "list_all (\<lambda>p. plain (snd p)) fs \<Longrightarrow> plain (dec_struct fs)"
proof -
  assume "list_all (\<lambda>p. plain (snd p)) fs"
  then have p: "plain d" if "d \<in> snd ` set fs" for d using that by (auto simp: list_all_iff)
  have f: False if "find_field fs k = Some d" "d j r = Inl e" "errors_is e s" for k d j r e s
  proof -
    from that(1) have "d \<in> snd ` set fs" by (force simp: find_field_def split: option.splits dest!: map_of_SomeD)
    with that p show ?thesis by (auto simp: plain_def)
  qed
  have "\<not> errors_is e s" if "dec_members fs kvs r = Inl e" for kvs r e s
    using that
  proof (induction kvs arbitrary: r)
    case (Cons kv kvs)
    then show ?case by (cases kv) (auto split: sum.splits option.splits intro: f)
  qed simp
  then show ?thesis by (auto simp: plain_def dec_struct_def type_mismatch_def split: json.splits)
qed

lemma plain_field: "plain dec \<Longrightarrow> plain (snd (field name dec get upd))"
  by (auto simp: plain_def field_def split: sum.splits)

lemmas plain_intros = plain_basic plain_list plain_string_map plain_field

lemma plain_wire:
  "plain (dec_struct apiResponse_fields)" "plain (dec_struct apiMember_fields)" "plain (dec_struct apiInstance_fields)"
  "plain (dec_struct apiOperation_fields)" "plain (dec_struct apiClusterStatus_fields)"
  by (intro plain_struct; simp add: apiResponse_fields_def apiMember_fields_def apiInstance_fields_def
        apiOperation_fields_def apiClusterStatus_fields_def plain_intros)+

lemma plain_resources: "plain (dec_struct apiResources_fields)"
  by (intro plain_struct) (simp add: apiResources_fields_def apiDisk_fields_def apiPartition_fields_def plain_intros plain_struct)

definition lxd_sentinels :: "go_error \<Rightarrow> lxd_error set" where
  "lxd_sentinels e = {s. errors_is e (LxdErr s)}"

lemma sentinels_simps [simp]:
  "lxd_sentinels (Wrapf fmt as e) = lxd_sentinels e" "lxd_sentinels (Errorf fmt as) = {}" "lxd_sentinels (Errors_New m) = {}"
  "lxd_sentinels (Sentinel (LxdErr s)) = {s}" "lxd_sentinels (unreachable fmt) = {ErrUnreachable}"
  by (auto simp: lxd_sentinels_def unreachable_def)

lemma plain_sentinels: "plain dec \<Longrightarrow> dec j x = Inl e \<Longrightarrow> lxd_sentinels e = {}"
  by (auto simp: plain_def lxd_sentinels_def)

lemma read_envelope_sentinels: "read_envelope resp = Inl e \<Longrightarrow> lxd_sentinels e \<subseteq> {ErrNodeNotFound, ErrUnreachable}"
  using checkAPIError_sentinel plain_sentinels [OF plain_wire(1)]
  by (fastforce simp: read_envelope_def lxd_sentinels_def split: sum.splits option.splits)

lemma do_request_sentinels: "do_request ho c meth path b w = (Inl e, w1) \<Longrightarrow> lxd_sentinels e \<subseteq> {ErrUnreachable}"
  by (auto simp: do_request_def Let_def split: if_splits prod.splits option.splits)

lemma getJSON_sentinels:
  assumes "plain dec" and "getJSON ho c path dec out w = (Inl e, w1)"
  shows "lxd_sentinels e \<subseteq> {ErrNodeNotFound, ErrUnreachable}"
proof -
  have "lxd_sentinels e \<subseteq> {ErrNodeNotFound, ErrUnreachable}" if "decodeSync dec out resp = Inl e" for resp
    using that read_envelope_sentinels plain_sentinels [OF assms(1)]
    by (fastforce simp: decodeSync_def split: sum.splits option.splits)
  with assms(2) do_request_sentinels show ?thesis
    by (fastforce simp: getJSON_def split: prod.splits sum.splits)
qed

lemma map_result_sentinels:
  assumes "plain dec" and "map_result wrap f (getJSON ho c path dec out w) = (Inl e, w1)" and "\<And>e. lxd_sentinels (wrap e) = lxd_sentinels e"
  shows "lxd_sentinels e \<subseteq> {ErrNodeNotFound, ErrUnreachable}"
proof -
  from assms(2) obtain e0 where "getJSON ho c path dec out w = (Inl e0, w1)" "e = wrap e0"
    by (auto simp: map_result_def split: prod.splits sum.splits)
  with getJSON_sentinels [OF assms(1)] assms(3) show ?thesis by simp
qed

lemma client_writeJSON_sentinels:
  "client_writeJSON ho c meth path b w = (Inl e, w1) \<Longrightarrow> lxd_sentinels e \<subseteq> {ErrNodeNotFound, ErrUnreachable}"
  using do_request_sentinels read_envelope_sentinels
  by (fastforce simp: client_writeJSON_def split: prod.splits sum.splits)

lemma waitOperation_sentinels:
  "waitOperation ho c op w = (Some e, w1) \<Longrightarrow> lxd_sentinels e \<subseteq> {ErrNodeNotFound, ErrUnreachable, ErrMigrationFailed}"
  using getJSON_sentinels [OF plain_wire(4)]
  by (fastforce simp: waitOperation_def split: prod.splits sum.splits if_splits)

lemma write_and_wait_sentinels:
  assumes "write_and_wait ho c wrap (client_writeJSON ho c meth path b w) = (Some e, w1)" and "\<And>e. lxd_sentinels (wrap e) = lxd_sentinels e"
  shows "lxd_sentinels e \<subseteq> {ErrNodeNotFound, ErrUnreachable, ErrMigrationFailed}"
  using assms client_writeJSON_sentinels waitOperation_sentinels
  by (fastforce simp: write_and_wait_def split: prod.splits sum.splits option.splits)


subsection \<open>The REST answers\<close>

text \<open>The body of a synchronous answer and of an error, as the LXD API documents them.\<close>

definition sync_body :: "json \<Rightarrow> json" where
  "sync_body m =
     JObj [(''type'', JStr ''sync''), (''status'', JStr ''Success''), (''status_code'', JNum (FormatInt 200)),
       (''operation'', JStr ''''), (''error_code'', JNum (FormatInt 0)), (''error'', JStr ''''), (''metadata'', m)]"

definition error_body :: "int64 \<Rightarrow> string \<Rightarrow> json" where
  "error_body code msg =
     JObj [(''type'', JStr ''error''), (''status'', JStr ''''), (''status_code'', JNum (FormatInt 0)),
       (''operation'', JStr ''''), (''error_code'', JNum (FormatInt code)), (''error'', JStr msg), (''metadata'', JNull)]"

text \<open>The server answers a GET of \<open>path\<close> with the value \<open>m\<close>, or with an error.\<close>

definition answers :: "'w http_outside \<Rightarrow> lxdClient \<Rightarrow> string \<Rightarrow> json \<Rightarrow> 'w \<Rightarrow> 'w \<Rightarrow> bool" where
  "answers ho c path m w w1 \<longleftrightarrow>
     ho_NewRequest ho ''GET'' (lc_endpoint c @ path) \<and>
     ho_Do ho (lc_httpClient c) \<lparr>lr_Method = ''GET'', lr_URL = lc_endpoint c @ path, lr_Body = None\<rparr> w =
       (Some \<lparr>lp_StatusCode = 200, lp_Body = Inr (Some (sync_body m))\<rparr>, w1)"

definition answers_error :: "'w http_outside \<Rightarrow> lxdClient \<Rightarrow> string \<Rightarrow> int64 \<Rightarrow> string \<Rightarrow> 'w \<Rightarrow> 'w \<Rightarrow> bool" where
  "answers_error ho c path code msg w w1 \<longleftrightarrow>
     ho_NewRequest ho ''GET'' (lc_endpoint c @ path) \<and>
     ho_Do ho (lc_httpClient c) \<lparr>lr_Method = ''GET'', lr_URL = lc_endpoint c @ path, lr_Body = None\<rparr> w =
       (Some \<lparr>lp_StatusCode = sint code, lp_Body = Inr (Some (error_body code msg))\<rparr>, w1)"

lemma envelope_sync:
  "read_envelope \<lparr>lp_StatusCode = 200, lp_Body = Inr (Some (sync_body m))\<rparr> =
     Inr \<lparr>ar_Type = ''sync'', ar_Status = ''Success'', ar_StatusCode = 200, ar_Operation = '''', ar_Error = '''',
          ar_ErrorCode = 0, ar_Metadata = Some m\<rparr>"
  by (simp add: read_envelope_def sync_body_def dec_struct_JObj apiResponse_fields_def find_field_def field_def
      apiResponse_zero_def checkAPIError_def)

lemma envelope_error:
  assumes "code \<noteq> 0"
  shows "read_envelope \<lparr>lp_StatusCode = sint code, lp_Body = Inr (Some (error_body code msg))\<rparr> =
     (if code = 404 then Inl (Wrapf ''%w: %s'' [msg] (Sentinel (LxdErr ErrNodeNotFound)))
      else Inl (Errorf ''lxd: API error %d: %s'' [FormatInt code, msg]))"
proof -
  have "sint code = 404 \<longleftrightarrow> code = 404" "sint code \<noteq> 0"
    using assms signed_word_eqI [of code 404] signed_word_eqI [of code 0] by auto
  with assms show ?thesis
    by (simp add: read_envelope_def error_body_def dec_struct_JObj apiResponse_fields_def find_field_def field_def
        apiResponse_zero_def checkAPIError_def)
qed

lemma getJSON_answers:
  "answers ho c path m w w1 \<Longrightarrow> dec m out = Inr x \<Longrightarrow> getJSON ho c path dec out w = (Inr x, w1)"
  by (simp add: getJSON_def do_request_def answers_def decodeSync_def envelope_sync)

lemma getJSON_error:
  "answers_error ho c path code msg w w1 \<Longrightarrow> code \<noteq> 0 \<Longrightarrow> getJSON ho c path dec out w =
     (if code = 404 then Inl (Wrapf ''%w: %s'' [msg] (Sentinel (LxdErr ErrNodeNotFound)))
      else Inl (Errorf ''lxd: API error %d: %s'' [FormatInt code, msg]), w1)"
  by (simp add: getJSON_def do_request_def answers_error_def decodeSync_def envelope_error)

text \<open>The encodings of the values.\<close>

definition member_json :: "NodeInfo \<Rightarrow> json" where
  "member_json n =
     JObj [(''roles'', JArr (map JStr (ni_Roles n))), (''description'', JStr (ni_Description n)), (''server_name'', JStr (ni_Name n)),
       (''url'', JStr (ni_URL n)), (''database'', JBool True), (''status'', JStr (ni_Status n)), (''message'', JStr (ni_Message n)),
       (''architecture'', JStr (ni_Architecture n))]"

definition instance_json :: "InstanceInfo \<Rightarrow> (string \<times> string) list \<Rightarrow> json" where
  "instance_json i kvs =
     JObj [(''name'', JStr (ii_Name i)), (''description'', JStr (ii_Description i)), (''status'', JStr (ii_Status i)),
       (''config'', JObj (map (\<lambda>(k, v). (k, JStr v)) kvs)), (''location'', JStr (ii_Location i)), (''type'', JStr (ii_InstanceType i)),
       (''profiles'', JArr [])]"

definition uint_json :: "64 word \<Rightarrow> json" where
  "uint_json x = JNum (nat_digits (unat x))"

definition disk_json :: "apiDisk \<Rightarrow> json" where
  "disk_json d =
     JObj [(''size'', uint_json (ad_Size d)),
       (''partitions'', JArr (map (\<lambda>p. JObj [(''size'', uint_json (ap_Size p)), (''used'', uint_json (ap_Used p))]) (ad_Partitions d)))]"

definition resources_json :: "apiResources \<Rightarrow> json" where
  "resources_json r =
     JObj [(''cpu'', JObj [(''sockets'', JArr []), (''total'', uint_json (ars_CPU_Total r))]),
       (''memory'', JObj [(''used'', uint_json (ars_Memory_Used r)), (''total'', uint_json (ars_Memory_Total r))]),
       (''storage'', JObj [(''disks'', JArr (map disk_json (ars_Storage_Disks r)))])]"

lemma dec_member: "\<exists>m. dec_struct apiMember_fields (member_json n) apiMember_zero = Inr m \<and> memberToNodeInfo m = n"
proof -
  have "dec_list dec_string '''' (JArr (map JStr rs)) old = Inr rs" for rs old
    using dec_list_map [of rs dec_string JStr "''''" "\<lambda>x. x"] by simp
  then show ?thesis
    by (simp add: member_json_def dec_struct_JObj apiMember_fields_def find_field_def field_def apiMember_zero_def memberToNodeInfo_def
        fold_name_ascii lower_ascii_def ascii_lower_def)
qed

lemma dec_instance:
  assumes "distinct (map fst kvs)" and "ii_Config i = Some (map_of kvs)"
  shows "\<exists>a. dec_struct apiInstance_fields (instance_json i kvs) apiInstance_zero = Inr a \<and> instanceToInfo a = i"
  using assms
  by (simp add: instance_json_def dec_struct_JObj apiInstance_fields_def find_field_def field_def apiInstance_zero_def
      instanceToInfo_def fold_name_ascii lower_ascii_def ascii_lower_def dec_string_map_def dec_entries_strings)

lemma dec_uint_json [simp]: "dec_uint64 (uint_json x) y = Inr x"
  by (simp add: uint_json_def)

lemma dec_disk: "dec_struct apiDisk_fields (disk_json d) \<lparr>ad_Size = 0, ad_Partitions = []\<rparr> = Inr d"
proof -
  have "dec_list (dec_struct apiPartition_fields) \<lparr>ap_Size = 0, ap_Used = 0\<rparr>
      (JArr (map (\<lambda>p. JObj [(''size'', uint_json (ap_Size p)), (''used'', uint_json (ap_Used p))]) ps)) old = Inr ps" for ps old
    by (subst dec_list_map [where f = "\<lambda>p. p"])
      (simp_all add: dec_struct_JObj apiPartition_fields_def find_field_def field_def)
  then show ?thesis by (simp add: disk_json_def dec_struct_JObj apiDisk_fields_def find_field_def field_def)
qed

lemma dec_resources: "dec_struct apiResources_fields (resources_json r) apiResources_zero = Inr r"
proof -
  have "dec_list (dec_struct apiDisk_fields) \<lparr>ad_Size = 0, ad_Partitions = []\<rparr> (JArr (map disk_json ds)) old = Inr ds" for ds old
    by (subst dec_list_map [where f = "\<lambda>d. d"]) (simp_all add: dec_disk)
  then show ?thesis
    by (simp add: resources_json_def dec_struct_JObj apiResources_fields_def find_field_def field_def apiResources_zero_def
        fold_name_ascii lower_ascii_def ascii_lower_def)
qed

lemma dec_all:
  assumes "\<And>x. x \<in> set xs \<Longrightarrow> \<exists>a. dec (enc x) zero = Inr a \<and> f a = x"
  shows "\<exists>as. dec_list dec zero (JArr (map enc xs)) old = Inr as \<and> map f as = xs"
proof -
  from assms obtain g where g: "\<And>x. x \<in> set xs \<Longrightarrow> dec (enc x) zero = Inr (g x) \<and> f (g x) = x" by metis
  with dec_list_map [of xs dec enc zero g old] show ?thesis by (auto simp: map_idI)
qed

subsection \<open>Sums over the disks\<close>

lemma sum_used_sum: "sum_used ps x = x + sum_list (map ap_Used ps)"
  by (induction ps arbitrary: x) (simp_all add: add.assoc)

lemma sum_disks_sum:
  "sum_disks ds t x = (t + sum_list (map ad_Size ds), x + sum_list (map ap_Used (concat (map ad_Partitions ds))))"
  by (induction ds arbitrary: t x) (simp_all add: sum_used_sum add.assoc)

lemma unat_sum_list:
  "(\<Sum>x\<leftarrow>xs. unat x) < 2 ^ 64 \<Longrightarrow> unat (sum_list (xs :: 64 word list)) = (\<Sum>x\<leftarrow>xs. unat x)"
proof (induction xs)
  case (Cons x xs)
  then have "unat (sum_list xs) = (\<Sum>x\<leftarrow>xs. unat x)" "unat x + unat (sum_list xs) < 2 ^ 64" by simp_all
  then show ?case by (simp add: unat_plus_if_size word_size)
qed simp

lemma unat_sum_list_mod: "unat (sum_list (xs :: 64 word list)) = (\<Sum>x\<leftarrow>xs. unat x) mod 2 ^ 64"
  by (induction xs) (simp_all add: unat_word_ariths mod_add_right_eq)

text \<open>The disk capacity and usage of a node are the sums over its disks and partitions, modulo \<open>2 ^ 64\<close>: they
  are exact while the sums fit in 64 bits and wrap around silently beyond.\<close>

theorem disk_totals:
  "unat (Disk_Total (nr_Disk (resourcesToNodeResources r))) = (\<Sum>d\<leftarrow>ars_Storage_Disks r. unat (ad_Size d)) mod 2 ^ 64 \<and>
   unat (Disk_Used (nr_Disk (resourcesToNodeResources r))) =
     (\<Sum>p\<leftarrow>concat (map ad_Partitions (ars_Storage_Disks r)). unat (ap_Used p)) mod 2 ^ 64"
proof -
  have "(\<Sum>x\<leftarrow>map f ys. unat x) = (\<Sum>y\<leftarrow>ys. unat (f y))" for f :: "'y \<Rightarrow> 64 word" and ys
    by (simp add: comp_def)
  then show ?thesis
    unfolding resourcesToNodeResources_def sum_disks_sum by (simp only: unat_sum_list_mod map_map comp_def split_conv NodeResources.select_convs DiskResources.select_convs add_0_left)
qed

subsection \<open>Agreement with the in-memory LXD\<close>

text \<open>
  A server that serves the state of the fake: a GET changes nothing and is answered with the encoded value, or with
  a 404 error for an unknown name. Disks may be split in any way that has the right sums.
\<close>

definition serves_value :: "'w http_outside \<Rightarrow> lxdClient \<Rightarrow> string \<Rightarrow> 'a option \<Rightarrow> ('a \<Rightarrow> json \<Rightarrow> bool) \<Rightarrow> 'w \<Rightarrow> bool" where
  "serves_value ho c path v enc w \<longleftrightarrow>
     (case v of
        None \<Rightarrow> (\<exists>msg. answers_error ho c path 404 msg w w)
      | Some x \<Rightarrow> (\<exists>j. enc x j \<and> answers ho c path j w w))"

definition encodes_instance :: "InstanceInfo \<Rightarrow> json \<Rightarrow> bool" where
  "encodes_instance i j \<longleftrightarrow> (\<exists>kvs. distinct (map fst kvs) \<and> ii_Config i = Some (map_of kvs) \<and> j = instance_json i kvs)"

definition encodes_resources :: "NodeResources \<Rightarrow> json \<Rightarrow> bool" where
  "encodes_resources r j \<longleftrightarrow> (\<exists>ar. resourcesToNodeResources ar = r \<and> j = resources_json ar)"

definition serves :: "'w http_outside \<Rightarrow> lxdClient \<Rightarrow> ('w \<Rightarrow> Fake) \<Rightarrow> bool" where
  "serves ho c lxd \<longleftrightarrow>
     (\<forall>w. answers ho c ''/1.0/cluster/members?recursion=1'' (JArr (map (member_json \<circ> snd) (f_nodes (lxd w)))) w w) \<and>
     (\<forall>w name. serves_value ho c (''/1.0/cluster/members/'' @ PathEscape name) (map_of (f_nodes (lxd w)) name) (\<lambda>n j. j = member_json n) w) \<and>
     (\<forall>w name. serves_value ho c (''/1.0/resources?target='' @ QueryEscape name) (map_of (f_resources (lxd w)) name) encodes_resources w) \<and>
     (\<forall>w. \<exists>js. list_all2 encodes_instance (map snd (f_instances (lxd w))) js \<and> answers ho c ''/1.0/instances?recursion=1'' (JArr js) w w) \<and>
     (\<forall>w name. serves_value ho c (''/1.0/instances/'' @ PathEscape name) (map_of (f_instances (lxd w)) name) encodes_instance w)"

definition same_result :: "'a res \<Rightarrow> 'a res \<Rightarrow> bool" where
  "same_result a b \<longleftrightarrow> map_sum lxd_sentinels id a = map_sum lxd_sentinels id b"

lemma dec_instances:
  "list_all2 encodes_instance is js \<Longrightarrow>
     \<exists>as. dec_list (dec_struct apiInstance_fields) apiInstance_zero (JArr js) old = Inr as \<and> map instanceToInfo as = is"
proof -
  have "\<exists>as. dec_elems (dec_struct apiInstance_fields) apiInstance_zero js = Inr as \<and> map instanceToInfo as = is"
    if "list_all2 encodes_instance is js" for "is" js
    using that
  proof (induction rule: list_all2_induct)
    case (Cons i "is" j js)
    then obtain kvs as where "distinct (map fst kvs)" "ii_Config i = Some (map_of kvs)" "j = instance_json i kvs"
      and as: "dec_elems (dec_struct apiInstance_fields) apiInstance_zero js = Inr as" "map instanceToInfo as = is"
      by (auto simp: encodes_instance_def)
    with dec_instance [of kvs i] obtain a where "dec_struct apiInstance_fields j apiInstance_zero = Inr a" "instanceToInfo a = i"
      by auto
    with as show ?case by auto
  qed simp
  then show "list_all2 encodes_instance is js \<Longrightarrow>
     \<exists>as. dec_list (dec_struct apiInstance_fields) apiInstance_zero (JArr js) old = Inr as \<and> map instanceToInfo as = is"
    by (simp add: dec_list_def)
qed

lemma served:
  assumes "serves_value ho c path v enc w"
    and "\<And>x j. v = Some x \<Longrightarrow> enc x j \<Longrightarrow> \<exists>a. dec j zero = Inr a \<and> f a = x"
  shows "\<exists>e. lxd_sentinels e = {ErrNodeNotFound} \<and>
    map_result (Wrapf fmt as) f (getJSON ho c path dec zero w) = (case v of None \<Rightarrow> Inl e | Some x \<Rightarrow> Inr x, w)"
proof (cases v)
  case None
  with assms(1) obtain msg where "answers_error ho c path 404 msg w w" by (auto simp: serves_value_def)
  from getJSON_error [OF this, of dec zero] None show ?thesis
    by (intro exI [of _ "Wrapf fmt as (Wrapf ''%w: %s'' [msg] (Sentinel (LxdErr ErrNodeNotFound)))"]) (simp add: map_result_def)
next
  case (Some x)
  with assms(1) obtain j where "enc x j" and j: "answers ho c path j w w" by (auto simp: serves_value_def)
  with assms(2) Some obtain a where "dec j zero = Inr a" "f a = x" by blast
  with getJSON_answers [OF j, of dec zero a] Some show ?thesis
    by (intro exI [of _ "Sentinel (LxdErr ErrNodeNotFound)"]) (simp add: map_result_def)
qed

lemma served_instance:
  assumes "serves ho c lxd" and "name \<noteq> ''''"
  shows "\<exists>e. lxd_sentinels e = {ErrNodeNotFound} \<and>
    lxdClient_GetInstance ho c name w = (case map_of (f_instances (lxd w)) name of None \<Rightarrow> Inl e | Some i \<Rightarrow> Inr i, w)"
proof -
  have "serves_value ho c (''/1.0/instances/'' @ PathEscape name) (map_of (f_instances (lxd w)) name) encodes_instance w"
    using assms(1) by (simp add: serves_def)
  from served [OF this, of "dec_struct apiInstance_fields" apiInstance_zero instanceToInfo] dec_instance assms(2) show ?thesis
    by (simp add: lxdClient_GetInstance_def encodes_instance_def) blast
qed

lemma served_member:
  assumes "serves ho c lxd" and "name \<noteq> ''''"
  shows "\<exists>e. lxd_sentinels e = {ErrNodeNotFound} \<and>
    lxdClient_GetClusterMember ho c name w = (case map_of (f_nodes (lxd w)) name of None \<Rightarrow> Inl e | Some n \<Rightarrow> Inr n, w)"
proof -
  have "serves_value ho c (''/1.0/cluster/members/'' @ PathEscape name) (map_of (f_nodes (lxd w)) name) (\<lambda>n j. j = member_json n) w"
    using assms(1) by (simp add: serves_def)
  from served [OF this, of "dec_struct apiMember_fields" apiMember_zero memberToNodeInfo] dec_member assms(2) show ?thesis
    by (simp add: lxdClient_GetClusterMember_def)
qed

lemma served_resources:
  assumes "serves ho c lxd" and "name \<noteq> ''''"
  shows "\<exists>e. lxd_sentinels e = {ErrNodeNotFound} \<and>
    lxdClient_GetNodeResources ho c name w = (case map_of (f_resources (lxd w)) name of None \<Rightarrow> Inl e | Some r \<Rightarrow> Inr r, w)"
proof -
  have "serves_value ho c (''/1.0/resources?target='' @ QueryEscape name) (map_of (f_resources (lxd w)) name) encodes_resources w"
    using assms(1) by (simp add: serves_def)
  from served [OF this, of "dec_struct apiResources_fields" apiResources_zero resourcesToNodeResources] dec_resources assms(2) show ?thesis
    by (simp add: lxdClient_GetNodeResources_def encodes_resources_def) blast
qed

text \<open>C25. Against a server that serves the state of the in-memory LXD, the HTTP client reads what the in-memory LXD
  returns: the same members, instances and resources, and the same sentinel for an unknown member.\<close>

theorem http_agrees_with_fake:
  assumes "serves ho c lxd" and "name \<noteq> ''''"
  shows "lxdClient_GetClusterMembers ho c w = (fst (Fake_GetClusterMembers (lxd w)), w) \<and>
    lxdClient_ListInstances ho c w = (fst (Fake_ListInstances (lxd w)), w) \<and>
    same_result (fst (lxdClient_GetClusterMember ho c name w)) (fst (Fake_GetClusterMember name (lxd w))) \<and>
    same_result (fst (lxdClient_GetNodeResources ho c name w)) (fst (Fake_GetNodeResources name (lxd w)))"
proof -
  let ?ns = "map snd (f_nodes (lxd w))"
  have "answers ho c ''/1.0/cluster/members?recursion=1'' (JArr (map member_json ?ns)) w w"
    using assms(1) by (simp add: serves_def)
  moreover obtain ms where "dec_list (dec_struct apiMember_fields) apiMember_zero (JArr (map member_json ?ns)) [] = Inr ms"
    "map memberToNodeInfo ms = ?ns"
    using dec_all [of ?ns "dec_struct apiMember_fields" member_json apiMember_zero memberToNodeInfo "[]"] dec_member by blast
  ultimately have "lxdClient_GetClusterMembers ho c w = (Inr ?ns, w)"
    by (simp add: lxdClient_GetClusterMembers_def map_result_def getJSON_answers)
  moreover obtain js where "list_all2 encodes_instance (map snd (f_instances (lxd w))) js"
    and "answers ho c ''/1.0/instances?recursion=1'' (JArr js) w w"
    using assms(1) unfolding serves_def by blast
  with dec_instances [of "map snd (f_instances (lxd w))" js "[]"]
  have "lxdClient_ListInstances ho c w = (Inr (map snd (f_instances (lxd w))), w)"
    by (auto simp: lxdClient_ListInstances_def map_result_def getJSON_answers)
  ultimately show ?thesis
    using served_member [OF assms, of w] served_resources [OF assms, of w]
    by (auto simp: same_result_def Fake_GetClusterMembers_def Fake_ListInstances_def Fake_GetClusterMember_def
        Fake_GetNodeResources_def split: option.splits)
qed

text \<open>For an unknown instance the two implementations of the interface disagree: the in-memory LXD reports
  \<open>ErrInstanceNotFound\<close> as the interface says, the HTTP client \<open>ErrNodeNotFound\<close>.\<close>

theorem get_instance_disagrees:
  assumes "serves ho c lxd" and "name \<noteq> ''''" and "map_of (f_instances (lxd w)) name = None"
  shows "\<exists>e e'. lxdClient_GetInstance ho c name w = (Inl e, w) \<and> Fake_GetInstance name (lxd w) = (Inl e', lxd w) \<and>
    lxd_sentinels e = {ErrNodeNotFound} \<and> lxd_sentinels e' = {ErrInstanceNotFound}"
  using served_instance [OF assms(1,2), of w] assms(3) by (auto simp: Fake_GetInstance_def)

subsection \<open>The requests of a change\<close>

text \<open>The transport that records the requests it is given.\<close>

definition logged :: "'w http_outside \<Rightarrow> ('w \<times> lxd_request list) http_outside" where
  "logged ho =
     \<lparr>ho_NewRequest = ho_NewRequest ho,
      ho_Do = (\<lambda>hc r (w, lg). case ho_Do ho hc r w of (x, w1) \<Rightarrow> (x, (w1, lg @ [r]))),
      ho_X509KeyPair = ho_X509KeyPair ho, ho_AppendCertsFromPEM = ho_AppendCertsFromPEM ho\<rparr>"

definition request_to :: "lxdClient \<Rightarrow> string \<Rightarrow> string \<Rightarrow> json option \<Rightarrow> lxd_request" where
  "request_to c meth path body = \<lparr>lr_Method = meth, lr_URL = lc_endpoint c @ path, lr_Body = body\<rparr>"

text \<open>At most the write \<open>r\<close>, and after it at most one wait for an operation.\<close>

definition one_write :: "lxdClient \<Rightarrow> lxd_request \<Rightarrow> lxd_request list \<Rightarrow> bool" where
  "one_write c r rs \<longleftrightarrow> rs = [] \<or> rs = [r] \<or> (\<exists>op. op \<noteq> '''' \<and> rs = [r, request_to c ''GET'' (wait_path op) None])"

lemma do_request_log:
  "do_request (logged ho) c meth path b (w, lg) = (x, (w1, lg1)) \<Longrightarrow>
     (\<exists>e. x = Inl e) \<and> lg1 = lg \<or> lg1 = lg @ [request_to c meth path b]"
  by (auto simp: do_request_def logged_def request_to_def Let_def split: if_splits prod.splits option.splits)

lemma client_writeJSON_log:
  "client_writeJSON (logged ho) c meth path b (w, lg) = (x, (w1, lg1)) \<Longrightarrow>
     (\<exists>e. x = Inl e) \<and> lg1 = lg \<or> lg1 = lg @ [request_to c meth path (Some b)]"
  by (auto simp: client_writeJSON_def split: prod.splits sum.splits dest!: do_request_log)

lemma waitOperation_log:
  "waitOperation (logged ho) c op (w, lg) = (x, (w1, lg1)) \<Longrightarrow>
     lg1 = lg \<or> op \<noteq> '''' \<and> lg1 = lg @ [request_to c ''GET'' (wait_path op) None]"
  by (auto simp: waitOperation_def getJSON_def split: if_splits prod.splits sum.splits dest!: do_request_log)

lemma write_and_wait_log:
  assumes "write_and_wait (logged ho) c wrap (client_writeJSON (logged ho) c meth path b (w, lg)) = (err, (w2, lg2))"
  shows "\<exists>rs. lg2 = lg @ rs \<and> one_write c (request_to c meth path (Some b)) rs \<and> (err \<noteq> None \<or> rs \<noteq> [])"
proof -
  obtain x w1 lg1 where wr: "client_writeJSON (logged ho) c meth path b (w, lg) = (x, (w1, lg1))" by (metis prod.exhaust)
  note l1 = client_writeJSON_log [OF wr]
  show ?thesis
  proof (cases x)
    case (Inl e)
    with assms wr l1 show ?thesis by (auto simp: write_and_wait_def one_write_def)
  next
    case (Inr op)
    with assms wr obtain y where "waitOperation (logged ho) c op (w1, lg1) = (y, (w2, lg2))"
      by (auto simp: write_and_wait_def split: prod.splits option.splits)
    from waitOperation_log [OF this] l1 Inr show ?thesis by (auto simp: one_write_def)
  qed
qed

text \<open>A change is sent at most once. Whatever happens, a move, an initialisation or a join sends nothing, or its
  one request, or that request followed by one wait; without an error the request was sent. The request of a move
  names instance and target, that of a join carries the trust token.\<close>

theorem http_writes_once:
  "(\<forall>err w2 lg. lxdClient_MoveInstance (logged ho) c i t (w, []) = (err, (w2, lg)) \<longrightarrow>
      one_write c (request_to c ''POST'' (move_path i t) (Some (move_body t))) lg \<and> (err \<noteq> None \<or> lg \<noteq> [])) \<and>
   (\<forall>err w2 lg. lxdClient_InitCluster (logged ho) c ic (w, []) = (err, (w2, lg)) \<longrightarrow>
      one_write c (request_to c ''PUT'' ''/1.0/cluster'' (Some (init_body ic))) lg \<and> (err \<noteq> None \<or> lg \<noteq> [])) \<and>
   (\<forall>err w2 lg. lxdClient_JoinCluster (logged ho) c jc (w, []) = (err, (w2, lg)) \<longrightarrow>
      one_write c (request_to c ''PUT'' ''/1.0/cluster'' (Some (join_body jc))) lg \<and> (err \<noteq> None \<or> lg \<noteq> []))"
proof -
  have none: "one_write c r []" for r by (simp add: one_write_def)
  show ?thesis
    using none
    by (auto simp: lxdClient_MoveInstance_def lxdClient_InitCluster_def lxdClient_JoinCluster_def postJSON_def putJSON_def
        split: if_splits dest!: write_and_wait_log)
qed

text \<open>What \<open>InitCluster\<close> sends does not depend on the listen address, the cluster name or the trust token: two
  configurations that differ only there are the same request with the same outcome.\<close>

theorem init_ignores_token:
  assumes "ic_ServerName cfg = ic_ServerName cfg'" and "ic_StoragePool cfg = ic_StoragePool cfg'"
    and "ic_ListenAddress cfg \<noteq> ''''" and "ic_ListenAddress cfg' \<noteq> ''''"
  shows "lxdClient_InitCluster ho c cfg w = lxdClient_InitCluster ho c cfg' w"
  using assms by (simp add: lxdClient_InitCluster_def init_body_def)

subsection \<open>The options\<close>

text \<open>The options by name, and the TLS settings of a client.\<close>

datatype client_setting = Insecure | is_ClientCertificate: ClientCertificate string string | is_ServerCA: ServerCA string

definition setting :: "'w http_outside \<Rightarrow> client_setting \<Rightarrow> client_option" where
  "setting ho s =
     (case s of
        Insecure \<Rightarrow> WithInsecureSkipVerify
      | ClientCertificate certPEM keyPEM \<Rightarrow> WithClientCertificate ho certPEM keyPEM
      | ServerCA caPEM \<Rightarrow> WithServerCA ho caPEM)"

definition tls_of :: "lxdClient \<Rightarrow> tls_config" where
  "tls_of c = (case cloneTransport (lc_httpClient c) of None \<Rightarrow> tls_zero | Some t \<Rightarrow> t)"

lemma tls_of_with_tls [simp]:
  "tls_of (with_tls f c) = f (tls_of c)" "lc_endpoint (with_tls f c) = lc_endpoint c"
  "hc_Timeout (lc_httpClient (with_tls f c)) = hc_Timeout (lc_httpClient c)"
  by (simp_all add: with_tls_def tls_of_def cloneTransport_def Let_def)

lemma apply_settings:
  assumes "apply_options (map (setting ho) ss) c = Inr c'"
  shows "(tc_InsecureSkipVerify (tls_of c') \<longleftrightarrow> tc_InsecureSkipVerify (tls_of c) \<or> Insecure \<in> set ss) \<and>
    length (tc_Certificates (tls_of c')) = length (tc_Certificates (tls_of c)) + length (filter is_ClientCertificate ss) \<and>
    (tc_RootCAs (tls_of c') = None \<longleftrightarrow> tc_RootCAs (tls_of c) = None \<and> \<not> list_ex is_ServerCA ss) \<and>
    hc_Timeout (lc_httpClient c') = hc_Timeout (lc_httpClient c) \<and> lc_endpoint c' = lc_endpoint c"
  using assms
proof (induction ss arbitrary: c)
  case (Cons s ss)
  then show ?case
    by (cases s) (force simp: setting_def WithInsecureSkipVerify_def WithClientCertificate_def WithServerCA_def split: sum.splits option.splits)+
qed simp

text \<open>The TLS settings of a client built with options. Certificate verification is off exactly when
  \<open>WithInsecureSkipVerify\<close> is among them, every client certificate is kept, a custom CA is set exactly when one was
  given, and no option loses the 30 second timeout.\<close>

theorem new_client_tls:
  assumes "New_client endpoint (map (setting ho) ss) = Inr c"
  shows "endpoint \<noteq> '''' \<and> lc_endpoint c = trim_slashes endpoint \<and> (tc_InsecureSkipVerify (tls_of c) \<longleftrightarrow> Insecure \<in> set ss) \<and>
    length (tc_Certificates (tls_of c)) = length (filter is_ClientCertificate ss) \<and>
    (tc_RootCAs (tls_of c) = None \<longleftrightarrow> \<not> list_ex is_ServerCA ss) \<and> hc_Timeout (lc_httpClient c) = 30 * 10 ^ 9"
  using assms
  by (auto simp: New_client_def tls_of_def cloneTransport_def tls_zero_def split: if_splits dest!: apply_settings)

subsection \<open>A concrete server\<close>

definition ex_member :: NodeInfo where
  "ex_member = \<lparr>ni_Name = ''n1'', ni_URL = ''https://n1:8443'', ni_Status = ''Online'', ni_Message = '''', ni_Architecture = ''x86_64'',
     ni_Description = '''', ni_Roles = [''database'']\<rparr>"

definition ex_lxd :: Fake where
  "ex_lxd = AddNode ex_member New"

definition ex_http_client :: lxdClient where
  "ex_http_client = \<lparr>lc_endpoint = ''https://n1:8443'', lc_httpClient = \<lparr>hc_Transport = NilTransport, hc_Timeout = 30 * 10 ^ 9\<rparr>\<rparr>"

definition ex_answer :: "json \<Rightarrow> lxd_response" where
  "ex_answer m = \<lparr>lp_StatusCode = 200, lp_Body = Inr (Some (sync_body m))\<rparr>"

text \<open>It serves one member and nothing else; a change succeeds without an operation to wait for.\<close>

definition ex_http :: "unit http_outside" where
  "ex_http = \<lparr>ho_NewRequest = (\<lambda>_ _. True),
     ho_Do = (\<lambda>_ r w.
       (Some (if lr_Method r \<noteq> ''GET'' then ex_answer JNull
              else if lr_URL r = ''https://n1:8443/1.0/cluster/members?recursion=1'' then ex_answer (JArr [member_json ex_member])
              else if lr_URL r = ''https://n1:8443/1.0/cluster/members/n1'' then ex_answer (member_json ex_member)
              else if lr_URL r = ''https://n1:8443/1.0/instances?recursion=1'' then ex_answer (JArr [])
              else \<lparr>lp_StatusCode = 404, lp_Body = Inr (Some (error_body 404 ''not found''))\<rparr>), w)),
     ho_X509KeyPair = (\<lambda>cert key. Inr cert), ho_AppendCertsFromPEM = Some\<rparr>"

lemma ex_lxd_simps: "f_nodes ex_lxd = [(''n1'', ex_member)]" "f_instances ex_lxd = []" "f_resources ex_lxd = []"
  by (simp_all add: ex_lxd_def AddNode_def New_def ex_member_def)

lemma PathEscape_n1: "PathEscape name = ''n1'' \<longleftrightarrow> name = ''n1''"
proof -
  have "PathEscape ''n1'' = ''n1''" by (simp add: PathEscape_def path_char_def unreserved_def)
  then show ?thesis using PathEscape_inj by metis
qed

lemma ex_http_serves: "serves ex_http ex_http_client (\<lambda>_. ex_lxd)"
  unfolding serves_def serves_value_def answers_def answers_error_def
  by (auto simp: ex_lxd_simps ex_http_def ex_http_client_def ex_answer_def PathEscape_n1)

theorem http_agrees_with_fake_witness:
  "lxdClient_GetClusterMembers ex_http ex_http_client () = (Inr [ex_member], ())"
  using http_agrees_with_fake [OF ex_http_serves, of "''n1''" "()"]
  by (simp add: Fake_GetClusterMembers_def ex_lxd_simps)

theorem get_instance_disagrees_witness:
  "\<exists>e. lxdClient_GetInstance ex_http ex_http_client ''web'' () = (Inl e, ()) \<and> lxd_sentinels e = {ErrNodeNotFound}"
  using get_instance_disagrees [OF ex_http_serves, of "''web''" "()"] by (auto simp: ex_lxd_simps)

theorem http_writes_once_witness:
  "\<exists>err lg. lxdClient_MoveInstance (logged ex_http) ex_http_client ''web'' ''n2'' ((), []) = (err, ((), lg)) \<and>
     one_write ex_http_client (request_to ex_http_client ''POST'' (move_path ''web'' ''n2'') (Some (move_body ''n2''))) lg"
proof -
  obtain err lg where m: "lxdClient_MoveInstance (logged ex_http) ex_http_client ''web'' ''n2'' ((), []) = (err, ((), lg))"
    by (metis (full_types) prod.exhaust unit.exhaust)
  with http_writes_once [of ex_http ex_http_client "''web''" "''n2''" "()"] show ?thesis by blast
qed

theorem init_ignores_token_witness:
  "lxdClient_InitCluster ex_http ex_http_client
     \<lparr>ic_ServerName = ''n1'', ic_ClusterName = ''c'', ic_ListenAddress = ''10.0.0.1:8443'',
      ic_StoragePool = \<lparr>sp_Name = ''default'', sp_Driver = ''dir''\<rparr>, ic_TrustToken = ''secret''\<rparr> () =
   lxdClient_InitCluster ex_http ex_http_client
     \<lparr>ic_ServerName = ''n1'', ic_ClusterName = '''', ic_ListenAddress = ''0.0.0.0:1'',
      ic_StoragePool = \<lparr>sp_Name = ''default'', sp_Driver = ''dir''\<rparr>, ic_TrustToken = ''''\<rparr> ()"
  by (rule init_ignores_token) simp_all

theorem new_client_tls_witness:
  "\<exists>c. New_client ''https://n1:8443/'' (map (setting ex_http) [ServerCA ''ca'', ClientCertificate ''crt'' ''key'']) = Inr c \<and>
     \<not> tc_InsecureSkipVerify (tls_of c)"
proof -
  let ?ss = "[ServerCA ''ca'', ClientCertificate ''crt'' ''key'']"
  obtain c where c: "New_client ''https://n1:8443/'' (map (setting ex_http) ?ss) = Inr c"
    by (simp add: New_client_def setting_def WithServerCA_def WithClientCertificate_def ex_http_def)
  with new_client_tls [OF c] show ?thesis by auto
qed

subsection \<open>Two more facts of the client\<close>

text \<open>An operation that is still running (status code 103) counts as finished: only codes from 400 and an error text fail.\<close>

theorem wait_accepts_running:
  assumes "answers ho c (wait_path op) (JObj [(''status'', JStr ''Running''), (''status_code'', JNum (FormatInt 103))]) w w1"
    and "op \<noteq> ''''"
  shows "waitOperation ho c op w = (None, w1)"
proof -
  have "dec_struct apiOperation_fields (JObj [(''status'', JStr ''Running''), (''status_code'', JNum (FormatInt 103))]) apiOperation_zero =
      Inr (apiOperation_zero\<lparr>aop_Status := ''Running'', aop_StatusCode := 103\<rparr>)"
    by (simp add: dec_struct_JObj apiOperation_fields_def find_field_def field_def)
  from getJSON_answers [OF assms(1), of "dec_struct apiOperation_fields", OF this] assms(2) show ?thesis
    by (simp add: waitOperation_def apiOperation_zero_def)
qed

text \<open>The client is a reader in the sense of the inventory code: the reads touch only what the transport touches.\<close>

definition transport_keeps :: "'w http_outside \<Rightarrow> ('w \<Rightarrow> 'v) \<Rightarrow> bool" where
  "transport_keeps ho view \<longleftrightarrow> (\<forall>hc r w. view (snd (ho_Do ho hc r w)) = view w)"

lemma getJSON_keeps:
  assumes "transport_keeps ho view" and "getJSON ho c path dec out w = (y, w1)"
  shows "view w1 = view w"
proof -
  have "view (snd (ho_Do ho hc r w)) = view w" for hc r using assms(1) by (simp add: transport_keeps_def)
  then have "view w' = view w" if "ho_Do ho hc r w = (x, w')" for hc r x w' using that by (metis snd_conv)
  with assms(2) show ?thesis
    by (auto simp: getJSON_def do_request_def Let_def split: if_splits prod.splits sum.splits option.splits)
qed

lemma map_result_keeps:
  "transport_keeps ho view \<Longrightarrow> map_result wrap f (getJSON ho c path dec out w) = (y, w1) \<Longrightarrow> view w1 = view w"
  by (auto simp: map_result_def split: prod.splits sum.splits dest: getJSON_keeps)

lemma http_lxd_reader: "transport_keeps ho view \<Longrightarrow> lxd_reader (http_lxd_client ho c) view"
  by unfold_locales
    (auto simp: http_lxd_client_def lxdClient_GetClusterMembers_def lxdClient_GetNodeResources_def lxdClient_ListInstances_def
        split: if_splits dest: map_result_keeps)

end
