(* ===== verification/Postgres_Lock.thy ===== *)
theory Postgres_Lock
  imports Postgres
begin

section \<open>Transactions (WithTx)\<close>

text \<open>
  The function passed to \<open>WithTx\<close> runs on the state of the transaction; it returns its error and whether a
  statement inside has failed on the server, after which PostgreSQL answers the commit with a rollback.
\<close>

definition WithTx :: "pg_outside \<Rightarrow> (pg \<Rightarrow> (go_error option \<times> bool) \<times> pg) \<Rightarrow> pg \<Rightarrow> go_error option \<times> pg" where
  "WithTx out fn db =
     (let k = pg_tick db; db0 = db\<lparr>pg_tick := Suc k\<rparr>
      in case po_fault out k of
           Some (msg, _) \<Rightarrow> (Some (Wrapf ''postgres: begin transaction: %w'' [] (Errors_New msg)), db0)
         | None \<Rightarrow>
             (case fn db0 of
                ((Some err, _), db1) \<Rightarrow> (Some err, db0\<lparr>pg_tick := pg_tick db1\<rparr>)
              | ((None, aborted), db1) \<Rightarrow>
                  (let k1 = pg_tick db1; rolled_back = db0\<lparr>pg_tick := Suc k1\<rparr>; committed = db1\<lparr>pg_tick := Suc k1\<rparr>
                   in case po_fault out k1 of
                        Some (msg, took_effect) \<Rightarrow>
                          (Some (Wrapf ''postgres: commit transaction: %w'' [] (Errors_New msg)),
                           if took_effect \<and> \<not> aborted then committed else rolled_back)
                      | None \<Rightarrow>
                          if aborted
                          then (Some (Wrapf ''postgres: commit transaction: %w'' []
                                  (Errors_New ''commit unexpectedly resulted in rollback'')), rolled_back)
                          else (None, committed))))"

text \<open>All or nothing: without an error the tables are what the function made of them; with one they are as before, unless
  the answer to the commit was lost.\<close>

theorem with_tx_atomic:
  assumes "WithTx out fn db = (err, db')"
  defines "after \<equiv> fn (db\<lparr>pg_tick := Suc (pg_tick db)\<rparr>)"
  shows "(err = None \<longrightarrow> fst after = (None, False) \<and> pg_tables db' = pg_tables (snd after)) \<and>
    (pg_tables db' = pg_tables db \<or> fst after = (None, False) \<and> pg_tables db' = pg_tables (snd after))"
  using assms(1) unfolding after_def WithTx_def Let_def
  by (auto simp: pg_tables_def split: option.splits prod.splits if_splits)

section \<open>The advisory lock (lock.go)\<close>

text \<open>
  The server counts, for the one key, how often each session holds the lock. Each manager has its own
  \<open>AdvisoryLock\<close>, whose field \<open>conn\<close> is the session it keeps while it holds the lock. What the pool hands out and
  which statement fails (before or after it took effect, and whether the connection is lost, which ends the
  session) are arguments.
\<close>

text \<open>The key, and the FNV-1a hash that its comment says it is derived from. It is not that hash.\<close>

definition BootstrapAdvisoryLockKey :: int64 where
  "BootstrapAdvisoryLockKey = 7887792386627534949"

definition fnv1a64 :: "string \<Rightarrow> 64 word" where
  "fnv1a64 s = fold (\<lambda>c h. xor h (of_char c) * 0x100000001b3) s 0xcbf29ce484222325"

lemma fnv1a64_test_vectors: "fnv1a64 '''' = 0xcbf29ce484222325" "fnv1a64 ''a'' = 0xaf63dc4c8601ec8c"
    "fnv1a64 ''foobar'' = 0x85944171f73967e8"
  by code_simp+

lemma advisory_key_is_not_the_hash:
  "fnv1a64 ''lx-container-weaver:bootstrap'' = 4798950895745489630 \<and>
     BootstrapAdvisoryLockKey \<noteq> fnv1a64 ''lx-container-weaver:bootstrap''"
  by code_simp

record adv =
  al_depth :: "nat \<Rightarrow> nat"
  al_conn :: "nat \<Rightarrow> nat option"
  al_tick :: nat

record adv_outside =
  ao_acquire :: "nat \<Rightarrow> nat \<Rightarrow> adv \<Rightarrow> nat option"
  ao_fault :: "nat \<Rightarrow> (bool \<times> bool) option"

definition pg_try_advisory_lock :: "nat \<Rightarrow> adv \<Rightarrow> bool \<times> adv" where
  "pg_try_advisory_lock c s =
     (if \<exists>c'. c' \<noteq> c \<and> 0 < al_depth s c' then (False, s)
      else (True, s\<lparr>al_depth := (al_depth s)(c := Suc (al_depth s c))\<rparr>))"

definition pg_advisory_unlock :: "nat \<Rightarrow> adv \<Rightarrow> bool \<times> adv" where
  "pg_advisory_unlock c s = (0 < al_depth s c, s\<lparr>al_depth := (al_depth s)(c := al_depth s c - 1)\<rparr>)"

definition end_session :: "nat \<Rightarrow> adv \<Rightarrow> adv" where
  "end_session c s = s\<lparr>al_depth := (al_depth s)(c := 0)\<rparr>"

definition adv_query :: "adv_outside \<Rightarrow> (nat \<Rightarrow> adv \<Rightarrow> bool \<times> adv) \<Rightarrow> nat \<Rightarrow> adv \<Rightarrow> bool res \<times> adv" where
  "adv_query out f c s =
     (let k = al_tick s; s0 = s\<lparr>al_tick := Suc k\<rparr>
      in case ao_fault out k of
           None \<Rightarrow> (case f c s0 of (b, s1) \<Rightarrow> (Inr b, s1))
         | Some (took_effect, lost) \<Rightarrow>
             (let s1 = (if took_effect then snd (f c s0) else s0)
              in (Inl (Errors_New ''query failed''), if lost then end_session c s1 else s1)))"

definition AdvisoryLock_TryLock :: "adv_outside \<Rightarrow> nat \<Rightarrow> adv \<Rightarrow> bool res \<times> adv" where
  "AdvisoryLock_TryLock out m s =
     (let s0 = s\<lparr>al_tick := Suc (al_tick s)\<rparr>
      in case ao_acquire out (al_tick s) m s of
           None \<Rightarrow> (Inl (Wrapf ''advisory lock: acquire connection: %w'' [] (Errors_New ''acquire'')), s0)
         | Some c \<Rightarrow>
             (case adv_query out pg_try_advisory_lock c s0 of
                (Inl err, s1) \<Rightarrow> (Inl (Wrapf ''advisory lock: pg_try_advisory_lock: %w'' [] err), s1)
              | (Inr acquired, s1) \<Rightarrow>
                  if \<not> acquired then (Inr False, s1)
                  else (Inr True, s1\<lparr>al_conn := (al_conn s1)(m := Some c)\<rparr>)))"

definition AdvisoryLock_Unlock :: "adv_outside \<Rightarrow> nat \<Rightarrow> adv \<Rightarrow> go_error option \<times> adv" where
  "AdvisoryLock_Unlock out m s =
     (case al_conn s m of
        None \<Rightarrow> (None, s)
      | Some c \<Rightarrow>
          (case adv_query out pg_advisory_unlock c (s\<lparr>al_conn := (al_conn s)(m := None)\<rparr>) of
             (Inl err, s1) \<Rightarrow> (Some (Wrapf ''advisory lock: pg_advisory_unlock: %w'' [] err), s1)
           | (Inr released, s1) \<Rightarrow>
               (if \<not> released then Some (Errorf ''advisory lock: pg_advisory_unlock returned false for key %d'' [])
                else None, s1)))"

text \<open>What a connection pool promises: a connection that is in use is not handed out again.\<close>

definition pool_ok :: "adv_outside \<Rightarrow> bool" where
  "pool_ok out \<longleftrightarrow> (\<forall>k m s c. ao_acquire out k m s = Some c \<longrightarrow> (\<forall>m'. al_conn s m' \<noteq> Some c))"

definition adv_init :: adv where
  "adv_init = \<lparr>al_depth = (\<lambda>_. 0), al_conn = (\<lambda>_. None), al_tick = 0\<rparr>"

text \<open>Any manager calls any of the two methods at any time.\<close>

inductive adv_step :: "adv_outside \<Rightarrow> adv \<Rightarrow> adv \<Rightarrow> bool" for out where
  adv_try: "adv_step out s (snd (AdvisoryLock_TryLock out m s))"
| adv_unlock: "adv_step out s (snd (AdvisoryLock_Unlock out m s))"

inductive_cases adv_stepE: "adv_step out s s'"

definition adv_inv :: "adv \<Rightarrow> bool" where
  "adv_inv s \<longleftrightarrow>
     (\<forall>c c'. 0 < al_depth s c \<longrightarrow> 0 < al_depth s c' \<longrightarrow> c = c') \<and>
     (\<forall>m c. al_conn s m = Some c \<longrightarrow> 0 < al_depth s c) \<and>
     (\<forall>m m' c. al_conn s m = Some c \<longrightarrow> al_conn s m' = Some c \<longrightarrow> m = m')"

lemma adv_invI:
  assumes "\<And>c c'. 0 < al_depth s c \<Longrightarrow> 0 < al_depth s c' \<Longrightarrow> c = c'"
    and "\<And>m c. al_conn s m = Some c \<Longrightarrow> 0 < al_depth s c"
    and "\<And>m m' c. al_conn s m = Some c \<Longrightarrow> al_conn s m' = Some c \<Longrightarrow> m = m'"
  shows "adv_inv s"
  using assms unfolding adv_inv_def by blast

text \<open>The query of a try on a session that nobody keeps, and of an unlock on a session that nobody keeps any more.\<close>

lemma adv_query_cases:
  assumes "adv_query out f c s = (r, s1)"
  obtains s0 where "al_depth s0 = al_depth s" "al_conn s0 = al_conn s"
    and "s1 = snd (f c s0) \<and> (\<forall>b. r = Inr b \<longrightarrow> b = fst (f c s0)) \<or> s1 = s0 \<and> (\<exists>e. r = Inl e) \<or>
      s1 = end_session c (snd (f c s0)) \<and> (\<exists>e. r = Inl e) \<or> s1 = end_session c s0 \<and> (\<exists>e. r = Inl e)"
proof (rule that [of "s\<lparr>al_tick := Suc (al_tick s)\<rparr>"])
  let ?s0 = "s\<lparr>al_tick := Suc (al_tick s)\<rparr>"
  show "s1 = snd (f c ?s0) \<and> (\<forall>b. r = Inr b \<longrightarrow> b = fst (f c ?s0)) \<or> s1 = ?s0 \<and> (\<exists>e. r = Inl e) \<or>
      s1 = end_session c (snd (f c ?s0)) \<and> (\<exists>e. r = Inl e) \<or> s1 = end_session c ?s0 \<and> (\<exists>e. r = Inl e)"
  proof (cases "ao_fault out (al_tick s)")
    case None
    with assms show ?thesis by (cases "f c ?s0") (auto simp: adv_query_def Let_def)
  next
    case (Some p)
    with assms show ?thesis by (cases p) (auto simp: adv_query_def Let_def split: if_splits)
  qed
qed simp_all

lemma try_query_frame:
  assumes "adv_query out pg_try_advisory_lock c s = (r, s1)"
  shows "al_conn s1 = al_conn s \<and> (\<forall>c'. c' \<noteq> c \<longrightarrow> al_depth s1 c' = al_depth s c') \<and>
    (0 < al_depth s1 c \<longrightarrow> 0 < al_depth s c \<or> (\<forall>c'. c' \<noteq> c \<longrightarrow> al_depth s c' = 0)) \<and> (r = Inr True \<longrightarrow> 0 < al_depth s1 c)"
proof -
  from assms obtain s0 where s0: "al_depth s0 = al_depth s" "al_conn s0 = al_conn s"
    and c: "s1 = snd (pg_try_advisory_lock c s0) \<and> (\<forall>b. r = Inr b \<longrightarrow> b = fst (pg_try_advisory_lock c s0)) \<or>
      s1 = s0 \<and> (\<exists>e. r = Inl e) \<or> s1 = end_session c (snd (pg_try_advisory_lock c s0)) \<and> (\<exists>e. r = Inl e) \<or>
      s1 = end_session c s0 \<and> (\<exists>e. r = Inl e)" by (rule adv_query_cases)
  show ?thesis
  proof (cases "\<exists>c'. c' \<noteq> c \<and> 0 < al_depth s c'")
    case True
    then have "pg_try_advisory_lock c s0 = (False, s0)" by (simp add: pg_try_advisory_lock_def s0)
    with c s0 show ?thesis by (elim disjE) (auto simp: end_session_def)
  next
    case False
    then have p: "pg_try_advisory_lock c s0 = (True, s0\<lparr>al_depth := (al_depth s)(c := Suc (al_depth s c))\<rparr>)"
      by (simp add: pg_try_advisory_lock_def s0)
    from False have z: "al_depth s c' = 0" if "c' \<noteq> c" for c' using that by auto
    from c s0 show ?thesis unfolding p by (elim disjE) (auto simp: end_session_def z)
  qed
qed

lemma unlock_query_frame:
  assumes "adv_query out pg_advisory_unlock c s = (r, s1)"
  shows "al_conn s1 = al_conn s \<and> (\<forall>c'. c' \<noteq> c \<longrightarrow> al_depth s1 c' = al_depth s c') \<and>
    (0 < al_depth s1 c \<longrightarrow> 0 < al_depth s c)"
  using assms
  by (rule adv_query_cases) (auto simp: pg_advisory_unlock_def end_session_def)

lemma try_query_inv:
  assumes "adv_inv s" and "\<And>m. al_conn s m \<noteq> Some c" and "adv_query out pg_try_advisory_lock c s = (r, s1)"
  shows "adv_inv s1" and "al_conn s1 = al_conn s" and "r = Inr True \<Longrightarrow> 0 < al_depth s1 c"
proof -
  note f = try_query_frame [OF assms(3)]
  show "adv_inv s1"
  proof (rule adv_invI)
    fix a b assume "0 < al_depth s1 a" "0 < al_depth s1 b"
    with f assms(1) show "a = b" unfolding adv_inv_def by (metis less_irrefl)
  next
    fix m d assume "al_conn s1 m = Some d"
    with f assms(1,2) show "0 < al_depth s1 d" unfolding adv_inv_def by metis
  next
    fix m m' d assume "al_conn s1 m = Some d" "al_conn s1 m' = Some d"
    with f assms(1) show "m = m'" unfolding adv_inv_def by metis
  qed
qed (use try_query_frame [OF assms(3)] in auto)

lemma unlock_query_inv:
  assumes "adv_inv s" and "\<And>m. al_conn s m \<noteq> Some c" and "adv_query out pg_advisory_unlock c s = (r, s1)"
  shows "adv_inv s1"
proof -
  note f = unlock_query_frame [OF assms(3)]
  show ?thesis
  proof (rule adv_invI)
    fix a b assume "0 < al_depth s1 a" "0 < al_depth s1 b"
    with f assms(1) show "a = b" unfolding adv_inv_def by metis
  next
    fix m d assume "al_conn s1 m = Some d"
    with f assms(1,2) show "0 < al_depth s1 d" unfolding adv_inv_def by metis
  next
    fix m m' d assume "al_conn s1 m = Some d" "al_conn s1 m' = Some d"
    with f assms(1) show "m = m'" unfolding adv_inv_def by metis
  qed
qed

lemma TryLock_inv:
  assumes "pool_ok out" and "adv_inv s"
  shows "adv_inv (snd (AdvisoryLock_TryLock out m s))"
proof (cases "ao_acquire out (al_tick s) m s")
  case None
  then show ?thesis using assms(2) by (simp add: AdvisoryLock_TryLock_def Let_def adv_inv_def)
next
  case (Some c)
  let ?s0 = "s\<lparr>al_tick := Suc (al_tick s)\<rparr>"
  have free: "al_conn ?s0 m' \<noteq> Some c" for m' using assms(1) Some by (auto simp: pool_ok_def)
  have i0: "adv_inv ?s0" using assms(2) by (simp add: adv_inv_def)
  obtain r s1 where q: "adv_query out pg_try_advisory_lock c ?s0 = (r, s1)" by fastforce
  note tr = try_query_inv [OF i0 free q]
  show ?thesis
  proof (cases "r = Inr True")
    case True
    have "al_conn s1 m' = None" for m'
    proof (rule ccontr)
      assume "al_conn s1 m' \<noteq> None"
      then obtain d where d: "al_conn s1 m' = Some d" by blast
      with tr(1) tr(3) [OF True] have "d = c" unfolding adv_inv_def by blast
      with d free show False by (simp add: tr(2))
    qed
    then have "adv_inv (s1\<lparr>al_conn := (al_conn s1)(m := Some c)\<rparr>)"
      using tr(1) tr(3) [OF True] by (auto simp: adv_inv_def split: if_splits)
    with q Some True show ?thesis by (simp add: AdvisoryLock_TryLock_def Let_def)
  next
    case False
    with q Some tr(1) show ?thesis by (auto simp: AdvisoryLock_TryLock_def Let_def split: sum.split)
  qed
qed

lemma Unlock_inv:
  assumes "adv_inv s"
  shows "adv_inv (snd (AdvisoryLock_Unlock out m s))"
proof (cases "al_conn s m")
  case (Some c)
  let ?s0 = "s\<lparr>al_conn := (al_conn s)(m := None)\<rparr>"
  have free: "al_conn ?s0 m' \<noteq> Some c" for m' using assms Some by (auto simp: adv_inv_def)
  have i0: "adv_inv ?s0" using assms unfolding adv_inv_def by (auto split: if_splits)
  obtain r s1 where q: "adv_query out pg_advisory_unlock c ?s0 = (r, s1)" by fastforce
  from unlock_query_inv [OF i0 free q] q Some show ?thesis by (auto simp: AdvisoryLock_Unlock_def split: sum.split)
qed (use assms in \<open>simp add: AdvisoryLock_Unlock_def\<close>)

lemma adv_reachable_inv:
  assumes "pool_ok out" and "(adv_step out)\<^sup>*\<^sup>* adv_init s"
  shows "adv_inv s"
  using assms(2)
proof (induction rule: rtranclp_induct)
  case base
  show ?case by (simp add: adv_inv_def adv_init_def)
next
  case (step y z)
  then show ?case by (auto elim!: adv_stepE intro: TryLock_inv [OF assms(1)] Unlock_inv)
qed

text \<open>At most one manager holds the advisory lock, whatever the managers call in whatever order and however the
  statements fail; its session is the only one that the server counts as a holder.\<close>

theorem advisory_mutual_exclusion:
  assumes "pool_ok out" and "(adv_step out)\<^sup>*\<^sup>* adv_init s" and "al_conn s m = Some c"
  shows "(\<forall>m'. al_conn s m' \<noteq> None \<longrightarrow> m' = m) \<and> (\<forall>c'. 0 < al_depth s c' \<longleftrightarrow> c' = c)"
  using adv_reachable_inv [OF assms(1,2)] assms(3) unfolding adv_inv_def by (metis not_None_eq)

definition ex_adv :: adv_outside where
  "ex_adv = \<lparr>ao_acquire = (\<lambda>k m s. if \<exists>m'. al_conn s m' = Some k then None else Some k), ao_fault = (\<lambda>_. None)\<rparr>"

theorem advisory_mutual_exclusion_witness:
  "\<exists>s c. (adv_step ex_adv)\<^sup>*\<^sup>* adv_init s \<and> al_conn s 7 = Some c \<and> al_conn s 8 = None"
proof -
  let ?s = "snd (AdvisoryLock_TryLock ex_adv 7 adv_init)"
  have r: "(adv_step ex_adv)\<^sup>*\<^sup>* adv_init ?s" by (intro r_into_rtranclp adv_try)
  have c: "al_conn ?s 7 = Some 0"
    by (simp add: AdvisoryLock_TryLock_def ex_adv_def adv_init_def adv_query_def pg_try_advisory_lock_def Let_def)
  have "pool_ok ex_adv" by (simp add: pool_ok_def ex_adv_def)
  from advisory_mutual_exclusion [OF this r c] r c show ?thesis by fastforce
qed

end
