(* ===== verification/Postgres_Guard.thy ===== *)
theory Postgres_Guard
  imports Postgres_Lock Guard
begin

section \<open>The start-up guard as it is deployed\<close>

text \<open>
  The manager program wires the guard to the PostgreSQL cluster repository and to an \<open>AdvisoryLock\<close> of its own, on one
  database for all managers. The state is that of the tables next to that of the lock.
\<close>

definition on_lock :: "(adv \<Rightarrow> 'a \<times> adv) \<Rightarrow> pg \<times> adv \<Rightarrow> 'a \<times> (pg \<times> adv)" where
  "on_lock f w = (case f (snd w) of (r, s) \<Rightarrow> (r, (fst w, s)))"

definition deployed_lock :: "adv_outside \<Rightarrow> nat \<Rightarrow> (pg \<times> adv) bootstrap_locker" where
  "deployed_lock pool k = \<lparr>TryLock = on_lock (AdvisoryLock_TryLock pool k), Unlock = on_lock (AdvisoryLock_Unlock pool k)\<rparr>"

definition lock_held_by :: "nat \<Rightarrow> pg \<times> adv \<Rightarrow> bool" where
  "lock_held_by k w \<longleftrightarrow> al_conn (snd w) k \<noteq> None"

lemma on_lock_eq: "on_lock f w = (r, w') \<longleftrightarrow> (\<exists>s. f (snd w) = (r, s) \<and> w' = (fst w, s))"
  by (auto simp: on_lock_def split: prod.splits)

text \<open>What \<open>TryLock\<close> does to the owners.\<close>

lemma TryLock_owners:
  assumes "pool_ok pool" and "adv_inv s" and "AdvisoryLock_TryLock pool m s = (r, s')"
  shows "if r = Inr True then (\<forall>k. al_conn s k = None) \<and> al_conn s' m \<noteq> None else al_conn s' = al_conn s"
proof (cases "ao_acquire pool (al_tick s) m s")
  case None
  with assms(3) show ?thesis by (auto simp: AdvisoryLock_TryLock_def Let_def)
next
  case (Some c)
  let ?s0 = "s\<lparr>al_tick := Suc (al_tick s)\<rparr>"
  have free: "al_conn ?s0 k \<noteq> Some c" for k using assms(1) Some by (auto simp: pool_ok_def)
  have i0: "adv_inv ?s0" using assms(2) by (simp add: adv_inv_def)
  obtain q s1 where q: "adv_query pool pg_try_advisory_lock c ?s0 = (q, s1)" by fastforce
  note tr = try_query_inv [OF i0 free q]
  show ?thesis
  proof (cases "q = Inr True")
    case True
    have "al_conn s k = None" for k
    proof (rule ccontr)
      assume "al_conn s k \<noteq> None"
      then obtain d where d: "al_conn s1 k = Some d" by (auto simp: tr(2))
      with tr(1) tr(3) [OF True] have "d = c" unfolding adv_inv_def by blast
      with d free show False by (simp add: tr(2))
    qed
    with True q Some assms(3) show ?thesis by (auto simp: AdvisoryLock_TryLock_def Let_def)
  next
    case False
    with q Some assms(3) tr(2) show ?thesis by (auto simp: AdvisoryLock_TryLock_def Let_def split: sum.splits if_splits)
  qed
qed

lemma ListClusters_frame:
  "ClusterRepo_ListClusters out db = (r, db') \<Longrightarrow> pg_tables db' = pg_tables db"
  by (auto simp: ClusterRepo_ListClusters_def wrapped_def query_def pg_tables_def Let_def split: option.splits sum.splits if_splits prod.splits)

lemma ListClusters_nil:
  "ClusterRepo_ListClusters out db = (Inr cs, db') \<Longrightarrow> cs = [] \<longleftrightarrow> pt_clusters db = []"
  by (auto simp: ClusterRepo_ListClusters_def wrapped_def query_def Let_def split: option.splits sum.splits prod.splits)

interpretation deployed_guard: guard_system "deployed_lock pool" lock_held_by "\<lambda>w. pool_ok pool \<and> adv_inv (snd w)" fst
  "deployed_clusters out" "\<lambda>w. pt_clusters (fst w) = []" for pool out
proof (unfold_locales, goal_cases)
  case (1 w k w')
  then show ?case using TryLock_owners [of pool "snd w" k "Inr True"] TryLock_inv [of pool "snd w" k]
    by (auto simp: deployed_lock_def on_lock_eq lock_held_by_def)
next
  case (2 w k r w')
  then show ?case using TryLock_owners [of pool "snd w" k r] TryLock_inv [of pool "snd w" k]
    by (auto simp: deployed_lock_def on_lock_eq lock_held_by_def)
next
  case (3 w k u w')
  then show ?case using Unlock_inv [of "snd w" pool k] by (auto simp: deployed_lock_def on_lock_eq)
next
  case (5 w r w')
  then show ?case using ListClusters_frame [of out "fst w" r]
    by (auto simp: deployed_clusters_def on_db_def lock_held_by_def pg_tables_def split: prod.splits)
next
  case (6 w cs w')
  then show ?case using ListClusters_nil [of out "fst w" cs]
    by (auto simp: deployed_clusters_def on_db_def split: prod.splits)
qed simp

text \<open>C9. Any number of managers start against one database, their calls interleaved in any way and any statement
  failing on the way or back. At every moment at most one of them is between taking and releasing the advisory lock,
  its session is the only one that holds the lock on the server, and a manager that is about to call its coordinator
  does so while the cluster table is empty. The coordinator may do anything but call the lock, and no session ends on
  its own between two statements.\<close>

theorem deployed_guard_exclusive:
  assumes "pool_ok pool" and "\<And>w r w'. coordinator w = (r, w') \<Longrightarrow> snd w' = snd w"
    and "(managers_step (deployed_clusters out) (deployed_lock pool) coordinator)\<^sup>*\<^sup>* (\<lambda>m. Start, (db, adv_init)) (pcs, w)"
    and "critical (pcs m)"
  shows "(\<forall>m'. critical (pcs m') \<longrightarrow> m' = m) \<and>
     (\<exists>c. al_conn (snd w) m = Some c \<and> (\<forall>c'. 0 < al_depth (snd w) c' \<longleftrightarrow> c' = c)) \<and>
     (pcs m = Chosen \<longrightarrow> pt_clusters (fst w) = [])"
proof -
  have k: "keeps_lock (\<lambda>w. pool_ok pool \<and> adv_inv (snd w)) lock_held_by coordinator"
    unfolding keeps_lock_def lock_held_by_def by (auto dest: assms(2))
  have "pool_ok pool \<and> adv_inv (snd (db, adv_init))" using assms(1) by (simp add: adv_inv_def adv_init_def)
  note inv = deployed_guard.guard_reach [OF assms(3) k this, unfolded guard_inv_def fst_conv snd_conv]
  then have i: "adv_inv (snd w)" and alone: "\<And>m'. critical (pcs m') \<Longrightarrow> m' = m" and held: "lock_held_by m w"
    and bare: "pcs m = Chosen \<longrightarrow> pt_clusters (fst w) = []"
    using assms(4) by blast+
  from held obtain c where c: "al_conn (snd w) m = Some c" by (auto simp: lock_held_by_def)
  with i have d: "0 < al_depth (snd w) c" by (simp add: adv_inv_def)
  have "0 < al_depth (snd w) c' \<longleftrightarrow> c' = c" for c'
    using i d by (auto simp: adv_inv_def)
  with c alone bare show ?thesis by auto
qed

theorem deployed_guard_exclusive_witness:
  "\<exists>pcs w. (managers_step (deployed_clusters ex_pgo) (deployed_lock ex_adv) noopCoordinator)\<^sup>*\<^sup>*
       (\<lambda>m. Start, (pg_empty, adv_init)) (pcs, w) \<and> pcs 7 = Locked \<and> (\<forall>m'. critical (pcs m') \<longrightarrow> m' = 7)"
proof -
  let ?w = "(pg_empty, adv_init)" and ?pcs = "(\<lambda>m::nat. Start)(7 := Locked)"
  let ?s = "snd (AdvisoryLock_TryLock ex_adv 7 adv_init)"
  have "AdvisoryLock_TryLock ex_adv 7 adv_init = (Inr True, ?s)"
    by (simp add: AdvisoryLock_TryLock_def ex_adv_def adv_init_def adv_query_def pg_try_advisory_lock_def Let_def)
  then have "guard_step (deployed_clusters ex_pgo) (deployed_lock ex_adv 7) noopCoordinator Start ?w Locked (pg_empty, ?s)"
    by (intro guard_step.lock_got) (auto simp: deployed_lock_def on_lock_def split: prod.splits)
  with managers_step.intros [of "deployed_clusters ex_pgo" "deployed_lock ex_adv" 7 noopCoordinator "\<lambda>m. Start" ?w Locked "(pg_empty, ?s)"]
  have s: "(managers_step (deployed_clusters ex_pgo) (deployed_lock ex_adv) noopCoordinator)\<^sup>*\<^sup>* (\<lambda>m. Start, ?w) (?pcs, (pg_empty, ?s))"
    by blast
  have pool: "pool_ok ex_adv" by (simp add: pool_ok_def ex_adv_def)
  have coord: "snd w' = snd w" if "noopCoordinator w = (r, w')" for w r and w' :: "pg \<times> adv"
    using that by (simp add: noopCoordinator_def)
  have crit: "critical (?pcs 7)" by simp
  note alone = conjunct1 [OF deployed_guard_exclusive [where m = 7, OF pool _ s crit]]
  have "\<forall>m'. critical (?pcs m') \<longrightarrow> m' = 7" by (rule alone) (rule coord)
  moreover have "?pcs 7 = Locked" by simp
  ultimately show ?thesis using s by blast
qed

end
