(* ===== verification/Postgres_Pass.thy ===== *)
theory Postgres_Pass
  imports Postgres_Contract Placement
begin

section \<open>Passes of the orchestrator on PostgreSQL\<close>

text \<open>
  A pass with every collaborator set, on the PostgreSQL repositories: both syncs, the placement and the scale-out,
  composed as \<open>reconcileCluster\<close> does. The theory follows the rows through the parts of a pass.
\<close>

subsection \<open>What the parts keep, over any repository\<close>

text \<open>A contract stays a contract when a part of the rest of the state is fixed.\<close>

context node_repo
begin

lemma fixed: "node_repo R nodes (\<lambda>w. inv w \<and> f (rest w) = x) rest"
proof (unfold_locales, goal_cases)
  case (1 w k n)
  then show ?case using node_key by blast
next
  case (2 w k n k' n')
  then show ?case using node_name by blast
next
  case (3 w c r w')
  with list_frame [of w c r w'] show ?case by simp
next
  case (4 w c ns w')
  with list_ok [of w c ns w'] show ?case by simp
next
  case (5 w n n' w')
  with create_ok [of w n n' w'] show ?case by simp
next
  case (6 w n e w')
  with create_err [of w n e w'] show ?case by simp
next
  case (7 w n n' w')
  with update_ok [of w n n' w'] show ?case by simp
next
  case (8 w n e w')
  with update_err [of w n e w'] show ?case by simp
qed

end

context instance_repo
begin

lemma fixed: "instance_repo R insts (\<lambda>w. inv w \<and> f (rest w) = x) rest"
proof (unfold_locales, goal_cases)
  case (1 w k n)
  then show ?case using inst_key by blast
next
  case (2 w k n k' n')
  then show ?case using inst_name by blast
next
  case (3 w c r w')
  with list_frame [of w c r w'] show ?case by simp
next
  case (4 w c ns w')
  with list_ok [of w c ns w'] show ?case by simp
next
  case (5 w n n' w')
  with create_ok [of w n n' w'] show ?case by simp
next
  case (6 w n e w')
  with create_err [of w n e w'] show ?case by simp
next
  case (7 w n n' w')
  with update_ok [of w n n' w'] show ?case by simp
next
  case (8 w n e w')
  with update_err [of w n e w'] show ?case by simp
qed

end

text \<open>The placement loop writes rows of its list only, and of those only the node.\<close>

lemma refresh_length [simp]: "length (refresh placed xs) = length xs"
  by (induction xs) auto

lemma refresh_set: "x \<in> set (refresh placed xs) \<Longrightarrow> x = placed \<or> x \<in> set xs"
  by (induction xs) (auto split: if_splits)

context instance_repo
begin

definition listed_in :: "inst list \<Rightarrow> 'w \<Rightarrow> bool" where
  "listed_in L w \<longleftrightarrow> (\<forall>x \<in> set L. \<exists>cur. insts w (i_ID x) = Some cur \<and> inst_ident cur = inst_ident x)"

lemma schedule_loop_keeps:
  assumes "inv w" and "listed_in L w" and "\<forall>x \<in> set L. i_ClusterID x = c" and "\<forall>k \<in> set ks. k < length L"
    and "schedule_loop R sched nodes ks L b w = Some (b', L', w')"
  shows "inv w' \<and> rest w' = rest w \<and> rec.keeps c (insts w) (insts w')"
  using assms
proof (induction ks arbitrary: L b w)
  case (Cons k ks)
  let ?i = "L ! k"
  from Cons.prems(4) have i: "?i \<in> set L" and ks: "\<forall>k \<in> set ks. k < length L" by simp_all
  note go = Cons.IH [OF Cons.prems(1-3) ks]
  show ?case
  proof (cases "i_NodeID ?i = ''''")
    case False
    with Cons.prems(5) go show ?thesis by simp
  next
    case True
    obtain result err where s: "sched nodes L (request_for ?i) = (result, err)" by (rule that [OF surjective_pairing])
    show ?thesis
    proof (cases err)
      case (Some e)
      with Cons.prems(5) go True s show ?thesis by (simp add: Let_def split: if_splits)
    next
      case None
      with Cons.prems(5) True s obtain n where n: "sr_Node result = Some n" by (cases "sr_Node result") simp_all
      let ?p = "?i\<lparr>i_NodeID := n_ID n\<rparr>"
      obtain r w1 where u: "UpdateInstance R ?p w = (r, w1)" by (rule that [OF surjective_pairing])
      show ?thesis
      proof (cases r)
        case (Inl e)
        with u have ue: "UpdateInstance R ?p w = (Inl e, w1)" by simp
        from update_err [OF Cons.prems(1) ue] have w1: "inv w1" "rest w1 = rest w" "insts w1 = insts w" by simp_all
        from Cons.prems(2) w1 have "listed_in L w1" by (simp add: listed_in_def)
        from Cons.IH [OF w1(1) this Cons.prems(3) ks] Cons.prems(5) True s None n ue w1 show ?thesis by (simp add: Let_def)
      next
        case (Inr i')
        with u have uo: "UpdateInstance R ?p w = (Inr i', w1)" by simp
        from update_ok [OF Cons.prems(1) uo] obtain old where w1: "inv w1" "rest w1 = rest w"
          "insts w1 = (insts w)(i_ID ?i \<mapsto> i')" "inst_data i' = inst_data ?p" and old: "insts w (i_ID ?i) = Some old"
          "i_CreatedAt i' = i_CreatedAt old" by auto
        from Cons.prems(2) i old(1) have ident: "inst_ident old = inst_ident ?i" by (auto simp: listed_in_def)
        have "inst_ident ?p = inst_ident old" using ident by (simp add: inst_ident_def)
        then have new: "inst_ident i' = inst_ident old" by (rule inst_ident_of_data [OF w1(4) old(2)])
        have c: "i_ClusterID old = c" using inst_ident_fields [OF ident] Cons.prems(3) i by simp
        have step: "rec.keeps c (insts w) (insts w1)" unfolding w1(3)
          using old(1) new c by (rule rec.keeps_update [where T = "insts w" and k = "i_ID ?i" and old = old and new = i'])
        have "listed_in (refresh ?p L) w1"
          unfolding listed_in_def
        proof
          fix x assume "x \<in> set (refresh ?p L)"
          then have "x = ?p \<or> x \<in> set L" by (rule refresh_set)
          then show "\<exists>cur. insts w1 (i_ID x) = Some cur \<and> inst_ident cur = inst_ident x"
          proof
            assume "x = ?p"
            then show ?thesis using new \<open>inst_ident ?p = inst_ident old\<close> w1(3) by simp
          next
            assume "x \<in> set L"
            with Cons.prems(2) obtain cur where "insts w (i_ID x) = Some cur" "inst_ident cur = inst_ident x"
              by (auto simp: listed_in_def)
            with old(1) new w1(3) show ?thesis by (cases "i_ID x = i_ID ?i") auto
          qed
        qed
        moreover have "\<forall>x \<in> set (refresh ?p L). i_ClusterID x = c"
          using Cons.prems(3) i by (auto dest!: refresh_set)
        moreover have "schedule_loop R sched nodes ks (refresh ?p L) b w1 = Some (b', L', w')"
          using Cons.prems(5) True s None n uo by (simp add: Let_def)
        ultimately have "inv w' \<and> rest w' = rest w1 \<and> rec.keeps c (insts w1) (insts w')"
          using Cons.IH [OF w1(1), of "refresh ?p L" b] ks by simp
        with w1(2) rec.keeps_trans [OF step] show ?thesis by simp
      qed
    qed
  qed
qed simp

end

subsection \<open>The rows that a pass keeps\<close>

definition rows_kept :: "pg \<Rightarrow> pg \<Rightarrow> bool" where
  "rows_kept db db' \<longleftrightarrow> pg_ok db' \<and> pt_clusters db' = pt_clusters db \<and>
     (\<forall>old \<in> set (pt_nodes db). \<exists>new \<in> set (pt_nodes db'). node_ident new = node_ident old) \<and>
     (\<forall>old \<in> set (pt_insts db). \<exists>new \<in> set (pt_insts db'). inst_ident new = inst_ident old)"

lemma rows_kept_refl: "pg_ok db \<Longrightarrow> rows_kept db db"
  by (auto simp: rows_kept_def)

lemma rows_kept_trans:
  assumes a: "rows_kept a b" and b: "rows_kept b c"
  shows "rows_kept a c"
proof -
  have "\<exists>new \<in> set (pt_nodes c). node_ident new = node_ident old" if "old \<in> set (pt_nodes a)" for old
    using a b that unfolding rows_kept_def by metis
  moreover have "\<exists>new \<in> set (pt_insts c). inst_ident new = inst_ident old" if "old \<in> set (pt_insts a)" for old
    using a b that unfolding rows_kept_def by metis
  ultimately show ?thesis using a b by (simp add: rows_kept_def)
qed

lemma rows_kept_same: "pg_ok a \<Longrightarrow> pg_tables b = pg_tables a \<Longrightarrow> rows_kept a b"
  by (auto simp: rows_kept_def pg_tables_def pg_ok_def)

lemma nodes_kept:
  assumes "pg_ok db" and "pg_ok db'" and "pt_clusters db' = pt_clusters db" and "pt_insts db' = pt_insts db"
    and "pg_node.rec.keeps c (row_of n_ID (pt_nodes db)) (row_of n_ID (pt_nodes db'))"
  shows "rows_kept db db'"
proof -
  have "\<exists>new \<in> set (pt_nodes db'). node_ident new = node_ident old" if m: "old \<in> set (pt_nodes db)" for old
  proof -
    have "distinct (map n_ID (pt_nodes db))" using assms(1) by (simp add: pg_ok_def nodes_ok_def)
    from row_of_member [OF this m] pg_node.rec.keepsD [OF assms(5)] obtain new where
      "row_of n_ID (pt_nodes db') (n_ID old) = Some new" "node_ident new = node_ident old" by blast
    with row_of_Some [of n_ID "pt_nodes db'" "n_ID old" new] show ?thesis by auto
  qed
  with assms(2-4) show ?thesis unfolding rows_kept_def by simp blast
qed

lemma insts_kept:
  assumes "pg_ok db" and "pg_ok db'" and "pt_clusters db' = pt_clusters db" and "pt_nodes db' = pt_nodes db"
    and "pg_instance.rec.keeps c (row_of i_ID (pt_insts db)) (row_of i_ID (pt_insts db'))"
  shows "rows_kept db db'"
proof -
  have "\<exists>new \<in> set (pt_insts db'). inst_ident new = inst_ident old" if m: "old \<in> set (pt_insts db)" for old
  proof -
    have "distinct (map i_ID (pt_insts db))" using assms(1) by (simp add: pg_ok_def insts_ok_def)
    from row_of_member [OF this m] pg_instance.rec.keepsD [OF assms(5)] obtain new where
      "row_of i_ID (pt_insts db') (i_ID old) = Some new" "inst_ident new = inst_ident old" by blast
    with row_of_Some [of i_ID "pt_insts db'" "i_ID old" new] show ?thesis by auto
  qed
  with assms(2-4) show ?thesis unfolding rows_kept_def by simp blast
qed

subsection \<open>The parts of a pass\<close>

text \<open>The syncs of an orchestrator on PostgreSQL: each call with a client and an iteration order of its own.\<close>

definition pg_node_sync :: "pg_outside \<Rightarrow> (string \<Rightarrow> pg \<times> 'x \<Rightarrow> go_error option \<times> (pg \<times> 'x)) \<Rightarrow> bool" where
  "pg_node_sync out s \<longleftrightarrow> (\<forall>c w. \<exists>p C. reads_lxd_only C \<and> s c w = Syncer_Sync p C (deployed_nodes out) c w)"

definition pg_instance_sync :: "pg_outside \<Rightarrow> (string \<Rightarrow> pg \<times> 'x \<Rightarrow> go_error option \<times> (pg \<times> 'x)) \<Rightarrow> bool" where
  "pg_instance_sync out s \<longleftrightarrow>
     (\<forall>c w. \<exists>p C. reads_lxd_only C \<and> s c w = InstanceSyncer_Sync p C (deployed_instances out) (deployed_nodes out) c w)"

lemma reads_lxd_onlyD:
  assumes "reads_lxd_only C"
  shows "Client_GetClusterMembers C w = (rm, w') \<Longrightarrow> fst w' = fst w"
    and "Client_GetNodeResources C k w = (rr, w') \<Longrightarrow> fst w' = fst w"
    and "Client_ListInstances C w = (ri, w') \<Longrightarrow> fst w' = fst w"
proof -
  show "Client_GetClusterMembers C w = (rm, w') \<Longrightarrow> fst w' = fst w"
    using assms by (elim keeps_dbD [rotated]) (simp add: reads_lxd_only_def)
  show "Client_GetNodeResources C k w = (rr, w') \<Longrightarrow> fst w' = fst w"
    using assms by (elim keeps_dbD [rotated]) (simp add: reads_lxd_only_def)
  show "Client_ListInstances C w = (ri, w') \<Longrightarrow> fst w' = fst w"
    using assms by (elim keeps_dbD [rotated]) (simp add: reads_lxd_only_def)
qed

lemma lxd_reader_db:
  assumes "reads_lxd_only C"
  shows "lxd_reader C (\<lambda>w. f (fst w))"
proof (intro lxd_reader.intro, goal_cases)
  case (1 w r w')
  with reads_lxd_onlyD(1) [OF assms] show ?case by simp
next
  case (2 k w r w')
  with reads_lxd_onlyD(2) [OF assms] show ?case by simp
next
  case (3 w r w')
  with reads_lxd_onlyD(3) [OF assms] show ?case by simp
qed

lemma node_sync_kept:
  assumes "po_plain out" and "pg_ok (fst w)" and "reads_lxd_only C"
    and "Syncer_Sync p C (deployed_nodes out) c w = (r, w')"
  shows "rows_kept (fst w) (fst w')"
proof -
  let ?ok = "\<lambda>v. (po_plain out \<and> pg_ok (fst v)) \<and> (\<lambda>(a, b, _). (a, b)) (pt_clusters (fst v), pt_insts (fst v), snd v) =
      (pt_clusters (fst w), pt_insts (fst w))"
  have "node_syncer (deployed_nodes out) (\<lambda>v. row_of n_ID (pt_nodes (fst v))) ?ok
      (\<lambda>v. (pt_clusters (fst v), pt_insts (fst v), snd v)) C"
    by (intro node_syncer.intro pg_node.fixed)
      (use lxd_reader_db [OF assms(3), of "\<lambda>d. ((po_plain out \<and> pg_ok d) \<and> (pt_clusters d, pt_insts d) =
        (pt_clusters (fst w), pt_insts (fst w)), row_of n_ID (pt_nodes d))"] in simp)
  from node_syncer.Sync_keeps [OF this _ assms(4)] assms(1,2)
  have k: "?ok w' \<and> pg_node.rec.keeps c (row_of n_ID (pt_nodes (fst w))) (row_of n_ID (pt_nodes (fst w')))" by simp
  show ?thesis by (rule nodes_kept [OF assms(2), where c = c]) (use k in simp_all)
qed

lemma instance_sync_kept:
  assumes "po_plain out" and "pg_ok (fst w)" and "reads_lxd_only C"
    and "InstanceSyncer_Sync p C (deployed_instances out) (deployed_nodes out) c w = (r, w')"
  shows "rows_kept (fst w) (fst w')"
proof -
  let ?ok = "\<lambda>v. (po_plain out \<and> pg_ok (fst v)) \<and> (\<lambda>(a, b, _). (a, b)) (pt_clusters (fst v), pt_nodes (fst v), snd v) =
      (pt_clusters (fst w), pt_nodes (fst w))"
  let ?T = "\<lambda>v. row_of i_ID (pt_insts (fst v))" and ?N = "\<lambda>v. row_of n_ID (pt_nodes (fst v))"
  have reader: "lxd_reader C (\<lambda>v. (?ok v, ?T v, ?N v))"
    using lxd_reader_db [OF assms(3), of "\<lambda>d. ((po_plain out \<and> pg_ok d) \<and> (pt_clusters d, pt_nodes d) =
        (pt_clusters (fst w), pt_nodes (fst w)), row_of i_ID (pt_insts d), row_of n_ID (pt_nodes d))"] by simp
  have "instance_syncer (deployed_instances out) ?T ?ok (\<lambda>v. (pt_clusters (fst v), pt_nodes (fst v), snd v)) C ?N
      (deployed_nodes out)"
  proof (intro instance_syncer.intro pg_instance.fixed reader instance_syncer_axioms.intro, goal_cases)
    case (1 v c rn v')
    with pg_node.list_frame [of out v c rn v'] reads_frame(1) [of out c "fst v"] show ?case
      by (auto simp: deployed_nodes_def on_db_eq pg_tables_def)
  next
    case (2 v c ns v')
    with pg_node.list_ok [of out v c ns v'] show ?case by simp
  qed
  from instance_syncer.Sync_keeps [OF this _ assms(4)] assms(1,2)
  have k: "?ok w' \<and> pg_instance.rec.keeps c (?T w) (?T w')" by simp
  show ?thesis by (rule insts_kept [OF assms(2), where c = c]) (use k in simp_all)
qed

lemma placement_kept:
  assumes "po_plain out" and "pg_ok (fst w)"
    and "o_nodeRepo orch = Some (deployed_nodes out)" and "o_instanceRepo orch = Some (deployed_instances out)"
    and "scheduleCluster orch c w = Some (b, w')"
  shows "rows_kept (fst w) (fst w')"
proof (cases "o_scheduler orch")
  case None
  with assms show ?thesis by (simp add: scheduleCluster_def rows_kept_refl)
next
  case (Some sched)
  obtain n w1 where n: "ListNodes (deployed_nodes out) (c_ID c) w = (n, w1)" by (rule that [OF surjective_pairing])
  with assms(1,2) pg_node.list_frame [of out w "c_ID c" n w1] reads_frame(1) [of out "c_ID c" "fst w"]
  have w1: "pg_ok (fst w1)" "pg_tables (fst w1) = pg_tables (fst w)" by (auto simp: deployed_nodes_def on_db_eq)
  obtain i w2 where i: "ListInstances (deployed_instances out) (c_ID c) w1 = (i, w2)" by (rule that [OF surjective_pairing])
  with assms(1) w1 pg_instance.list_frame [of out w1 "c_ID c" i w2] reads_frame(2) [of out "c_ID c" "fst w1"]
  have w2: "pg_ok (fst w2)" "pg_tables (fst w2) = pg_tables (fst w)" by (auto simp: deployed_instances_def on_db_eq)
  show ?thesis
  proof (cases "\<exists>ns is. n = Inr ns \<and> i = Inr is")
    case False
    with assms Some n i w1 w2 show ?thesis
      by (auto simp: scheduleCluster_def split: sum.splits intro: rows_kept_same)
  next
    case True
    then obtain ns L where s: "n = Inr ns" "i = Inr L" by blast
    with assms(3-5) Some n i obtain L' where l: "schedule_loop (deployed_instances out) sched ns [0..<length L] L False w2 = Some (b, L', w')"
      by (auto simp: scheduleCluster_def)
    from pg_instance.list_ok [of out w1 "c_ID c" L w2] assms(1) w1 i s
    have L: "set L = {x \<in> ran (row_of i_ID (pt_insts (fst w1))). i_ClusterID x = c_ID c}" by simp
    have "pg_instance.listed_in L w2"
      unfolding pg_instance.listed_in_def
    proof
      fix x assume "x \<in> set L"
      with L obtain k where k: "row_of i_ID (pt_insts (fst w1)) k = Some x" by (auto simp: ran_def)
      with row_of_Some [OF k] w1(2) w2(2) show "\<exists>cur. row_of i_ID (pt_insts (fst w2)) (i_ID x) = Some cur \<and> inst_ident cur = inst_ident x"
        by (auto simp: pg_tables_def)
    qed
    from pg_instance.schedule_loop_keeps [where c = "c_ID c", OF _ this _ _ l] assms(1) w2(1) L
    have "pg_ok (fst w')" "pt_clusters (fst w') = pt_clusters (fst w2)" "pt_nodes (fst w') = pt_nodes (fst w2)"
      "pg_instance.rec.keeps (c_ID c) (row_of i_ID (pt_insts (fst w2))) (row_of i_ID (pt_insts (fst w')))" by auto
    from insts_kept [OF w2(1) this] have "rows_kept (fst w2) (fst w')" .
    with rows_kept_same [OF assms(2) w2(2)] show ?thesis by (rule rows_kept_trans)
  qed
qed

subsection \<open>Passes\<close>

text \<open>An orchestrator with everything on one PostgreSQL database; what else it calls leaves the database alone.\<close>

definition on_postgres :: "pg_outside \<Rightarrow> (pg \<times> 'x) rand_source \<Rightarrow> (pg \<times> 'x) Orchestrator \<Rightarrow> bool" where
  "on_postgres out rnd orch \<longleftrightarrow>
     o_clusterRepo orch = Some (deployed_clusters out) \<and> o_nodeRepo orch = Some (deployed_nodes out) \<and>
     o_instanceRepo orch = Some (deployed_instances out) \<and>
     (\<forall>s. o_nodeSyncer orch = Some s \<longrightarrow> pg_node_sync out s) \<and>
     (\<forall>s. o_instanceSyncer orch = Some s \<longrightarrow> pg_instance_sync out s) \<and>
     (o_scheduler orch = None \<or> o_scheduler orch = Some BinPacking_Schedule) \<and>
     (\<forall>prov spec. o_provider orch = Some prov \<longrightarrow> keeps_db (ProvisionServer prov spec)) \<and>
     (\<forall>run n cfg. o_bootstrap orch = Some run \<longrightarrow> keeps_db (run n cfg)) \<and> (\<forall>k. keeps_db (rnd k))"

lemma node_step_kept:
  assumes "on_postgres out rnd orch" and "po_plain out" and "pg_ok (fst w)"
  shows "rows_kept (fst w) (fst (sync_step (o_nodeSyncer orch) c w))"
proof (cases "o_nodeSyncer orch")
  case None
  then show ?thesis using assms(3) by (simp add: sync_step_def rows_kept_refl)
next
  case (Some s)
  with assms(1) have "pg_node_sync out s" by (simp add: on_postgres_def)
  then obtain p C where "reads_lxd_only C" "s c w = Syncer_Sync p C (deployed_nodes out) c w" unfolding pg_node_sync_def by blast
  with node_sync_kept [OF assms(2,3), of C p c] Some show ?thesis by (metis option.simps(5) prod.collapse sync_step_def)
qed

lemma instance_step_kept:
  assumes "on_postgres out rnd orch" and "po_plain out" and "pg_ok (fst w)"
  shows "rows_kept (fst w) (fst (sync_step (o_instanceSyncer orch) c w))"
proof (cases "o_instanceSyncer orch")
  case None
  then show ?thesis using assms(3) by (simp add: sync_step_def rows_kept_refl)
next
  case (Some s)
  with assms(1) have "pg_instance_sync out s" by (simp add: on_postgres_def)
  then obtain p C where "reads_lxd_only C" "s c w = InstanceSyncer_Sync p C (deployed_instances out) (deployed_nodes out) c w"
    unfolding pg_instance_sync_def by blast
  with instance_sync_kept [OF assms(2,3), of C p c] Some show ?thesis by (metis option.simps(5) prod.collapse sync_step_def)
qed

lemma rows_keptD: "rows_kept db db' \<Longrightarrow> pg_ok db'"
  by (simp add: rows_kept_def)

lemma cluster_pass_kept:
  assumes pg: "on_postgres out rnd orch" "po_plain out" and ok: "pg_ok (fst w)" and "reconcileCluster rnd orch c w = Some w'"
  shows "rows_kept (fst w) (fst w')"
proof -
  let ?w1 = "sync_step (o_nodeSyncer orch) (c_ID c) w"
  let ?w2 = "sync_step (o_instanceSyncer orch) (c_ID c) ?w1"
  note s1 = node_step_kept [OF pg ok, of "c_ID c"]
  note s2 = instance_step_kept [OF pg rows_keptD [OF s1], of "c_ID c"]
  obtain b w3 where p: "scheduleCluster orch c ?w2 = Some (b, w3)"
    using assms(4) by (auto simp: reconcileCluster_def split: option.splits)
  have "o_nodeRepo orch = Some (deployed_nodes out)" "o_instanceRepo orch = Some (deployed_instances out)"
    using pg(1) by (simp_all add: on_postgres_def)
  note s3 = placement_kept [OF pg(2) rows_keptD [OF s2] this p]
  have "rows_kept (fst w3) (fst w')"
  proof (cases "\<exists>prov. o_provider orch = Some prov \<and> b")
    case True
    then obtain prov where prov: "o_provider orch = Some prov" "b" by blast
    with p assms(4) have w': "w' = executeScaleOut rnd orch prov c w3" by (simp add: reconcileCluster_def Let_def)
    have "pg_tables (fst w') = pg_tables (fst w3)"
      unfolding w' using pg(1) prov(1) by (intro executeScaleOut_pg) (simp_all add: on_postgres_def)
    with rows_keptD [OF s3] show ?thesis by (rule rows_kept_same)
  next
    case False
    with p assms(4) have "w' = w3" by (auto simp: reconcileCluster_def Let_def split: option.splits)
    with rows_keptD [OF s3] show ?thesis by (simp add: rows_kept_refl)
  qed
  with s1 s2 s3 show ?thesis by (blast intro: rows_kept_trans)
qed

lemma passes_kept:
  assumes "on_postgres out rnd orch" and "po_plain out"
  shows "pg_ok (fst w) \<Longrightarrow> reconcile_all rnd orch cs w = Some w' \<Longrightarrow> rows_kept (fst w) (fst w')"
proof (induction cs arbitrary: w)
  case Nil
  then show ?case by (simp add: rows_kept_refl)
next
  case (Cons c cs)
  from Cons.prems(2) obtain w1 where c: "reconcileCluster rnd orch c w = Some w1" and r: "reconcile_all rnd orch cs w1 = Some w'"
    by (auto split: option.splits)
  note s = cluster_pass_kept [OF assms Cons.prems(1) c]
  from rows_kept_trans [OF s Cons.IH [OF rows_keptD [OF s] r]] show ?case .
qed

lemma pass_kept:
  assumes "on_postgres out rnd orch" and "po_plain out" and "pg_ok (fst w)" and "reconcile rnd orch w = Some w'"
  shows "rows_kept (fst w) (fst w')"
proof -
  have C: "o_clusterRepo orch = Some (deployed_clusters out)" using assms(1) by (simp add: on_postgres_def)
  obtain a w1 where l: "ListClusters (deployed_clusters out) w = (a, w1)" by (rule that [OF surjective_pairing])
  then obtain db where "ClusterRepo_ListClusters out (fst w) = (a, db)" "w1 = (db, snd w)"
    by (auto simp: deployed_clusters_def on_db_eq)
  with ListClusters_plain [OF assms(2), of "fst w" a db] have "pg_tables (fst w1) = pg_tables (fst w)" by auto
  note s = rows_kept_same [OF assms(3) this]
  show ?thesis
  proof (cases a)
    case (Inl e)
    with C l assms(4) s show ?thesis by (simp add: reconcile_def)
  next
    case (Inr cs)
    with C l assms(4) have "reconcile_all rnd orch cs w1 = Some w'" by (simp add: reconcile_def)
    from rows_kept_trans [OF s passes_kept [OF assms(1,2) rows_keptD [OF s] this]] show ?thesis .
  qed
qed

section \<open>Properties\<close>

text \<open>C2. Any number of passes of an orchestrator on PostgreSQL, with both syncs, the scheduler, a provider and a
  bootstrap, run to their end on a plain database, whatever LXD, provider and bootstrap answer and whichever
  statement fails. The tables stay consistent, the clusters stay as they are, and no node and no instance is lost:
  each keeps its row with its ID, cluster, name and creation time, a node its server ID and LXD name, an instance its type
  and its limits.\<close>

theorem pg_passes_keep_rows:
  assumes "on_postgres out rnd orch" and "po_plain out" and "pg_ok (fst w)"
  shows "\<exists>w'. orchestrator_run rnd orch n w = Some w' \<and> pg_ok (fst w') \<and> pt_clusters (fst w') = pt_clusters (fst w) \<and>
     (\<forall>old \<in> set (pt_nodes (fst w)). \<exists>new \<in> set (pt_nodes (fst w')). node_ident new = node_ident old) \<and>
     (\<forall>old \<in> set (pt_insts (fst w)). \<exists>new \<in> set (pt_insts (fst w')). inst_ident new = inst_ident old)"
proof -
  have "\<exists>w'. orchestrator_run rnd orch n w = Some w' \<and> rows_kept (fst w) (fst w')" using assms(3)
  proof (induction n arbitrary: w)
    case 0
    then show ?case by (simp add: rows_kept_refl)
  next
    case (Suc n)
    have "o_scheduler orch = None \<or> o_scheduler orch = Some BinPacking_Schedule" using assms(1) by (simp add: on_postgres_def)
    from reconcile_total [OF this, of rnd w] obtain w1 where r: "reconcile rnd orch w = Some w1" by blast
    note s = pass_kept [OF assms(1,2) Suc.prems r]
    from Suc.IH [OF rows_keptD [OF s]] obtain w' where "orchestrator_run rnd orch n w1 = Some w'" "rows_kept (fst w1) (fst w')" by blast
    with r rows_kept_trans [OF s] show ?case by auto
  qed
  then show ?thesis unfolding rows_kept_def by blast
qed

subsection \<open>A concrete run\<close>

definition ex_pass_orch :: "(pg \<times> Fake) Orchestrator" where
  "ex_pass_orch = fold (\<lambda>opt orch. opt orch)
     [WithClusterRepository (deployed_clusters ex_pgo), WithNodeRepository (deployed_nodes ex_pgo),
      WithInstanceRepository (deployed_instances ex_pgo), WithNodeSyncer (Syncer_Sync 0 ex_pg_client (deployed_nodes ex_pgo)),
      WithInstanceSyncer (InstanceSyncer_Sync 0 ex_pg_client (deployed_instances ex_pgo) (deployed_nodes ex_pgo)),
      WithScheduler BinPacking_Schedule,
      WithProvider \<lparr>ProvisionServer = (\<lambda>spec w. (Inr ''42'', w)), DeprovisionServer = (\<lambda>k w. (None, w)),
        GetServer = (\<lambda>k w. (Inl (Sentinel (ProviderErr ErrServerNotFound)), w)), ListServers = (\<lambda>w. (Inr [], w))\<rparr>]
     new_orchestrator"

theorem pg_passes_keep_rows_witness:
  "\<exists>w'. orchestrator_run (\<lambda>k w. (Inr (replicate k 0), w)) ex_pass_orch 3 (ex_pg2, New) = Some w' \<and>
     (\<exists>n \<in> set (pt_nodes (fst w')). n_ID n = ''aa'' \<and> n_Name n = ''n1'')"
proof -
  let ?rnd = "\<lambda>k (w :: pg \<times> Fake). (Inr (replicate k 0) :: byte list res, w)"
  have "on_postgres ex_pgo ?rnd ex_pass_orch"
    unfolding on_postgres_def pg_node_sync_def pg_instance_sync_def
    using ex_pg_client_reads by (auto simp: ex_pass_orch_def WithClusterRepository_def WithNodeRepository_def
      WithInstanceRepository_def WithNodeSyncer_def WithInstanceSyncer_def WithScheduler_def WithProvider_def
      new_orchestrator_def keeps_db_def)
  moreover have "po_plain ex_pgo" by (simp add: po_plain_def ex_pgo_def)
  moreover have "pg_ok (fst (ex_pg2, New))" using pg_reachable_ok [OF ex_pg2_reachable] by simp
  ultimately obtain w' where r: "orchestrator_run ?rnd ex_pass_orch 3 (ex_pg2, New) = Some w'"
    and k: "\<forall>old \<in> set (pt_nodes ex_pg2). \<exists>new \<in> set (pt_nodes (fst w')). node_ident new = node_ident old"
    using pg_passes_keep_rows [of ex_pgo ?rnd ex_pass_orch "(ex_pg2, New)" 3] by auto
  obtain new where n: "new \<in> set (pt_nodes (fst w'))"
    "node_ident new = node_ident (ex_pg_node\<lparr>n_ID := ''aa'', n_CreatedAt := 1, n_UpdatedAt := 1\<rparr>)"
    using k by (auto simp: ex_pg2_eq)
  from node_ident_fields [OF n(2)] have "n_ID new = ''aa''" "n_Name new = ''n1''" by (simp_all add: ex_pg_node_def zero_node_def)
  with r n(1) show ?thesis by blast
qed

end
