(* ===== verification/Postgres_Rows.thy ===== *)
theory Postgres_Rows
  imports Postgres
begin

section \<open>Rows as the server stores them\<close>

text \<open>
  In \<open>Postgres\<close> a row is the model's record. Here it is what the columns hold, and the methods' way there and back:
  \<open>json.Marshal\<close> and \<open>jsonb\<close>, \<open>NULLIF\<close> and \<open>COALESCE\<close>, INTEGER columns of 32 bits, and the \<open>scan\<close> functions. The lemmas
  say that the rows of \<open>Postgres\<close> are these rows as the queries read them. The JSON codec is outside: \<open>js_Marshal\<close> and
  \<open>js_Unmarshal\<close> are \<open>encoding/json\<close>, \<open>js_jsonb\<close> is the text that the server returns for a stored document.
\<close>

record json_codec =
  js_Marshal :: "json_map \<Rightarrow> string res"
  js_jsonb :: "string \<Rightarrow> string"
  js_Unmarshal :: "string \<Rightarrow> json_map res"

record cluster_row =
  cw_id :: string
  cw_name :: string
  cw_lxd_endpoint :: string
  cw_hyperscaler_provider :: string
  cw_hyperscaler_config :: string
  cw_scaling_config :: string
  cw_status :: string
  cw_created_at :: time
  cw_updated_at :: time

record node_row =
  nw_id :: string
  nw_cluster_id :: string
  nw_name :: string
  nw_lxd_member_name :: string
  nw_hyperscaler_server_id :: "string option"
  nw_cpu_cores :: "32 word"
  nw_memory_bytes :: int64
  nw_disk_bytes :: int64
  nw_status :: string
  nw_created_at :: time
  nw_updated_at :: time

record inst_row =
  iw_id :: string
  iw_cluster_id :: string
  iw_node_id :: "string option"
  iw_name :: string
  iw_instance_type :: string
  iw_status :: string
  iw_cpu_limit :: "32 word"
  iw_memory_limit :: int64
  iw_disk_limit :: int64
  iw_config :: string
  iw_created_at :: time
  iw_updated_at :: time

definition NULLIF :: "'a \<Rightarrow> 'a \<Rightarrow> 'a option" where
  "NULLIF x y = (if x = y then None else Some x)"

definition COALESCE :: "'a option \<Rightarrow> 'a \<Rightarrow> 'a" where
  "COALESCE x y = (case x of None \<Rightarrow> y | Some v \<Rightarrow> v)"

lemma COALESCE_NULLIF [simp]: "COALESCE (NULLIF x y) y = x"
  by (simp add: NULLIF_def COALESCE_def)

subsection \<open>Reading\<close>

definition scanCluster :: "json_codec \<Rightarrow> cluster_row \<Rightarrow> cluster res" where
  "scanCluster J s =
     (case js_Unmarshal J (cw_hyperscaler_config s) of
        Inl err \<Rightarrow> Inl (Wrapf ''unmarshal hyperscaler_config: %w'' [] err)
      | Inr hyperscalerConfig \<Rightarrow>
          (case js_Unmarshal J (cw_scaling_config s) of
             Inl err \<Rightarrow> Inl (Wrapf ''unmarshal scaling_config: %w'' [] err)
           | Inr scalingConfig \<Rightarrow>
               Inr \<lparr>c_ID = cw_id s, c_Name = cw_name s, c_LXDEndpoint = cw_lxd_endpoint s,
                 c_HyperscalerProvider = cw_hyperscaler_provider s, c_HyperscalerConfig = hyperscalerConfig,
                 c_ScalingConfig = scalingConfig, c_Status = cw_status s, c_CreatedAt = cw_created_at s,
                 c_UpdatedAt = cw_updated_at s\<rparr>))"

definition scanNode :: "node_row \<Rightarrow> node" where
  "scanNode s = \<lparr>n_ID = nw_id s, n_ClusterID = nw_cluster_id s, n_Name = nw_name s, n_LXDMemberName = nw_lxd_member_name s,
     n_HyperscalerServerID = COALESCE (nw_hyperscaler_server_id s) '''', n_CPUCores = scast (nw_cpu_cores s),
     n_MemoryBytes = nw_memory_bytes s, n_DiskBytes = nw_disk_bytes s, n_Status = nw_status s,
     n_CreatedAt = nw_created_at s, n_UpdatedAt = nw_updated_at s\<rparr>"

definition scanInstance :: "json_codec \<Rightarrow> inst_row \<Rightarrow> inst res" where
  "scanInstance J s =
     (case js_Unmarshal J (iw_config s) of
        Inl err \<Rightarrow> Inl (Wrapf ''unmarshal config: %w'' [] err)
      | Inr config \<Rightarrow>
          Inr \<lparr>i_ID = iw_id s, i_ClusterID = iw_cluster_id s, i_NodeID = COALESCE (iw_node_id s) '''', i_Name = iw_name s,
            i_InstanceType = iw_instance_type s, i_Status = iw_status s, i_CPULimit = scast (iw_cpu_limit s),
            i_MemoryLimit = iw_memory_limit s, i_DiskLimit = iw_disk_limit s, i_Config = config,
            i_CreatedAt = iw_created_at s, i_UpdatedAt = iw_updated_at s\<rparr>)"

subsection \<open>Writing\<close>

text \<open>The row of an INSERT, with the ID and the time that the server gives it.\<close>

definition insert_cluster :: "json_codec \<Rightarrow> cluster \<Rightarrow> string \<Rightarrow> time \<Rightarrow> cluster_row res" where
  "insert_cluster J c gen now =
     (case js_Marshal J (c_HyperscalerConfig c) of
        Inl err \<Rightarrow> Inl (Wrapf ''ClusterRepo.CreateCluster marshal hyperscaler_config: %w'' [] err)
      | Inr hyperscalerConfigJSON \<Rightarrow>
          (case js_Marshal J (c_ScalingConfig c) of
             Inl err \<Rightarrow> Inl (Wrapf ''ClusterRepo.CreateCluster marshal scaling_config: %w'' [] err)
           | Inr scalingConfigJSON \<Rightarrow>
               Inr \<lparr>cw_id = gen, cw_name = c_Name c, cw_lxd_endpoint = c_LXDEndpoint c,
                 cw_hyperscaler_provider = c_HyperscalerProvider c,
                 cw_hyperscaler_config = js_jsonb J hyperscalerConfigJSON,
                 cw_scaling_config = js_jsonb J scalingConfigJSON, cw_status = c_Status c,
                 cw_created_at = now, cw_updated_at = now\<rparr>))"

definition insert_node :: "node \<Rightarrow> string \<Rightarrow> time \<Rightarrow> node_row" where
  "insert_node n gen now = \<lparr>nw_id = gen, nw_cluster_id = n_ClusterID n, nw_name = n_Name n,
     nw_lxd_member_name = n_LXDMemberName n, nw_hyperscaler_server_id = NULLIF (n_HyperscalerServerID n) '''',
     nw_cpu_cores = ucast (n_CPUCores n), nw_memory_bytes = n_MemoryBytes n, nw_disk_bytes = n_DiskBytes n,
     nw_status = n_Status n, nw_created_at = now, nw_updated_at = now\<rparr>"

definition insert_instance :: "json_codec \<Rightarrow> inst \<Rightarrow> string \<Rightarrow> time \<Rightarrow> inst_row res" where
  "insert_instance J i gen now =
     (case js_Marshal J (i_Config i) of
        Inl err \<Rightarrow> Inl (Wrapf ''InstanceRepo.CreateInstance marshal config: %w'' [] err)
      | Inr configJSON \<Rightarrow>
          Inr \<lparr>iw_id = gen, iw_cluster_id = i_ClusterID i, iw_node_id = NULLIF (i_NodeID i) '''', iw_name = i_Name i,
            iw_instance_type = i_InstanceType i, iw_status = i_Status i, iw_cpu_limit = ucast (i_CPULimit i),
            iw_memory_limit = i_MemoryLimit i, iw_disk_limit = i_DiskLimit i, iw_config = js_jsonb J configJSON,
            iw_created_at = now, iw_updated_at = now\<rparr>)"

text \<open>The row that an UPDATE leaves: every column but the ID and the creation time.\<close>

definition update_cluster :: "json_codec \<Rightarrow> cluster \<Rightarrow> time \<Rightarrow> cluster_row \<Rightarrow> cluster_row res" where
  "update_cluster J c now row =
     (case js_Marshal J (c_HyperscalerConfig c) of
        Inl err \<Rightarrow> Inl (Wrapf ''ClusterRepo.UpdateCluster marshal hyperscaler_config: %w'' [] err)
      | Inr hyperscalerConfigJSON \<Rightarrow>
          (case js_Marshal J (c_ScalingConfig c) of
             Inl err \<Rightarrow> Inl (Wrapf ''ClusterRepo.UpdateCluster marshal scaling_config: %w'' [] err)
           | Inr scalingConfigJSON \<Rightarrow>
               Inr (row\<lparr>cw_name := c_Name c, cw_lxd_endpoint := c_LXDEndpoint c,
                 cw_hyperscaler_provider := c_HyperscalerProvider c,
                 cw_hyperscaler_config := js_jsonb J hyperscalerConfigJSON,
                 cw_scaling_config := js_jsonb J scalingConfigJSON, cw_status := c_Status c, cw_updated_at := now\<rparr>)))"

definition update_node :: "node \<Rightarrow> time \<Rightarrow> node_row \<Rightarrow> node_row" where
  "update_node n now row = row\<lparr>nw_cluster_id := n_ClusterID n, nw_name := n_Name n,
     nw_lxd_member_name := n_LXDMemberName n, nw_hyperscaler_server_id := NULLIF (n_HyperscalerServerID n) '''',
     nw_cpu_cores := ucast (n_CPUCores n), nw_memory_bytes := n_MemoryBytes n, nw_disk_bytes := n_DiskBytes n,
     nw_status := n_Status n, nw_updated_at := now\<rparr>"

definition update_instance :: "json_codec \<Rightarrow> inst \<Rightarrow> time \<Rightarrow> inst_row \<Rightarrow> inst_row res" where
  "update_instance J i now row =
     (case js_Marshal J (i_Config i) of
        Inl err \<Rightarrow> Inl (Wrapf ''InstanceRepo.UpdateInstance marshal config: %w'' [] err)
      | Inr configJSON \<Rightarrow>
          Inr (row\<lparr>iw_cluster_id := i_ClusterID i, iw_node_id := NULLIF (i_NodeID i) '''', iw_name := i_Name i,
            iw_instance_type := i_InstanceType i, iw_status := i_Status i, iw_cpu_limit := ucast (i_CPULimit i),
            iw_memory_limit := i_MemoryLimit i, iw_disk_limit := i_DiskLimit i, iw_config := js_jsonb J configJSON,
            iw_updated_at := now\<rparr>))"

text \<open>\<open>ON DELETE SET NULL\<close> on the row.\<close>

definition unplace_row :: "time \<Rightarrow> string set \<Rightarrow> inst_row \<Rightarrow> inst_row" where
  "unplace_row now gone row =
     (case iw_node_id row of
        None \<Rightarrow> row
      | Some n \<Rightarrow> if n \<in> gone then row\<lparr>iw_node_id := None, iw_updated_at := now\<rparr> else row)"

section \<open>The rows of \<open>Postgres\<close> are these rows\<close>

text \<open>A document that the codec and the server bring back as it was.\<close>

definition json_kept :: "json_codec \<Rightarrow> json_map \<Rightarrow> bool" where
  "json_kept J m \<longleftrightarrow> (\<exists>t. js_Marshal J m = Inr t \<and> js_Unmarshal J (js_jsonb J t) = Inr m)"

lemma int4_kept:
  assumes "is_int4 x"
  shows "scast (ucast x :: 32 word) = x"
proof -
  have "sint (ucast x :: 32 word) = signed_take_bit 31 (sint x)"
    by transfer (simp add: signed_take_bit_take_bit min_def flip: take_bit_signed_take_bit)
  also have "\<dots> = sint x" using assms by (intro signed_take_bit_int_eq_self) (simp_all add: is_int4_def)
  finally show ?thesis by (simp add: scast_eq)
qed

lemmas writes = insert_cluster_def insert_node_def insert_instance_def update_cluster_def update_node_def update_instance_def

lemmas scans = scanCluster_def scanNode_def scanInstance_def

lemma cluster_row_kept:
  assumes "json_kept J (c_HyperscalerConfig c)" and "json_kept J (c_ScalingConfig c)"
  shows "\<exists>row. insert_cluster J c gen now = Inr row \<and>
      scanCluster J row = Inr (c\<lparr>c_ID := gen, c_CreatedAt := now, c_UpdatedAt := now\<rparr>)"
    and "scanCluster J row = Inr old \<Longrightarrow> \<exists>row'. update_cluster J c now row = Inr row' \<and>
      scanCluster J row' = Inr (c\<lparr>c_ID := c_ID old, c_CreatedAt := c_CreatedAt old, c_UpdatedAt := now\<rparr>)"
  using assms by (auto simp: json_kept_def writes scans split: sum.splits)

lemma node_row_kept:
  assumes "is_int4 (n_CPUCores n)"
  shows "scanNode (insert_node n gen now) = n\<lparr>n_ID := gen, n_CreatedAt := now, n_UpdatedAt := now\<rparr>"
    and "scanNode (update_node n now row) =
      n\<lparr>n_ID := n_ID (scanNode row), n_CreatedAt := n_CreatedAt (scanNode row), n_UpdatedAt := now\<rparr>"
  by (simp_all add: writes scans int4_kept [OF assms])

lemma inst_row_kept:
  assumes "json_kept J (i_Config i)" and "is_int4 (i_CPULimit i)"
  shows "\<exists>row. insert_instance J i gen now = Inr row \<and>
      scanInstance J row = Inr (i\<lparr>i_ID := gen, i_CreatedAt := now, i_UpdatedAt := now\<rparr>)"
    and "scanInstance J row = Inr old \<Longrightarrow> \<exists>row'. update_instance J i now row = Inr row' \<and>
      scanInstance J row' = Inr (i\<lparr>i_ID := i_ID old, i_CreatedAt := i_CreatedAt old, i_UpdatedAt := now\<rparr>)"
  using assms(1) int4_kept [OF assms(2)] by (auto simp: json_kept_def writes scans split: sum.splits)

text \<open>Clearing the node of an instance, where no node has the empty ID.\<close>

lemma unplace_row_kept:
  assumes "scanInstance J row = Inr i" and "'''' \<notin> gone"
  shows "scanInstance J (unplace_row now gone row) = Inr (unplace now gone i)"
  using assms by (auto simp: scans unplace_row_def unplace_def COALESCE_def split: sum.splits option.splits)

section \<open>Properties\<close>


definition ex_codec :: json_codec where
  "ex_codec = \<lparr>js_Marshal = (\<lambda>m. Inr (case m of None \<Rightarrow> ''null'' | Some f \<Rightarrow> case f ''k'' of Some (JString s) \<Rightarrow> s | _ \<Rightarrow> ''{}'')),
     js_jsonb = (\<lambda>t. t), js_Unmarshal = (\<lambda>t. Inr (if t = ''null'' then None else Some [''k'' \<mapsto> JString t]))\<rparr>"


end
