(* ===== verification/Manager_Config.thy ===== *)
theory Manager_Config
  imports Go_Strings Go_Strconv Float64 "HOL-Library.Code_Target_Nat"
begin

section \<open>Durations in text (time.ParseDuration)\<close>

text \<open>
  \<open>time.ParseDuration\<close> as the standard library computes it: an optional sign, then terms of a decimal number
  with a unit. A term is a 64-bit count of nanoseconds; the part after the point goes through \<open>float64\<close>. The
  sum is kept modulo \<open>2 ^ 64\<close>, as the code adds in \<open>uint64\<close>.
\<close>

type_synonym duration = int

definition bad_duration :: "string \<Rightarrow> go_error" where
  "bad_duration s = Errorf ''time: invalid duration %q'' [s]"

text \<open>\<open>leadingInt\<close>: the number at the front, \<open>None\<close> when it exceeds \<open>2 ^ 63\<close>.\<close>

fun leading_int :: "string \<Rightarrow> nat \<Rightarrow> (nat \<times> string) option" where
  "leading_int [] x = Some (x, [])"
| "leading_int (c # cs) x =
     (case char_digit c of
        None \<Rightarrow> Some (x, c # cs)
      | Some d \<Rightarrow>
          if 2 ^ 63 div 10 < x then None
          else if 2 ^ 63 < 10 * x + d then None else leading_int cs (10 * x + d))"

text \<open>\<open>leadingFraction\<close>: the digits after the point as a number over a power of ten; digits past the range are
  skipped.\<close>

fun leading_fraction :: "string \<Rightarrow> nat \<Rightarrow> nat \<Rightarrow> bool \<Rightarrow> nat \<times> nat \<times> string" where
  "leading_fraction [] x scale overflow = (x, scale, [])"
| "leading_fraction (c # cs) x scale overflow =
     (case char_digit c of
        None \<Rightarrow> (x, scale, c # cs)
      | Some d \<Rightarrow>
          if overflow \<or> (2 ^ 63 - 1) div 10 < x \<or> 2 ^ 63 < 10 * x + d then leading_fraction cs x scale True
          else leading_fraction cs (10 * x + d) (10 * scale) False)"

definition unitMap :: "string \<Rightarrow> nat option" where
  "unitMap = map_of
     [(''ns'', 1), (''us'', 10 ^ 3), (bytes_string [194, 181] @ ''s'', 10 ^ 3), (bytes_string [206, 188] @ ''s'', 10 ^ 3),
      (''ms'', 10 ^ 6), (''s'', 10 ^ 9), (''m'', 60 * 10 ^ 9), (''h'', 3600 * 10 ^ 9)]"

text \<open>\<open>uint64(float64(f) * (float64(unit) / scale))\<close>\<close>

definition fraction_of_unit :: "nat \<Rightarrow> nat \<Rightarrow> nat \<Rightarrow> nat" where
  "fraction_of_unit f scale unit =
     nat \<lfloor>f64_round (f64_round (of_nat f) * f64_div (f64_round (of_nat unit)) (of_nat scale))\<rfloor>"

text \<open>One round of the loop: the term at the front, in nanoseconds, and what follows it.\<close>

definition starts_number :: "string \<Rightarrow> bool" where
  "starts_number s \<longleftrightarrow> s \<noteq> '''' \<and> (hd s = CHR ''.'' \<or> char_digit (hd s) \<noteq> None)"

definition duration_unit :: "string \<Rightarrow> string" where
  "duration_unit s = takeWhile (\<lambda>c. \<not> (c = CHR ''.'' \<or> char_digit c \<noteq> None)) s"

definition duration_term :: "string \<Rightarrow> (nat \<times> string) option" where
  "duration_term s =
     (if \<not> starts_number s then None
      else
        (case leading_int s 0 of
           None \<Rightarrow> None
         | Some (v, s1) \<Rightarrow>
             (let pre = (length s1 \<noteq> length s);
                  point = (s1 \<noteq> '''' \<and> hd s1 = CHR ''.'');
                  (f, scale, s2) = (if point then leading_fraction (tl s1) 0 1 False else (0, 1, s1));
                  post = (point \<and> length s2 \<noteq> length (tl s1));
                  u = duration_unit s2
              in if \<not> pre \<and> \<not> post then None
                 else if u = '''' then None
                 else
                   (case unitMap u of
                      None \<Rightarrow> None
                    | Some unit \<Rightarrow>
                        if 2 ^ 63 div unit < v then None
                        else
                          (let v' = v * unit + (if 0 < f then fraction_of_unit f scale unit else 0)
                           in if 0 < f \<and> 2 ^ 63 < v' then None else Some (v', drop (length u) s2))))))"

lemma leading_int_length: "leading_int s x = Some (v, s') \<Longrightarrow> length s' \<le> length s"
  by (induction s x rule: leading_int.induct) (auto split: option.splits if_splits)

lemma leading_fraction_length: "leading_fraction s x k b = (f, scale, s') \<Longrightarrow> length s' \<le> length s"
  by (induction s x k b rule: leading_fraction.induct) (auto split: option.splits if_splits)

lemma duration_term_shorter:
  assumes "duration_term s = Some (v, s')"
  shows "length s' < length s"
proof -
  from assms obtain n s1 f scale s2 where i: "leading_int s 0 = Some (n, s1)"
    and s2: "(if s1 \<noteq> '''' \<and> hd s1 = CHR ''.'' then leading_fraction (tl s1) 0 1 False else (0, 1, s1)) = (f, scale, s2)"
    and u: "duration_unit s2 \<noteq> ''''" and s': "s' = drop (length (duration_unit s2)) s2"
    by (auto simp: duration_term_def Let_def split: option.splits if_splits prod.splits)
  from s2 have "length s2 \<le> length s1"
    by (cases s1) (auto split: if_splits dest!: leading_fraction_length)
  moreover have "length s1 \<le> length s" using i by (rule leading_int_length)
  moreover have "length s' < length s2"
    using u by (cases s2) (auto simp: s' duration_unit_def)
  ultimately show ?thesis by simp
qed

function duration_terms :: "string \<Rightarrow> nat \<Rightarrow> nat option" where
  "duration_terms s d =
     (if s = '''' then Some d
      else
        (case duration_term s of
           None \<Rightarrow> None
         | Some (v, s') \<Rightarrow>
             (let d' = (d + v) mod 2 ^ 64 in if 2 ^ 63 < d' then None else duration_terms s' d')))"
  by pat_completeness auto
termination by (relation "measure (length \<circ> fst)") (auto dest: duration_term_shorter)

declare duration_terms.simps [simp del]

definition ParseDuration :: "string \<Rightarrow> duration res" where
  "ParseDuration s =
     (let neg = (s \<noteq> '''' \<and> hd s = CHR ''-'');
          s1 = (if s \<noteq> '''' \<and> (hd s = CHR ''-'' \<or> hd s = CHR ''+'') then tl s else s)
      in if s1 = ''0'' then Inr 0
         else if s1 = '''' then Inl (bad_duration s)
         else
           (case duration_terms s1 0 of
              None \<Rightarrow> Inl (bad_duration s)
            | Some d \<Rightarrow>
                if neg then Inr (- int d) else if 2 ^ 63 - 1 < d then Inl (bad_duration s) else Inr (int d)))"

section \<open>Configuration (internal/config)\<close>

text \<open>
  The environment is a map; \<open>os.Getenv\<close> gives the empty string for an unset variable. \<open>Load\<close> is \<open>None\<close> when it
  panics.
\<close>

record manager_config =
  mc_HTTPAddr :: string
  mc_DatabaseURL :: string
  mc_LogLevel :: string
  mc_ReconcileInterval :: duration
  mc_ShutdownTimeout :: duration
  mc_APIKeys :: "string list"
  mc_HetznerAPIToken :: string
  mc_InitialBootstrapEnabled :: bool

type_synonym environ = "string \<Rightarrow> string option"

definition Getenv :: "environ \<Rightarrow> string \<Rightarrow> string" where
  "Getenv env k = (case env k of None \<Rightarrow> '''' | Some v \<Rightarrow> v)"

definition envOr :: "environ \<Rightarrow> string \<Rightarrow> string \<Rightarrow> string" where
  "envOr env k fallback = (let v = Getenv env k in if v \<noteq> '''' then v else fallback)"

definition mustParseDuration :: "string \<Rightarrow> duration option" where
  "mustParseDuration s = (case ParseDuration s of Inl _ \<Rightarrow> None | Inr d \<Rightarrow> Some d)"

definition splitNonEmpty :: "string \<Rightarrow> char \<Rightarrow> string list" where
  "splitNonEmpty s sep = (if s = '''' then [] else filter (\<lambda>t. t \<noteq> '''') (map TrimSpace (Split s sep)))"

definition config_errors :: "manager_config \<Rightarrow> go_error list" where
  "config_errors c =
     (if mc_DatabaseURL c = '''' then [Errors_New ''DATABASE_URL is required''] else []) @
     (if mc_LogLevel c \<in> {''debug'', ''info'', ''warn'', ''error''} then []
      else [Errorf ''LOG_LEVEL must be one of debug|info|warn|error, got %q'' [mc_LogLevel c]]) @
     (if mc_ReconcileInterval c \<le> 0 then [Errors_New ''RECONCILE_INTERVAL must be a positive duration''] else []) @
     (if mc_ShutdownTimeout c \<le> 0 then [Errors_New ''SHUTDOWN_TIMEOUT must be a positive duration''] else []) @
     (if mc_APIKeys c = [] then [Errors_New ''API_KEYS is required: provide at least one bcrypt-hashed API key''] else [])"

definition Config_validate :: "manager_config \<Rightarrow> go_error option" where
  "Config_validate c = errors_join (config_errors c)"

definition config_of_env :: "environ \<Rightarrow> duration \<Rightarrow> duration \<Rightarrow> manager_config" where
  "config_of_env env interval timeout =
     \<lparr>mc_HTTPAddr = envOr env ''HTTP_ADDR'' '':8080'',
      mc_DatabaseURL = Getenv env ''DATABASE_URL'',
      mc_LogLevel = envOr env ''LOG_LEVEL'' ''info'',
      mc_ReconcileInterval = interval,
      mc_ShutdownTimeout = timeout,
      mc_APIKeys = splitNonEmpty (Getenv env ''API_KEYS'') (CHR '',''),
      mc_HetznerAPIToken = Getenv env ''HETZNER_API_TOKEN'',
      mc_InitialBootstrapEnabled = EqualFold (Getenv env ''INITIAL_BOOTSTRAP_ENABLED'') ''true''\<rparr>"

definition Load :: "environ \<Rightarrow> manager_config res option" where
  "Load env =
     (case mustParseDuration (envOr env ''RECONCILE_INTERVAL'' ''60s'') of
        None \<Rightarrow> None
      | Some interval \<Rightarrow>
          (case mustParseDuration (envOr env ''SHUTDOWN_TIMEOUT'' ''30s'') of
             None \<Rightarrow> None
           | Some timeout \<Rightarrow>
               (let cfg = config_of_env env interval timeout
                in Some (case Config_validate cfg of
                           Some err \<Rightarrow> Inl (Wrapf ''invalid configuration: %w'' [] err)
                         | None \<Rightarrow> Inr cfg))))"

section \<open>Properties\<close>

lemma leading_int_digits:
  assumes "digits_value ds x = Some n" and "n \<le> 2 ^ 63" and "rest = [] \<or> char_digit (hd rest) = None"
  shows "leading_int (ds @ rest) x = Some (n, rest)"
  using assms
proof (induction ds arbitrary: x)
  case Nil
  then show ?case by (cases rest) auto
next
  case (Cons c cs)
  then obtain d where d: "char_digit c = Some d" "digits_value cs (10 * x + d) = Some n" by (auto split: option.splits)
  have "a \<le> b" if "digits_value zs a = Some b" for zs a b
    using that by (induction zs arbitrary: a) (fastforce split: option.splits)+
  with d(2) Cons.prems(2) have "10 * x + d \<le> 2 ^ 63" by fastforce
  with d Cons show ?case by simp
qed

lemma is_dot: "c = CHR ''.'' \<longleftrightarrow> of_char c = (46 :: nat)" "CHR ''.'' = c \<longleftrightarrow> of_char c = (46 :: nat)"
  using of_char_eq_iff [of c "CHR ''.''", where ?'a = nat] by auto

lemma unit_letters:
  assumes "unitMap u = Some k"
  shows "u \<noteq> ''''" and "char_digit (hd u) = None" and "hd u \<noteq> CHR ''.''" and "0 < k" and "duration_unit u = u"
  using assms
  by (auto simp: unitMap_def duration_unit_def bytes_string_def char_digit_def Let_def is_dot split: if_splits)

text \<open>
  A whole number with a unit is read as that many nanoseconds, for every unit and up to the largest 64-bit duration.
\<close>

theorem ParseDuration_whole:
  assumes "unitMap u = Some k" and "n * k < 2 ^ 63"
  shows "ParseDuration (nat_digits n @ u) = Inr (int (n * k))"
proof -
  note u = unit_letters [OF assms(1)]
  obtain e es where d: "e < 10" "nat_digits n = digit_char e # es" using hd_nat_digits by blast
  have "n * 1 \<le> n * k" using u(4) by (intro mult_le_mono2) simp
  with assms(2) have n: "n \<le> 2 ^ 63" by linarith
  have v: "leading_int (nat_digits n @ u) 0 = Some (n, u)"
    using digits_value_nat n u(2) by (intro leading_int_digits) auto
  have "n \<le> 2 ^ 63 div k" using assms(2) u(4) by (simp add: less_eq_div_iff_mult_less_eq)
  then have t: "duration_term (nat_digits n @ u) = Some (n * k, [])"
    using u v d assms(1) char_digit_of [OF d(1)] by (simp add: duration_term_def starts_number_def)
  have "duration_terms (nat_digits n @ u) 0 = Some (n * k)"
    using d(2) t assms(2) by (subst duration_terms.simps, subst duration_terms.simps) (simp add: Let_def)
  moreover have "nat_digits n @ u \<noteq> ''0''" using d(2) u(1) by (cases es) auto
  ultimately show ?thesis
    using d digit_char_sign [OF d(1)] assms(2) u(1) by (simp add: ParseDuration_def Let_def)
qed

theorem ParseDuration_whole_witness: "ParseDuration ''90s'' = Inr 90000000000"
proof -
  have "nat_digits 90 @ ''s'' = ''90s''" by code_simp
  moreover have "unitMap ''s'' = Some (10 ^ 9)" by (simp add: unitMap_def bytes_string_def)
  ultimately show ?thesis using ParseDuration_whole [of "''s''" "10 ^ 9" 90] by simp
qed

lemma ParseDuration_range:
  assumes "ParseDuration s = Inr d"
  shows "- (2 ^ 63) \<le> d \<and> d < 2 ^ 63"
proof -
  have "d' \<le> 2 ^ 63" if "duration_terms t d0 = Some d'" "d0 \<le> 2 ^ 63" for t d0 d'
    using that
    by (induction t d0 rule: duration_terms.induct)
      (subst (asm) (2) duration_terms.simps, auto simp: Let_def split: if_splits option.splits)
  note r = this [of _ 0]
  from assms r show ?thesis
    by (fastforce simp: ParseDuration_def Let_def split: if_splits option.splits)
qed

lemma splitNonEmpty_keys:
  assumes "k \<in> set (splitNonEmpty s sep)"
  shows "k \<noteq> ''''" and "sep \<notin> set k" and "TrimSpace k = k"
proof -
  from assms obtain part where p: "part \<in> set (Split s sep)" "k = TrimSpace part" "k \<noteq> ''''"
    by (auto simp: splitNonEmpty_def split: if_splits)
  then show "k \<noteq> ''''" "TrimSpace k = k" by (simp_all add: TrimSpace_idem)
  from p(2) TrimSpace_sublist [of part] have "set k \<subseteq> set part" by (simp add: set_mono_sublist)
  with Split_no_sep [OF p(1)] show "sep \<notin> set k" by auto
qed

text \<open>C29. Every configuration that \<open>Load\<close> returns is usable: a database URL, a known log level, positive durations in
  range, and at least one API key hash, each non-empty, trimmed and free of commas.
\<close>

theorem load_valid:
  assumes "Load env = Some (Inr cfg)"
  shows "mc_DatabaseURL cfg \<noteq> '''' \<and> mc_LogLevel cfg \<in> {''debug'', ''info'', ''warn'', ''error''} \<and>
    mc_ReconcileInterval cfg \<in> {0 <..< 2 ^ 63} \<and> mc_ShutdownTimeout cfg \<in> {0 <..< 2 ^ 63} \<and>
    mc_APIKeys cfg \<noteq> [] \<and> mc_HTTPAddr cfg \<noteq> '''' \<and>
    (\<forall>k \<in> set (mc_APIKeys cfg). k \<noteq> '''' \<and> TrimSpace k = k \<and> CHR '','' \<notin> set k)"
proof -
  from assms obtain i s where d: "mustParseDuration (envOr env ''RECONCILE_INTERVAL'' ''60s'') = Some i"
    "mustParseDuration (envOr env ''SHUTDOWN_TIMEOUT'' ''30s'') = Some s"
    and c: "cfg = config_of_env env i s" "config_errors cfg = []"
    by (auto simp: Load_def Let_def Config_validate_def split: option.splits)
  from d have "i < 2 ^ 63" "s < 2 ^ 63"
    using ParseDuration_range by (auto simp: mustParseDuration_def split: sum.splits)
  with c show ?thesis
    by (auto simp: config_errors_def config_of_env_def envOr_def Let_def split: if_splits dest: splitNonEmpty_keys)
qed

definition ex_env :: environ where
  "ex_env = map_of [(''DATABASE_URL'', ''postgres://db''), (''API_KEYS'', '' k1 , ,k2''), (''RECONCILE_INTERVAL'', ''1m30s'')]"

theorem load_valid_witness:
  "\<exists>cfg. Load ex_env = Some (Inr cfg) \<and> mc_APIKeys cfg = [''k1'', ''k2''] \<and> 0 < mc_ReconcileInterval cfg"
proof -
  have keys: "map_option (map_sum (\<lambda>_. ()) mc_APIKeys) (Load ex_env) = Some (Inr [''k1'', ''k2''])" by code_simp
  then obtain cfg where l: "Load ex_env = Some (Inr cfg)" and k: "mc_APIKeys cfg = [''k1'', ''k2'']"
    by (auto simp: map_option_case map_sum_def split: option.splits sum.splits)
  from load_valid [OF l] l k show ?thesis by auto
qed

text \<open>A malformed duration in the environment makes \<open>Load\<close> panic, and nothing else does; with well-formed
  durations it returns an error exactly when some check of the configuration fails.
\<close>

theorem load_panics_iff:
  "(Load env = None \<longleftrightarrow>
     (\<exists>err. ParseDuration (envOr env ''RECONCILE_INTERVAL'' ''60s'') = Inl err) \<or>
     (\<exists>err. ParseDuration (envOr env ''SHUTDOWN_TIMEOUT'' ''30s'') = Inl err)) \<and>
   ((\<exists>err. Load env = Some (Inl err)) \<longleftrightarrow>
     (\<exists>i s. ParseDuration (envOr env ''RECONCILE_INTERVAL'' ''60s'') = Inr i \<and>
        ParseDuration (envOr env ''SHUTDOWN_TIMEOUT'' ''30s'') = Inr s \<and> config_errors (config_of_env env i s) \<noteq> []))"
  by (auto simp: Load_def mustParseDuration_def Config_validate_def Let_def errors_join_def split: sum.splits)

theorem load_panics_iff_instance: "Load (ex_env(''SHUTDOWN_TIMEOUT'' \<mapsto> ''30'')) = None"
proof -
  have "case ParseDuration (envOr (ex_env(''SHUTDOWN_TIMEOUT'' \<mapsto> ''30'')) ''SHUTDOWN_TIMEOUT'' ''30s'') of Inl _ \<Rightarrow> True | Inr _ \<Rightarrow> False"
    by code_simp
  then show ?thesis using load_panics_iff by (auto split: sum.splits)
qed

end
