(* ===== verification/Manager.thy ===== *)
theory Manager
  imports Manager_Config Guard Provider Orchestrator Api Postgres
begin

section \<open>The manager program (cmd/manager)\<close>

text \<open>
  \<open>main\<close> from the configuration to the exit status. Its repository and lock are arguments, as are the driver's
  pool, the cloud client, the result of the shutdown, and what happens while the program runs: passes of the
  orchestrator and requests, in the order in which they take effect, until a signal or a fatal error of the listener.
  The result is \<open>None\<close> when the program panics, else the exit status with the responses sent. Logging is left out.
\<close>

datatype slog_level = LevelDebug | LevelInfo | LevelWarn | LevelError

text \<open>The levels are integers in Go, ordered by severity.\<close>

primrec slog_value :: "slog_level \<Rightarrow> int" where
  "slog_value LevelDebug = -4"
| "slog_value LevelInfo = 0"
| "slog_value LevelWarn = 4"
| "slog_value LevelError = 8"

lemma slog_value_inject: "slog_value a = slog_value b \<Longrightarrow> a = b"
  by (cases a; cases b) simp_all

instantiation slog_level :: linorder
begin

definition less_eq_slog_level :: "slog_level \<Rightarrow> slog_level \<Rightarrow> bool" where
  "less_eq_slog_level a b \<longleftrightarrow> slog_value a \<le> slog_value b"

definition less_slog_level :: "slog_level \<Rightarrow> slog_level \<Rightarrow> bool" where
  "less_slog_level a b \<longleftrightarrow> slog_value a < slog_value b"

instance
  by standard (auto simp: less_eq_slog_level_def less_slog_level_def dest: slog_value_inject)

end

definition newLogger :: "string \<Rightarrow> slog_level" where
  "newLogger levelStr =
     (if levelStr = ''debug'' then LevelDebug
      else if levelStr = ''warn'' then LevelWarn
      else if levelStr = ''error'' then LevelError
      else LevelInfo)"

text \<open>Whatever LOG_LEVEL says, the logger lets errors through, and nothing but the setting \<open>debug\<close> lets debug records through.\<close>

lemma newLogger_errors: "newLogger s \<le> LevelError"
  by (simp add: newLogger_def less_eq_slog_level_def)

lemma newLogger_debug: "newLogger s \<le> LevelDebug \<longleftrightarrow> s = ''debug''"
  by (simp add: newLogger_def less_eq_slog_level_def)

definition buildOrchOpts :: "(string \<Rightarrow> 'w hcloud) \<Rightarrow> manager_config \<Rightarrow> ('w Orchestrator \<Rightarrow> 'w Orchestrator) list" where
  "buildOrchOpts NewClient cfg =
     (if mc_HetznerAPIToken cfg \<noteq> ''''
      then (case hetzner_New NewClient (mc_HetznerAPIToken cfg) of
              Inl err \<Rightarrow> []
            | Inr p \<Rightarrow> [WithProvider p])
      else [])"

text \<open>\<open>orchestrator.New\<close> applies its options in order.\<close>

definition orchestrator_New :: "('w Orchestrator \<Rightarrow> 'w Orchestrator) list \<Rightarrow> 'w Orchestrator" where
  "orchestrator_New opts = fold (\<lambda>opt orch. opt orch) opts new_orchestrator"

datatype manager_event = Pass | Request http_request

record 'w manager_outside =
  mo_pool :: "'w pgxpool"
  mo_clusterRepo :: "'w cluster_repository"
  mo_bootstrapLock :: "'w bootstrap_locker"
  mo_NewClient :: "string \<Rightarrow> 'w hcloud"
  mo_rand :: "'w rand_source"
  mo_rand16 :: "'w rand16"
  mo_api :: api_outside
  mo_Shutdown :: "go_error option"

fun manager_loop ::
    "'w manager_outside \<Rightarrow> 'w Orchestrator \<Rightarrow> 'w Server \<Rightarrow> manager_event list \<Rightarrow> 'w \<Rightarrow> http_response list option \<times> 'w" where
  "manager_loop out orch srv [] w = (Some [], w)"
| "manager_loop out orch srv (Pass # events) w =
     (case reconcile (mo_rand out) orch w of
        None \<Rightarrow> (None, w)
      | Some w1 \<Rightarrow> manager_loop out orch srv events w1)"
| "manager_loop out orch srv (Request r # events) w =
     (case ServeHTTP (mo_rand16 out) (mo_api out) srv r w of
        (None, w1) \<Rightarrow> (None, w1)
      | (Some resp, w1) \<Rightarrow>
          (case manager_loop out orch srv events w1 of (resps, w2) \<Rightarrow> (map_option ((#) resp) resps, w2)))"

text \<open>\<open>time.NewTicker\<close> panics unless the interval is positive. \<open>os.Exit\<close> runs no deferred call, so the pool is closed on the
  regular way out only.\<close>

definition manager_main ::
    "'w manager_outside \<Rightarrow> environ \<Rightarrow> manager_event list \<Rightarrow> 'w \<Rightarrow> (nat \<times> http_response list) option \<times> 'w" where
  "manager_main out env events w =
     (case Load env of
        None \<Rightarrow> (None, w)
      | Some (Inl err) \<Rightarrow> (Some (1, []), w)
      | Some (Inr cfg) \<Rightarrow>
          (case postgres_Open (mo_pool out) (mc_DatabaseURL cfg) w of
             (Some err, w1) \<Rightarrow> (Some (1, []), w1)
           | (None, w1) \<Rightarrow>
               (let g = NewGuard (mo_clusterRepo out) [WithLocker (mo_bootstrapLock out)] in
                case Guard_Run (gd_repo g) (gd_locker g) (mc_InitialBootstrapEnabled cfg) noopCoordinator w1 of
                  (Some err, w2) \<Rightarrow> (Some (1, []), w2)
                | (None, w2) \<Rightarrow>
                    (let opts = buildOrchOpts (mo_NewClient out) cfg @ [WithClusterRepository (mo_clusterRepo out)];
                         orch = orchestrator_New opts;
                         srv = api_New (mc_APIKeys cfg) [api_WithClusterRepository (mo_clusterRepo out)]
                     in if mc_ReconcileInterval cfg \<le> 0 then (None, w2)
                        else
                          (case manager_loop out orch srv events w2 of
                             (None, w3) \<Rightarrow> (None, w3)
                           | (Some resps, w3) \<Rightarrow>
                               (if mo_Shutdown out \<noteq> None then (Some (1, resps), w3)
                                else (Some (0, resps), px_Close (mo_pool out) w3)))))))"

section \<open>Properties\<close>

text \<open>The orchestrator as the program wires it: a provider perhaps, the cluster repository, nothing else.\<close>

lemma wired_orchestrator:
  assumes "orch = orchestrator_New (buildOrchOpts NewClient cfg @ [WithClusterRepository C])"
  shows "o_clusterRepo orch = Some C" and "o_nodeSyncer orch = None" and "o_instanceSyncer orch = None"
    and "o_scheduler orch = None"
  by (simp_all add: assms orchestrator_New_def buildOrchOpts_def WithProvider_def WithClusterRepository_def new_orchestrator_def
      split: sum.split)

lemma bare_reconcile_all:
  assumes "o_nodeSyncer orch = None" "o_instanceSyncer orch = None" "o_scheduler orch = None"
  shows "reconcile_all rnd orch cs w = Some w"
  by (induction cs) (simp_all add: reconcileCluster_def sync_step_def scheduleCluster_def assms split: option.split)

lemma wired_pass:
  "reconcile rnd (orchestrator_New (buildOrchOpts NewClient cfg @ [WithClusterRepository C])) w = Some (snd (ListClusters C w))"
proof -
  note o = wired_orchestrator [OF refl, of NewClient cfg C]
  show ?thesis by (auto simp: reconcile_def o bare_reconcile_all [OF o(2-4)] split: sum.split prod.split)
qed

lemma ServeHTTP_answers: "\<exists>resp w1. ServeHTTP rnd out s r w = (Some resp, w1)"
  by (auto simp: ServeHTTP_def RequestID_def Recoverer_def Let_def split: prod.split option.split)

text \<open>The program serves and passes to the end.\<close>

lemma wired_loop:
  assumes "orch = orchestrator_New (buildOrchOpts NewClient cfg @ [WithClusterRepository C])"
  shows "\<exists>resps w1. manager_loop out orch srv events w = (Some resps, w1)"
proof (induction events arbitrary: w)
  case (Cons e events)
  show ?case
  proof (cases e)
    case Pass
    with Cons show ?thesis by (simp add: assms wired_pass)
  next
    case (Request r)
    obtain resp w1 where "ServeHTTP (mo_rand16 out) (mo_api out) srv r w = (Some resp, w1)" using ServeHTTP_answers [of "mo_rand16 out" "mo_api out" srv r w] by blast
    with Request Cons [of w1] show ?thesis by auto
  qed
qed simp

lemma loaded_interval: "Load env = Some (Inr cfg) \<Longrightarrow> 0 < mc_ReconcileInterval cfg"
  by (auto simp: Load_def Let_def Config_validate_def errors_join_def config_errors_def split: option.splits if_splits)

text \<open>A pass of the orchestrator that the program starts lists the clusters and does nothing else: no sync, no
  placement, no call to the cloud provider even when a token is configured, whatever the repository answers.\<close>

theorem manager_pass_only_lists:
  "reconcile rnd (orchestrator_New (buildOrchOpts NewClient cfg @ [WithClusterRepository C])) w = Some (snd (ListClusters C w))"
  by (rule wired_pass)

lemma manager_outcome_opened:
  "(fst (manager_main out env events w) = None \<longleftrightarrow> Load env = None) \<and>
   ((\<exists>resps. fst (manager_main out env events w) = Some (0, resps)) \<longleftrightarrow>
      (\<exists>cfg w1. Load env = Some (Inr cfg) \<and> postgres_Open (mo_pool out) (mc_DatabaseURL cfg) w = (None, w1) \<and>
         fst (Guard_Run (mo_clusterRepo out) (Some (mo_bootstrapLock out)) (mc_InitialBootstrapEnabled cfg) noopCoordinator w1) = None \<and>
         mo_Shutdown out = None))"
proof (cases "\<exists>cfg. Load env = Some (Inr cfg)")
  case False
  then show ?thesis by (auto simp: manager_main_def split: option.split sum.split)
next
  case True
  then obtain cfg where l: "Load env = Some (Inr cfg)" by blast
  then have i: "\<not> mc_ReconcileInterval cfg \<le> 0" using loaded_interval by fastforce
  obtain e w1 where o: "postgres_Open (mo_pool out) (mc_DatabaseURL cfg) w = (e, w1)" by (rule that [OF surjective_pairing])
  obtain g w2 where g: "Guard_Run (mo_clusterRepo out) (Some (mo_bootstrapLock out)) (mc_InitialBootstrapEnabled cfg)
      noopCoordinator w1 = (g, w2)" by (rule that [OF surjective_pairing])
  let ?orch = "orchestrator_New (buildOrchOpts (mo_NewClient out) cfg @ [WithClusterRepository (mo_clusterRepo out)])"
  let ?srv = "api_New (mc_APIKeys cfg) [api_WithClusterRepository (mo_clusterRepo out)]"
  obtain resps w3 where s: "manager_loop out ?orch ?srv events w2 = (Some resps, w3)" 
    using wired_loop [OF refl, of out "mo_NewClient out" cfg "mo_clusterRepo out" ?srv events w2] by blast
  show ?thesis
    using l o g s i by (cases e; cases g) (auto simp: manager_main_def Let_def)
qed

text \<open>C14. How the program ends, whatever happens while it runs. It panics exactly when \<open>Load\<close> does, which is before it
  has done anything: a configuration that loads has a positive interval, no pass panics and no request does. And it ends
  with status 0 exactly when the configuration loads, the database opens, the start-up guard returns nil and the server
  shuts down in time.\<close>

theorem manager_outcome:
  "(fst (manager_main out env events w) = None \<longleftrightarrow> Load env = None) \<and>
   ((\<exists>resps. fst (manager_main out env events w) = Some (0, resps)) \<longleftrightarrow>
      (\<exists>cfg w0 w1. Load env = Some (Inr cfg) \<and> px_New (mo_pool out) (mc_DatabaseURL cfg) w = (None, w0) \<and>
         px_Ping (mo_pool out) w0 = (None, w1) \<and>
         fst (Guard_Run (mo_clusterRepo out) (Some (mo_bootstrapLock out)) (mc_InitialBootstrapEnabled cfg) noopCoordinator w1) = None \<and>
         mo_Shutdown out = None))"
  using manager_outcome_opened [of out env events w] unfolding postgres_Open_ok by blast

end
