(* ===== verification/Api_Contract.thy ===== *)
theory Api_Contract
  imports Api
begin

section \<open>What the API promises\<close>

text \<open>
  The abstract specification of the server: what one request does to a table of clusters by ID, and what the response
  tells about it. \<open>cluster_repo\<close> gives it for every repository that keeps the contract, so for the in-memory store and
  for PostgreSQL.
\<close>

definition served ::
    "api_outside \<Rightarrow> 'w Server \<Rightarrow> http_request \<Rightarrow> (string \<Rightarrow> cluster option) \<Rightarrow> http_response \<Rightarrow>
     (string \<Rightarrow> cluster option) \<Rightarrow> bool" where
  "served out s r T resp T' \<longleftrightarrow>
     (if 300 \<le> rs_Status resp \<or> hr_Path r = [''v1'', ''health''] then T' = T
      else authorised out s r \<and>
        (case hr_Path r of
           [a, b] \<Rightarrow>
             if is_get r
             then T' = T \<and> (\<exists>cs. rs_Body resp = ClusterListBody cs (length cs) \<and> set cs = ran T \<and> distinct (map c_ID cs))
             else \<exists>req d. decode_create out (hr_Body r) = Some req \<and> rs_Body resp = ClusterBody d \<and>
                    T (c_ID d) = None \<and> T' = T(c_ID d \<mapsto> d) \<and>
                    cluster_data d = cluster_data ((cluster_of_request req)\<lparr>c_ID := c_ID d\<rparr>)
         | [a, b, cid] \<Rightarrow>
             if is_get r then T' = T \<and> (\<exists>d. T cid = Some d \<and> rs_Body resp = ClusterBody d)
             else if hr_Method r = ''PUT''
             then \<exists>req old c d. decode_update out (hr_Body r) = Some req \<and> T cid = Some old \<and>
                    merge_update req old = Inr c \<and> rs_Body resp = ClusterBody d \<and> T' = T(cid \<mapsto> d) \<and>
                    cluster_data d = cluster_data c \<and> c_CreatedAt d = c_CreatedAt old
             else T cid \<noteq> None \<and> T' = T(cid := None)
         | _ \<Rightarrow> False))"

text \<open>A response that changes nothing and says so.\<close>

lemma served_refused: "300 \<le> rs_Status resp \<Longrightarrow> served out s r T resp T"
  by (simp add: served_def)

lemma served_health: "hr_Path r = [''v1'', ''health''] \<Longrightarrow> served out s r T resp T"
  by (simp add: served_def)

lemma refused_status [simp]:
  "300 \<le> rs_Status writeInternalError" "300 \<le> rs_Status writeUnauthorized" "300 \<le> rs_Status not_found_page"
  "300 \<le> rs_Status method_not_allowed" "300 \<le> rs_Status (validation_error m)"
  "300 \<le> rs_Status (writeError st code msg) \<longleftrightarrow> 300 \<le> st"
  by (simp_all add: writeInternalError_def writeUnauthorized_def not_found_page_def method_not_allowed_def
      validation_error_def writeError_def Let_def)

lemma served_headers [simp]: "served out s r T (resp\<lparr>rs_Headers := h\<rparr>) T' = served out s r T resp T'"
  by (auto simp: served_def split: list.split)

context cluster_repo
begin

lemma list_served:
  assumes "inv w" and "handleListClusters R w = (resp, w')"
  shows "inv w' \<and> clusters w' = clusters w \<and> (300 \<le> rs_Status resp \<or>
    (\<exists>cs. rs_Body resp = ClusterListBody cs (length cs) \<and> set cs = ran (clusters w) \<and> distinct (map c_ID cs)))"
proof -
  obtain a w1 where l: "ListClusters R w = (a, w1)" by (rule that [OF surjective_pairing])
  from list_frame [OF assms(1) l] list_ok [OF assms(1)] assms(2) l show ?thesis
    by (cases a) (auto simp: handleListClusters_def writeJSON_def)
qed

lemma get_served:
  assumes "inv w" and "handleGetCluster R cid w = (resp, w')"
  shows "inv w' \<and> clusters w' = clusters w \<and> (300 \<le> rs_Status resp \<or>
    (\<exists>d. clusters w cid = Some d \<and> rs_Body resp = ClusterBody d))"
proof -
  obtain a w1 where l: "GetCluster R cid w = (a, w1)" by (rule that [OF surjective_pairing])
  from get_frame [OF assms(1) l] get_ok [OF assms(1)] assms(2) l show ?thesis
    by (cases a) (auto simp: handleGetCluster_def writeJSON_def split: if_splits)
qed

lemma create_served:
  assumes "inv w" and "handleCreateCluster out R body w = (resp, w')"
  shows "inv w' \<and> (300 \<le> rs_Status resp \<and> clusters w' = clusters w \<or>
    rs_Status resp = 201 \<and> (\<exists>req d. decode_create out body = Some req \<and> rs_Body resp = ClusterBody d \<and> clusters w (c_ID d) = None \<and>
       clusters w' = (clusters w)(c_ID d \<mapsto> d) \<and> cluster_data d = cluster_data ((cluster_of_request req)\<lparr>c_ID := c_ID d\<rparr>)))"
proof (cases "decode_create out body")
  case None
  with assms show ?thesis by (auto simp: handleCreateCluster_def)
next
  case (Some req)
  obtain a w1 where c: "CreateCluster R (cluster_of_request req) w = (a, w1)" by (rule that [OF surjective_pairing])
  show ?thesis
  proof (cases a)
    case (Inl e)
    with Some c assms create_err [OF assms(1), of "cluster_of_request req" e w1] show ?thesis
      by (auto simp: handleCreateCluster_def split: if_splits)
  next
    case (Inr d)
    with Some c assms create_ok [OF assms(1), of "cluster_of_request req" d w1] show ?thesis
      by (auto simp: handleCreateCluster_def writeJSON_def split: if_splits)
  qed
qed

lemma update_served:
  assumes "inv w" and "handleUpdateCluster out R cid body w = (resp, w')"
  shows "inv w' \<and> (300 \<le> rs_Status resp \<and> clusters w' = clusters w \<or>
    rs_Status resp = 200 \<and> (\<exists>req old c d. decode_update out body = Some req \<and> clusters w cid = Some old \<and> merge_update req old = Inr c \<and>
       rs_Body resp = ClusterBody d \<and> clusters w' = (clusters w)(cid \<mapsto> d) \<and> cluster_data d = cluster_data c \<and>
       c_CreatedAt d = c_CreatedAt old))"
proof (cases "decode_update out body")
  case None
  with assms show ?thesis by (auto simp: handleUpdateCluster_def)
next
  case (Some req)
  obtain a w1 where g: "GetCluster R cid w = (a, w1)" by (rule that [OF surjective_pairing])
  note w1 = get_frame [OF assms(1) g]
  show ?thesis
  proof (cases a)
    case (Inl e)
    with Some g assms(2) w1 show ?thesis by (auto simp: handleUpdateCluster_def split: if_splits)
  next
    case (Inr old)
    with g have old: "clusters w cid = Some old" using get_ok [OF assms(1)] by simp
    show ?thesis
    proof (cases "merge_update req old")
      case (Inl m)
      with Some g Inr assms(2) w1 show ?thesis by (auto simp: handleUpdateCluster_def)
    next
      case m: (Inr c)
      from merge_update_fields [OF m] cluster_key [OF assms(1) old] have id: "c_ID c = cid" by simp
      obtain b w2 where u: "UpdateCluster R c w1 = (b, w2)" by (rule that [OF surjective_pairing])
      show ?thesis
      proof (cases b)
        case e: (Inl e)
        with update_err [of w1 c e w2] u w1 Some g Inr m assms(2) show ?thesis
          by (auto simp: handleUpdateCluster_def split: if_splits)
      next
        case d: (Inr d)
        with update_ok [of w1 c d w2] u w1 id old have "inv w2" "clusters w2 = (clusters w)(cid \<mapsto> d)"
          "cluster_data d = cluster_data c" "c_CreatedAt d = c_CreatedAt old" by auto
        with Some g Inr m u d assms(2) old show ?thesis by (auto simp: handleUpdateCluster_def writeJSON_def)
      qed
    qed
  qed
qed

lemma delete_served:
  assumes "inv w" and "handleDeleteCluster R cid w = (resp, w')"
  shows "inv w' \<and> (300 \<le> rs_Status resp \<and> clusters w' = clusters w \<or>
    rs_Status resp = 204 \<and> clusters w cid \<noteq> None \<and> clusters w' = (clusters w)(cid := None))"
proof -
  obtain a w1 where l: "DeleteCluster R cid w = (a, w1)" by (rule that [OF surjective_pairing])
  from delete_ok [OF assms(1)] delete_err [OF assms(1)] assms(2) l show ?thesis
    by (cases a) (auto simp: handleDeleteCluster_def split: if_splits)
qed

lemma handler_served:
  assumes "inv w" and "is_clusters_path (hr_Path r)" and "clusters_handler out R r = Some h" and "h r w = (ro, w')"
    and "authorised out s r"
  shows "inv w' \<and> (\<exists>resp. ro = Some resp \<and> served out s r (clusters w) resp (clusters w'))"
proof -
  from assms(2) consider "hr_Path r = [''v1'', ''clusters'']" | cid where "hr_Path r = [''v1'', ''clusters'', cid]"
    unfolding is_clusters_path_def by blast
  then show ?thesis
  proof cases
    case 1
    with assms show ?thesis
      using list_served [OF assms(1) surjective_pairing] create_served [OF assms(1) surjective_pairing, of out "hr_Body r"]
      by (auto simp: clusters_handler_def some_response_def served_def split: if_splits)
  next
    case (2 cid)
    with assms show ?thesis
      using get_served [OF assms(1) surjective_pairing, of cid] delete_served [OF assms(1) surjective_pairing, of cid]
        update_served [OF assms(1) surjective_pairing, of out cid "hr_Body r"]
      by (auto simp: clusters_handler_def some_response_def served_def split: if_splits)
  qed
qed

lemma mux_served:
  assumes "inv w" and "sv_clusters s = Some R" and "mux out s r w = (ro, w')"
  shows "inv w' \<and> (\<exists>resp. ro = Some resp \<and> served out s r (clusters w) resp (clusters w'))"
proof (cases "hr_Path r \<noteq> [''v1'', ''health''] \<and> is_clusters_path (hr_Path r) \<and> authorised out s r")
  case True
  show ?thesis
  proof (cases "clusters_handler out R r")
    case None
    with True assms show ?thesis by (auto simp: mux_def served_refused)
  next
    case (Some h)
    obtain token where "bearerToken r = Some token" "validateAPIKey (compare_hash out) token (sv_apiKeyHashes s)"
      using True by (auto simp: authorised_def validateAPIKey_iff)
    with True Some assms have "h r w = (ro, w')" by (simp add: mux_def RequireAPIKey_def)
    with handler_served [OF assms(1) _ Some] True show ?thesis by blast
  qed
next
  case False
  then consider "hr_Path r = [''v1'', ''health'']" | "hr_Path r \<noteq> [''v1'', ''health'']" "\<not> is_clusters_path (hr_Path r)"
    | "hr_Path r \<noteq> [''v1'', ''health'']" "\<not> authorised out s r" by blast
  then show ?thesis
  proof cases
    case 1
    with assms show ?thesis
      by (auto simp: mux_def some_response_def handleHealth_def served_health served_refused split: if_splits)
  next
    case 2
    with assms show ?thesis by (auto simp: mux_def served_refused)
  next
    case 3
    with assms show ?thesis
      by (auto simp: mux_def RequireAPIKey_unauthorised [OF 3(2)] served_refused split: if_splits option.splits)
  qed
qed

lemma ServeHTTP_served:
  assumes "inv w" and "sv_clusters s = Some R" and "ServeHTTP rnd out s r w = (ro, w')"
    and "\<And>w b w'. inv w \<Longrightarrow> rnd w = (b, w') \<Longrightarrow> inv w' \<and> clusters w' = clusters w"
  shows "inv w' \<and> (\<exists>resp. ro = Some resp \<and> served out s r (clusters w) resp (clusters w'))"
proof -
  obtain rid w1 where v: "(if hr_RequestID r = '''' then newRequestID rnd w else (hr_RequestID r, w)) = (rid, w1)"
    by (rule that [OF surjective_pairing])
  have w1: "inv w1 \<and> clusters w1 = clusters w"
    using v assms(1) assms(4) [OF assms(1)] by (auto simp: newRequestID_def split: if_splits prod.splits sum.splits)
  obtain q w2 where m: "mux out s r w1 = (q, w2)" by (rule that [OF surjective_pairing])
  from mux_served [OF _ assms(2) m] w1 obtain resp where "inv w2" "q = Some resp"
    "served out s r (clusters w) resp (clusters w2)" by auto
  with assms(3) v m show ?thesis by (auto simp: ServeHTTP_def RequestID_def Recoverer_def Let_def)
qed

end

end
