(* ===== verification/Manager_Contract.thy ===== *)
theory Manager_Contract
  imports Manager Api_Contract Postgres_Contract
begin

section \<open>A whole run of the manager as a table of clusters\<close>

text \<open>
  The program from start to end, seen as a table of clusters by ID: what passes and requests do to it, in the order in
  which they take effect. The lemmas hold for every cluster repository that keeps the contract; the property is the
  program on PostgreSQL.
\<close>

inductive table_run ::
    "api_outside \<Rightarrow> 'w Server \<Rightarrow> manager_event list \<Rightarrow> (string \<Rightarrow> cluster option) \<Rightarrow> http_response list \<Rightarrow>
     (string \<Rightarrow> cluster option) \<Rightarrow> bool"
  for out s where
  ended: "table_run out s [] T [] T"
| pass: "table_run out s events T resps T' \<Longrightarrow> table_run out s (Pass # events) T resps T'"
| request: "served out s r T resp T1 \<Longrightarrow> table_run out s events T1 resps T' \<Longrightarrow>
    table_run out s (Request r # events) T (resp # resps) T'"

inductive_simps table_run_simps:
  "table_run out s [] T resps T'" "table_run out s (Pass # events) T resps T'"
  "table_run out s (Request r # events) T resps T'"

lemma api_New_clusters: "sv_clusters (api_New keys [api_WithClusterRepository C]) = Some C"
  by (simp add: api_New_def api_WithClusterRepository_def)

text \<open>What a run that ends with status 0 went through.\<close>

lemma manager_main_ran:
  assumes "manager_main out env events w = (Some (0, resps), w')" and "Load env = Some (Inr cfg)"
  defines "orch \<equiv> orchestrator_New (buildOrchOpts (mo_NewClient out) cfg @ [WithClusterRepository (mo_clusterRepo out)])"
  obtains w1 w2 w3 where "postgres_Open (mo_pool out) (mc_DatabaseURL cfg) w = (None, w1)"
    and "Guard_Run (mo_clusterRepo out) (Some (mo_bootstrapLock out)) (mc_InitialBootstrapEnabled cfg) noopCoordinator w1 = (None, w2)"
    and "manager_loop out orch (api_New (mc_APIKeys cfg) [api_WithClusterRepository (mo_clusterRepo out)]) events w2 = (Some resps, w3)"
    and "w' = px_Close (mo_pool out) w3"
proof -
  obtain e w1 where o: "postgres_Open (mo_pool out) (mc_DatabaseURL cfg) w = (e, w1)" by (rule that [OF surjective_pairing])
  with assms(1,2) have e: "e = None" by (cases e) (simp_all add: manager_main_def)
  obtain g w2 where g: "Guard_Run (mo_clusterRepo out) (Some (mo_bootstrapLock out)) (mc_InitialBootstrapEnabled cfg)
      noopCoordinator w1 = (g, w2)" by (rule that [OF surjective_pairing])
  with assms(1,2) o e have g': "g = None" by (cases g) (simp_all add: manager_main_def)
  obtain rs w3 where l: "manager_loop out orch (api_New (mc_APIKeys cfg) [api_WithClusterRepository (mo_clusterRepo out)]) events w2 = (rs, w3)"
    by (rule that [OF surjective_pairing])
  have i: "\<not> mc_ReconcileInterval cfg \<le> 0" using loaded_interval [OF assms(2)] by simp
  have "rs = Some resps \<and> w' = px_Close (mo_pool out) w3"
  proof (cases rs)
    case None
    with assms(1,2) o e g g' i l show ?thesis by (simp add: manager_main_def Let_def orch_def)
  next
    case (Some x)
    with assms(1,2) o e g g' i l show ?thesis by (simp add: manager_main_def Let_def orch_def split: if_splits)
  qed
  with o e g g' l that show ?thesis by blast
qed

context cluster_repo
begin

lemma guard_frame:
  assumes "inv w" and "Guard_Run R (Some l) enabled noopCoordinator w = (r, w')"
    and lock: "\<And>w b w'. inv w \<Longrightarrow> TryLock l w = (b, w') \<Longrightarrow> inv w' \<and> clusters w' = clusters w"
    and unlock: "\<And>w u w'. inv w \<Longrightarrow> Unlock l w = (u, w') \<Longrightarrow> inv w' \<and> clusters w' = clusters w"
  shows "inv w' \<and> clusters w' = clusters w"
proof -
  have body: "inv w2 \<and> clusters w2 = clusters w1" if "inv w1" "guard_body R noopCoordinator w1 = (b, w2)" for b w1 w2
    using that list_frame [OF that(1)] by (auto simp: guard_body_def noopCoordinator_def split: prod.splits sum.splits if_splits)
  obtain a w1 where l: "TryLock l w = (a, w1)" by (rule that [OF surjective_pairing])
  note w1 = lock [OF assms(1) l]
  obtain b w2 where g: "guard_body R noopCoordinator w1 = (b, w2)" by (rule that [OF surjective_pairing])
  note w2 = body [OF _ g]
  obtain u w3 where u: "Unlock l w2 = (u, w3)" by (rule that [OF surjective_pairing])
  from assms(1,2) l g u w1 w2 unlock [OF _ u] show ?thesis
    by (auto simp: Guard_Run_def Let_def split: if_splits sum.splits)
qed

lemma loop_serves:
  assumes "orch = orchestrator_New (buildOrchOpts NewClient cfg @ [WithClusterRepository R])" and "sv_clusters srv = Some R"
    and "\<And>w b w'. inv w \<Longrightarrow> mo_rand16 out w = (b, w') \<Longrightarrow> inv w' \<and> clusters w' = clusters w"
    and "inv w" and "manager_loop out orch srv events w = (Some resps, w')"
  shows "inv w' \<and> table_run (mo_api out) srv events (clusters w) resps (clusters w')"
  using assms(4,5)
proof (induction events arbitrary: w resps)
  case Nil
  then show ?case by (simp add: table_run.ended)
next
  case (Cons e events)
  show ?case
  proof (cases e)
    case Pass
    obtain a w1 where l: "ListClusters R w = (a, w1)" by (rule that [OF surjective_pairing])
    from list_frame [OF Cons.prems(1) l] have w1: "inv w1" "clusters w1 = clusters w" by simp_all
    from Cons.prems(2) Pass l have "manager_loop out orch srv events w1 = (Some resps, w')"
      by (simp add: assms(1) wired_pass)
    from Cons.IH [OF w1(1) this] w1(2) Pass show ?thesis by (simp add: table_run.pass)
  next
    case (Request r)
    obtain q w1 where s: "ServeHTTP (mo_rand16 out) (mo_api out) srv r w = (q, w1)" by (rule that [OF surjective_pairing])
    have "inv w1 \<and> (\<exists>resp. q = Some resp \<and> served (mo_api out) srv r (clusters w) resp (clusters w1))"
      by (rule ServeHTTP_served [OF Cons.prems(1) assms(2) s]) (rule assms(3))
    then obtain resp where r: "inv w1" "q = Some resp" "served (mo_api out) srv r (clusters w) resp (clusters w1)" by blast
    obtain rs w2 where l: "manager_loop out orch srv events w1 = (rs, w2)" by (rule that [OF surjective_pairing])
    from Cons.prems(2) Request s r(2) l obtain resps' where rs: "resps = resp # resps'" "rs = Some resps'" "w2 = w'" by auto
    with Cons.IH [OF r(1), of resps'] l r(3) Request show ?thesis by (auto intro: table_run.request)
  qed
qed

end

section \<open>Properties\<close>

text \<open>What is not the database does not touch the database: pool, lock (which is not a row) and random source.\<close>

definition beside_db :: "(pg \<times> 'x) manager_outside \<Rightarrow> bool" where
  "beside_db out \<longleftrightarrow>
     (\<forall>dsn. keeps_db (px_New (mo_pool out) dsn)) \<and> keeps_db (px_Ping (mo_pool out)) \<and>
     (\<forall>w. fst (px_Close (mo_pool out) w) = fst w) \<and>
     keeps_db (TryLock (mo_bootstrapLock out)) \<and> keeps_db (Unlock (mo_bootstrapLock out)) \<and> keeps_db (mo_rand16 out)"

lemma beside_dbD:
  assumes "beside_db out"
  shows "px_New (mo_pool out) dsn w = (e, w') \<Longrightarrow> fst w' = fst w" and "px_Ping (mo_pool out) w = (e, w') \<Longrightarrow> fst w' = fst w"
    and "fst (px_Close (mo_pool out) w) = fst w" and "TryLock (mo_bootstrapLock out) w = (b, w') \<Longrightarrow> fst w' = fst w"
    and "Unlock (mo_bootstrapLock out) w = (e, w') \<Longrightarrow> fst w' = fst w" and "mo_rand16 out w = (rb, w') \<Longrightarrow> fst w' = fst w"
proof -
  note b = assms [unfolded beside_db_def]
  show "px_New (mo_pool out) dsn w = (e, w') \<Longrightarrow> fst w' = fst w" by (erule keeps_dbD [rotated]) (simp add: b)
  show "px_Ping (mo_pool out) w = (e, w') \<Longrightarrow> fst w' = fst w" by (erule keeps_dbD [rotated]) (simp add: b)
  show "fst (px_Close (mo_pool out) w) = fst w" by (simp add: b)
  show "TryLock (mo_bootstrapLock out) w = (b, w') \<Longrightarrow> fst w' = fst w" by (erule keeps_dbD [rotated]) (simp add: b)
  show "Unlock (mo_bootstrapLock out) w = (e, w') \<Longrightarrow> fst w' = fst w" by (erule keeps_dbD [rotated]) (simp add: b)
  show "mo_rand16 out w = (rb, w') \<Longrightarrow> fst w' = fst w" by (erule keeps_dbD [rotated]) (simp add: b)
qed


section \<open>A concrete run\<close>

definition ex_mo :: "(string \<Rightarrow> (pg \<times> nat) hcloud) \<Rightarrow> (pg \<times> nat) manager_outside" where
  "ex_mo NewClient = \<lparr>mo_pool = \<lparr>px_New = (\<lambda>dsn w. (None, w)), px_Ping = (\<lambda>w. (None, w)), px_Close = (\<lambda>w. (fst w, Suc (snd w)))\<rparr>,
     mo_clusterRepo = deployed_clusters ex_pgo,
     mo_bootstrapLock = \<lparr>TryLock = (\<lambda>w. (Inr True, w)), Unlock = (\<lambda>w. (None, w))\<rparr>,
     mo_NewClient = NewClient, mo_rand = ex_pg_rand, mo_rand16 = (\<lambda>w. (Inr [], w)), mo_api = ex_out, mo_Shutdown = None\<rparr>"

definition ex_post :: http_request where
  "ex_post = \<lparr>hr_Method = ''POST'', hr_Path = [''v1'', ''clusters''], hr_Authorization = ''Bearer k1'', hr_RequestID = ''r1'',
     hr_Body = ''prod''\<rparr>"

lemma ex_post_created:
  "map_option rs_Status (fst (ServeHTTP (\<lambda>w. (Inr [], w)) ex_out (api_New [''k1'', ''k2''] [api_WithClusterRepository (deployed_clusters ex_pgo)])
     ex_post (ex_pg1, 0::nat))) = Some 201"
  by code_simp


end
