(* ===== verification/Api_Concurrent.thy ===== *)
theory Api_Concurrent
  imports Manager_Contract
begin

section \<open>Requests served at the same time\<close>

text \<open>
  \<open>net/http\<close> serves every request on a goroutine of its own. Here a request is a program over the state, a tree whose
  nodes are the calls that touch the state: drawing the request ID and the repository methods. A method of the in-memory
  stores holds their mutex from the first statement to the last and a method of the PostgreSQL repositories is one SQL
  statement, so one call is one atomic step, and the requests in flight interleave at the calls. Run alone, a program is
  the handler of \<open>Api\<close> (\<open>run_request\<close>).
\<close>

datatype 'w prog = Answer "http_response option" | Call "'w \<Rightarrow> 'w prog \<times> 'w"

definition call :: "('w \<Rightarrow> 'a \<times> 'w) \<Rightarrow> ('a \<Rightarrow> 'w prog) \<Rightarrow> 'w prog" where
  "call m k = Call (\<lambda>w. let (a, w1) = m w in (k a, w1))"

primrec run :: "'w prog \<Rightarrow> 'w \<Rightarrow> http_response option \<times> 'w" where
  "run (Answer a) = (\<lambda>w. (a, w))"
| "run (Call f) = (\<lambda>w. let (g, w1) = map_prod run id (f w) in g w1)"

text \<open>Code that runs on the answer of the handler below and makes no call of its own: the middlewares after
  \<open>next.ServeHTTP\<close>.\<close>

primrec on_answer :: "(http_response option \<Rightarrow> http_response option) \<Rightarrow> 'w prog \<Rightarrow> 'w prog" where
  "on_answer h (Answer a) = Answer (h a)"
| "on_answer h (Call f) = Call (\<lambda>w. map_prod (on_answer h) id (f w))"

lemma run_call [simp]: "run (call m k) w = (let (a, w1) = m w in run (k a) w1)"
  by (simp add: call_def split: prod.split)

lemma run_on_answer [simp]: "run (on_answer h p) w = map_prod h id (run p w)"
proof (induction p arbitrary: w)
  case (Call f)
  show ?case
  proof (cases "f w")
    case (Pair p w1)
    then have "p \<in> Basic_BNFs.fsts (f w)" by simp
    with Call have "run (on_answer h p) w1 = map_prod h id (run p w1)" by blast
    with Pair show ?thesis by (simp add: id_def)
  qed
qed simp

lemma on_answer_call: "on_answer h (call m k) = call m (\<lambda>a. on_answer h (k a))"
  by (simp add: call_def fun_eq_iff split: prod.split)

subsection \<open>The handlers as programs\<close>

definition reply :: "http_response \<Rightarrow> 'w prog" where
  "reply resp = Answer (Some resp)"

definition list_prog :: "'w cluster_repository \<Rightarrow> 'w prog" where
  "list_prog C = call (ListClusters C) (\<lambda>r.
     case r of
       Inl err \<Rightarrow> reply writeInternalError
     | Inr clusters \<Rightarrow> reply (writeJSON 200 (ClusterListBody clusters (length clusters))))"

definition create_prog :: "api_outside \<Rightarrow> 'w cluster_repository \<Rightarrow> string \<Rightarrow> 'w prog" where
  "create_prog out C body =
     (case decode_create out body of
        None \<Rightarrow> reply (validation_error ''request body is not valid JSON'')
      | Some req \<Rightarrow>
          if TrimSpace (cr_Name req) = '''' \<or> TrimSpace (cr_LXDEndpoint req) = ''''
          then reply (validation_error ''name and lxd_endpoint are required'')
          else call (CreateCluster C (cluster_of_request req)) (\<lambda>r.
            case r of
              Inl err \<Rightarrow>
                if errors_is err (PersistenceErr ErrConflict)
                then reply (writeError 409 ''conflict'' ''a cluster with that name already exists'')
                else reply writeInternalError
            | Inr created \<Rightarrow> reply (writeJSON 201 (ClusterBody created))))"

definition get_prog :: "'w cluster_repository \<Rightarrow> string \<Rightarrow> 'w prog" where
  "get_prog C cid = call (GetCluster C cid) (\<lambda>r.
     case r of
       Inl err \<Rightarrow>
         if errors_is err (PersistenceErr ErrNotFound)
         then reply (writeError 404 ''not_found'' ''cluster not found'')
         else reply writeInternalError
     | Inr c \<Rightarrow> reply (writeJSON 200 (ClusterBody c)))"

text \<open>A PUT makes two calls. Between them it holds the row that it read, with its fields merged in.\<close>

definition store_prog :: "'w cluster_repository \<Rightarrow> cluster \<Rightarrow> 'w prog" where
  "store_prog C merged = call (UpdateCluster C merged) (\<lambda>r.
     case r of
       Inl err \<Rightarrow>
         if errors_is err (PersistenceErr ErrNotFound)
         then reply (writeError 404 ''not_found'' ''cluster not found'')
         else if errors_is err (PersistenceErr ErrConflict)
         then reply (writeError 409 ''conflict'' ''a cluster with that name already exists'')
         else reply writeInternalError
     | Inr updated \<Rightarrow> reply (writeJSON 200 (ClusterBody updated)))"

definition update_prog :: "api_outside \<Rightarrow> 'w cluster_repository \<Rightarrow> string \<Rightarrow> string \<Rightarrow> 'w prog" where
  "update_prog out C cid body =
     (case decode_update out body of
        None \<Rightarrow> reply (validation_error ''request body is not valid JSON'')
      | Some req \<Rightarrow> call (GetCluster C cid) (\<lambda>r.
          case r of
            Inl err \<Rightarrow>
              if errors_is err (PersistenceErr ErrNotFound)
              then reply (writeError 404 ''not_found'' ''cluster not found'')
              else reply writeInternalError
          | Inr existing \<Rightarrow>
              (case merge_update req existing of
                 Inl message \<Rightarrow> reply (validation_error message)
               | Inr merged \<Rightarrow> store_prog C merged)))"

definition delete_prog :: "'w cluster_repository \<Rightarrow> string \<Rightarrow> 'w prog" where
  "delete_prog C cid = call (DeleteCluster C cid) (\<lambda>r.
     case r of
       Some err \<Rightarrow>
         if errors_is err (PersistenceErr ErrNotFound)
         then reply (writeError 404 ''not_found'' ''cluster not found'')
         else reply writeInternalError
     | None \<Rightarrow> reply \<lparr>rs_Status = 204, rs_Headers = [], rs_Body = NoBody\<rparr>)"

definition clusters_prog :: "api_outside \<Rightarrow> 'w cluster_repository \<Rightarrow> http_request \<Rightarrow> 'w prog option" where
  "clusters_prog out C r =
     (case hr_Path r of
        [a, b] \<Rightarrow>
          if is_get r then Some (list_prog C)
          else if hr_Method r = ''POST'' then Some (create_prog out C (hr_Body r))
          else None
      | [a, b, cid] \<Rightarrow>
          if is_get r then Some (get_prog C cid)
          else if hr_Method r = ''PUT'' then Some (update_prog out C cid (hr_Body r))
          else if hr_Method r = ''DELETE'' then Some (delete_prog C cid)
          else None
      | _ \<Rightarrow> None)"

definition guarded_prog :: "(string \<Rightarrow> string \<Rightarrow> bool) \<Rightarrow> string list \<Rightarrow> http_request \<Rightarrow> 'w prog \<Rightarrow> 'w prog" where
  "guarded_prog compare hashes r next_prog =
     (case bearerToken r of
        None \<Rightarrow> reply writeUnauthorized
      | Some token \<Rightarrow> if \<not> validateAPIKey compare token hashes then reply writeUnauthorized else next_prog)"

definition mux_prog :: "api_outside \<Rightarrow> 'w Server \<Rightarrow> http_request \<Rightarrow> 'w prog" where
  "mux_prog out s r =
     (if hr_Path r = [''v1'', ''health'']
      then (if is_get r then reply \<lparr>rs_Status = 200, rs_Headers = [json_header], rs_Body = HealthBody\<rparr>
            else reply method_not_allowed)
      else
        (case sv_clusters s of
           None \<Rightarrow> reply not_found_page
         | Some C \<Rightarrow>
             if is_clusters_path (hr_Path r)
             then (case clusters_prog out C r of
                     None \<Rightarrow> reply method_not_allowed
                   | Some p \<Rightarrow> guarded_prog (compare_hash out) (sv_apiKeyHashes s) r p)
             else reply not_found_page))"

definition recovered :: "http_response option \<Rightarrow> http_response option" where
  "recovered a = (case a of None \<Rightarrow> Some writeInternalError | Some resp \<Rightarrow> Some resp)"

definition with_id :: "string \<Rightarrow> http_response option \<Rightarrow> http_response option" where
  "with_id rid a = map_option (\<lambda>x. x\<lparr>rs_Headers := (''X-Request-ID'', rid) # rs_Headers x\<rparr>) a"

text \<open>The first step takes the request up: the ID that came with it, or a new one.\<close>

definition request_prog :: "'w rand16 \<Rightarrow> api_outside \<Rightarrow> 'w Server \<Rightarrow> http_request \<Rightarrow> 'w prog" where
  "request_prog rnd out s r =
     call (\<lambda>w. if hr_RequestID r = '''' then newRequestID rnd w else (hr_RequestID r, w))
       (\<lambda>rid. on_answer (with_id rid) (on_answer recovered (mux_prog out s r)))"

lemma run_reply [simp]: "run (reply resp) w = (Some resp, w)"
  by (simp add: reply_def)

lemma reply_eq [simp]: "reply a = reply b \<longleftrightarrow> a = b"
  by (simp add: reply_def)

lemma on_answer_reply [simp]: "on_answer h (reply resp) = Answer (h (Some resp))"
  by (simp add: reply_def)

lemma run_handlers:
  "run (list_prog C) w = some_response (handleListClusters C w)"
  "run (create_prog out C body) w = some_response (handleCreateCluster out C body w)"
  "run (get_prog C cid) w = some_response (handleGetCluster C cid w)"
  "run (update_prog out C cid body) w = some_response (handleUpdateCluster out C cid body w)"
  "run (delete_prog C cid) w = some_response (handleDeleteCluster C cid w)"
  by (simp_all add: list_prog_def handleListClusters_def create_prog_def handleCreateCluster_def get_prog_def handleGetCluster_def
      update_prog_def store_prog_def handleUpdateCluster_def delete_prog_def handleDeleteCluster_def some_response_def
      split: prod.split sum.split option.split)

lemma run_clusters_prog:
  "(case clusters_prog out C r of None \<Rightarrow> clusters_handler out C r = None
    | Some p \<Rightarrow> \<exists>h. clusters_handler out C r = Some h \<and> (\<forall>w. run p w = h r w))"
  by (simp add: clusters_prog_def clusters_handler_def run_handlers split: list.split)

lemma run_mux_prog: "run (mux_prog out s r) w = mux out s r w"
  using run_clusters_prog [of out "the (sv_clusters s)" r]
  by (auto simp: mux_prog_def mux_def guarded_prog_def RequireAPIKey_def handleHealth_def some_response_def split: option.split)

text \<open>A request that no other request runs beside is served as \<open>ServeHTTP\<close> says.\<close>

lemma run_request: "run (request_prog rnd out s r) w = ServeHTTP rnd out s r w"
  by (simp add: request_prog_def ServeHTTP_def RequestID_def Recoverer_def run_mux_prog with_id_def recovered_def Let_def
      split: prod.split option.split)

section \<open>The interleaving\<close>

text \<open>The requests in flight by number, and one step: one of them makes its next call.\<close>

type_synonym 'w in_flight = "'w \<times> 'w prog list"

inductive conc_step :: "'w in_flight \<Rightarrow> 'w in_flight \<Rightarrow> bool" where
  "i < length ps \<Longrightarrow> ps ! i = Call f \<Longrightarrow> f w = (p, w') \<Longrightarrow> conc_step (w, ps) (w', ps[i := p])"

inductive_cases conc_stepE: "conc_step (w, ps) c"

text \<open>The same, for a given schedule: which request makes the next call. An answered request stays answered.\<close>

fun schedule :: "nat list \<Rightarrow> 'w in_flight \<Rightarrow> 'w in_flight" where
  "schedule [] c = c"
| "schedule (i # is) (w, ps) =
     (if i < length ps
      then (case ps ! i of
              Answer a \<Rightarrow> schedule is (w, ps)
            | Call f \<Rightarrow> let (p, w1) = f w in schedule is (w1, ps[i := p]))
      else schedule is (w, ps))"

lemma schedule_reachable: "conc_step\<^sup>*\<^sup>* c (schedule is c)"
proof (induction "is" c rule: schedule.induct)
  case (2 i "is" w ps)
  show ?case
  proof (cases "i < length ps")
    case True
    show ?thesis
    proof (cases "ps ! i")
      case (Answer a)
      with True 2(1) show ?thesis by simp
    next
      case (Call f)
      obtain p w1 where f: "f w = (p, w1)" by (rule that [OF surjective_pairing])
      from True Call f have "conc_step (w, ps) (w1, ps[i := p])" by (rule conc_step.intros)
      with True Call f 2(2) [OF True Call f [symmetric] refl] show ?thesis
        by (simp add: converse_rtranclp_into_rtranclp)
    qed
  next
    case False
    with 2(3) show ?thesis by simp
  qed
qed simp

lemma reachable_schedule:
  assumes "conc_step\<^sup>*\<^sup>* c c'"
  shows "\<exists>is. schedule is c = c'"
  using assms
proof (induction rule: converse_rtranclp_induct)
  case base
  show ?case by (rule exI [of _ "[]"]) simp
next
  case (step c d)
  from step.hyps(1) step.IH show ?case
  proof (cases rule: conc_step.cases)
    case (1 i ps f w p w')
    from step.IH 1(2) obtain "is" where "schedule is (w', ps[i := p]) = c'" by blast
    with 1 have "schedule (i # is) c = c'" by simp
    then show ?thesis ..
  qed
qed

subsection \<open>No request waits for another\<close>

text \<open>A program that answers within \<open>n\<close> calls, whatever the state is at each of them, and does not panic.\<close>

fun answers_within :: "nat \<Rightarrow> 'w prog \<Rightarrow> bool" where
  "answers_within n (Answer a) = (a \<noteq> None)"
| "answers_within 0 (Call f) = False"
| "answers_within (Suc n) (Call f) = (\<forall>w. answers_within n (fst (f w)))"

lemma answers_within_0: "answers_within 0 p \<longleftrightarrow> (\<exists>resp. p = Answer (Some resp))"
  by (cases p) simp_all

lemma answers_within_Suc: "answers_within n p \<Longrightarrow> answers_within (Suc n) p"
  by (induction n p rule: answers_within.induct) simp_all

lemma answers_within_reply [simp]: "answers_within n (reply resp)"
  by (simp add: reply_def)

lemma answers_within_call [simp]: "answers_within (Suc n) (call m k) \<longleftrightarrow> (\<forall>w. answers_within n (k (fst (m w))))"
  by (simp add: call_def case_prod_beta)

lemma answers_within_on_answer:
  "(\<And>resp. h (Some resp) \<noteq> None) \<Longrightarrow> answers_within n p \<Longrightarrow> answers_within n (on_answer h p)"
  by (induction n p rule: answers_within.induct) auto

lemma mux_prog_within: "answers_within (Suc (Suc 0)) (mux_prog out s r)"
  by (simp add: mux_prog_def guarded_prog_def clusters_prog_def list_prog_def create_prog_def get_prog_def update_prog_def
      store_prog_def delete_prog_def split: option.split list.split sum.split)

lemma request_prog_within: "answers_within 3 (request_prog rnd out s r)"
proof -
  have "answers_within (Suc (Suc 0)) (on_answer (with_id rid) (on_answer recovered (mux_prog out s r)))" for rid
    by (intro answers_within_on_answer mux_prog_within) (simp_all add: with_id_def recovered_def)
  then show ?thesis by (simp add: request_prog_def numeral_3_eq_3)
qed

lemma schedule_within:
  assumes "schedule is (w, ps) = (w', ps')" and "i < length ps" and "answers_within n (ps ! i)"
    and "n \<le> length (filter ((=) i) is)"
  shows "\<exists>resp. ps' ! i = Answer (Some resp)"
  using assms
proof (induction "is" "(w, ps)" arbitrary: w ps n rule: schedule.induct)
  case 1
  then show ?case by (simp add: answers_within_0)
next
  case (2 j "is" w ps)
  show ?case
  proof (cases "j < length ps")
    case True
    show ?thesis
    proof (cases "ps ! j")
      case (Answer a)
      show ?thesis
      proof (cases "j = i")
        case eq: True
        show ?thesis
          by (rule 2(1) [OF True Answer, where n = 0]) (use True Answer eq 2 in simp_all)
      next
        case False
        show ?thesis
          by (rule 2(1) [OF True Answer, where n = n]) (use True Answer False 2 in simp_all)
      qed
    next
      case (Call f)
      obtain p w1 where f: "f w = (p, w1)" by (rule that [OF surjective_pairing])
      note IH = 2(2) [OF True Call f [symmetric] refl]
      show ?thesis
      proof (cases "j = i")
        case eq: True
        with 2(6) Call f obtain m where m: "n = Suc m" "answers_within m p"
          by (cases n) (auto, metis fst_conv)
        show ?thesis
          by (rule IH [where n = m]) (use True Call f eq m 2 in simp_all)
      next
        case False
        show ?thesis
          by (rule IH [where n = n]) (use True Call f False 2 in simp_all)
      qed
    qed
  next
    case False
    show ?thesis
      by (rule 2(3) [OF False, where n = n]) (use False 2 in auto)
  qed
qed

section \<open>What the requests do to the table\<close>

text \<open>
  A PUT that succeeds merges its fields into the row that it read, from the table \<open>Told\<close> of an earlier moment, and
  replaces the row of the table \<open>T\<close> of now. Every other request is served as if it were alone.
\<close>

definition is_put :: "http_request \<Rightarrow> bool" where
  "is_put r \<longleftrightarrow> hr_Method r = ''PUT''"

definition served_from ::
    "api_outside \<Rightarrow> 'w Server \<Rightarrow> http_request \<Rightarrow> (string \<Rightarrow> cluster option) \<Rightarrow> (string \<Rightarrow> cluster option) \<Rightarrow>
     http_response \<Rightarrow> (string \<Rightarrow> cluster option) \<Rightarrow> bool" where
  "served_from out s r Told T resp T' \<longleftrightarrow>
     (if is_put r \<and> rs_Status resp < 300
      then authorised out s r \<and>
        (\<exists>cid req old c cur d. hr_Path r = [''v1'', ''clusters'', cid] \<and> decode_update out (hr_Body r) = Some req \<and>
           Told cid = Some old \<and> merge_update req old = Inr c \<and> rs_Body resp = ClusterBody d \<and>
           T cid = Some cur \<and> T' = T(cid \<mapsto> d) \<and> cluster_data d = cluster_data c \<and> c_CreatedAt d = c_CreatedAt cur)
      else served out s r T resp T')"

lemma served_from_refused: "300 \<le> rs_Status resp \<Longrightarrow> served_from out s r Told T resp T"
  by (simp add: served_from_def served_refused)

lemma served_from_headers [simp]:
  "served_from out s r Told T (resp\<lparr>rs_Headers := h\<rparr>) T' = served_from out s r Told T resp T'"
  by (simp add: served_from_def)

text \<open>A PUT is served as if it were alone when the row that it read is still there.\<close>

lemma served_from_fresh:
  assumes "served_from out s r Told T resp T'" and "\<And>cid. hr_Path r = [''v1'', ''clusters'', cid] \<Longrightarrow> is_put r \<Longrightarrow> Told cid = T cid"
  shows "served out s r T resp T'"
  using assms by (auto simp: served_from_def served_def is_put_def is_get_def split: if_splits)

text \<open>
  The table as the requests \<open>rs\<close> take effect, one after the other: the requests answered, in this order, with their
  responses, and the tables that there were, the last one first.
\<close>

inductive effects ::
    "api_outside \<Rightarrow> 'w Server \<Rightarrow> http_request list \<Rightarrow> (string \<Rightarrow> cluster option) \<Rightarrow> (nat \<times> http_response) list \<Rightarrow>
     (string \<Rightarrow> cluster option) list \<Rightarrow> bool"
  for out s rs T0 where
  none: "effects out s rs T0 [] [T0]"
| one_more: "effects out s rs T0 ans (T # Ts) \<Longrightarrow> i < length rs \<Longrightarrow> i \<notin> fst ` set ans \<Longrightarrow> Told \<in> set (T # Ts) \<Longrightarrow>
    served_from out s (rs ! i) Told T resp T' \<Longrightarrow> effects out s rs T0 (ans @ [(i, resp)]) (T' # T # Ts)"

lemma effects_log: "effects out s rs T0 ans Ts \<Longrightarrow> distinct (map fst ans) \<and> fst ` set ans \<subseteq> {..<length rs} \<and> Ts \<noteq> []"
  by (induction rule: effects.induct) auto

text \<open>Between its two calls a PUT holds the merge of a row that was there.\<close>

definition holds_merge ::
    "api_outside \<Rightarrow> 'w Server \<Rightarrow> http_request \<Rightarrow> (string \<Rightarrow> cluster option) list \<Rightarrow> cluster \<Rightarrow> bool" where
  "holds_merge out s r Ts merged \<longleftrightarrow> is_put r \<and> authorised out s r \<and>
     (\<exists>cid req old Told. hr_Path r = [''v1'', ''clusters'', cid] \<and> decode_update out (hr_Body r) = Some req \<and>
        Told \<in> set Ts \<and> Told cid = Some old \<and> merge_update req old = Inr merged \<and> c_ID merged = cid)"

lemma holds_merge_mono: "holds_merge out s r Ts merged \<Longrightarrow> set Ts \<subseteq> set Ts' \<Longrightarrow> holds_merge out s r Ts' merged"
  unfolding holds_merge_def by blast

text \<open>Where a request is: not taken up, taken up with its first call to the repository ahead, or about to store.\<close>

inductive underway ::
    "'w rand16 \<Rightarrow> api_outside \<Rightarrow> 'w Server \<Rightarrow> 'w cluster_repository \<Rightarrow> http_request \<Rightarrow> (string \<Rightarrow> cluster option) list \<Rightarrow>
     'w prog \<Rightarrow> bool"
  for rnd out s C r Ts where
  arrived: "underway rnd out s C r Ts (request_prog rnd out s r)"
| first_call: "mux_prog out s r = Call f \<Longrightarrow>
    underway rnd out s C r Ts (on_answer (with_id rid) (on_answer recovered (mux_prog out s r)))"
| storing: "holds_merge out s r Ts merged \<Longrightarrow>
    underway rnd out s C r Ts (on_answer (with_id rid) (on_answer recovered (store_prog C merged)))"

lemma underway_mono: "underway rnd out s C r Ts p \<Longrightarrow> set Ts \<subseteq> set Ts' \<Longrightarrow> underway rnd out s C r Ts' p"
proof (induction rule: underway.induct)
  case (first_call f rid)
  then show ?case by (intro underway.first_call)
qed (auto intro: underway.intros holds_merge_mono)

text \<open>A first call that does not answer is the read of a PUT.\<close>

lemma mux_prog_continues:
  assumes "mux_prog out s r = Call f" and "f w = (Call g, w1)" and "sv_clusters s = Some C"
  obtains cid req old merged where "hr_Path r = [''v1'', ''clusters'', cid]" and "is_put r" and "authorised out s r"
    and "decode_update out (hr_Body r) = Some req" and "GetCluster C cid w = (Inr old, w1)"
    and "merge_update req old = Inr merged" and "Call g = store_prog C merged"
proof -
  from assms(1,3) obtain p where p: "clusters_prog out C r = Some p" "p = Call f" "is_clusters_path (hr_Path r)" "authorised out s r"
    by (auto simp: mux_prog_def guarded_prog_def reply_def authorised_def validateAPIKey_iff split: if_splits option.splits)
  with assms(2) obtain a b cid where cid: "hr_Path r = [a, b, cid]" "hr_Method r = ''PUT''" "p = update_prog out C cid (hr_Body r)"
    by (auto simp: clusters_prog_def list_prog_def create_prog_def get_prog_def delete_prog_def reply_def call_def case_prod_beta
        split: list.splits if_splits option.splits sum.splits)
  from p(2) cid(3) obtain req where req: "decode_update out (hr_Body r) = Some req"
    by (cases "decode_update out (hr_Body r)") (simp_all add: update_prog_def reply_def)
  obtain a' v where g: "GetCluster C cid w = (a', v)" by (rule that [OF surjective_pairing])
  from p(2) cid(3) req have "f = (\<lambda>w. let (a, w1) = GetCluster C cid w in ((case a of
            Inl err \<Rightarrow>
              if errors_is err (PersistenceErr ErrNotFound)
              then reply (writeError 404 ''not_found'' ''cluster not found'')
              else reply writeInternalError
          | Inr existing \<Rightarrow>
              (case merge_update req existing of
                 Inl message \<Rightarrow> reply (validation_error message)
               | Inr merged \<Rightarrow> store_prog C merged)), w1))" by (simp add: update_prog_def call_def)
  with assms(2) g obtain old merged where "a' = Inr old" "merge_update req old = Inr merged" "Call g = store_prog C merged" "v = w1"
    by (auto simp: reply_def split: sum.splits if_splits)
  with that cid p(3,4) req g show ?thesis by (auto simp: is_put_def is_clusters_path_def)
qed

text \<open>
  The invariant of the interleaving: the requests answered so far are those that took effect, with their responses,
  and every other request is under way.
\<close>

definition concurrent_inv ::
    "'w rand16 \<Rightarrow> api_outside \<Rightarrow> 'w Server \<Rightarrow> 'w cluster_repository \<Rightarrow> http_request list \<Rightarrow> 'w prog list \<Rightarrow>
     (nat \<times> http_response) list \<Rightarrow> (string \<Rightarrow> cluster option) list \<Rightarrow> bool" where
  "concurrent_inv rnd out s C rs ps ans Ts \<longleftrightarrow> length ps = length rs \<and>
     (\<forall>i < length rs. (\<exists>resp. ps ! i = Answer (Some resp) \<and> (i, resp) \<in> set ans) \<or>
        i \<notin> fst ` set ans \<and> underway rnd out s C (rs ! i) Ts (ps ! i))"

lemma concurrent_inv_start: "concurrent_inv rnd out s C rs (map (request_prog rnd out s) rs) [] Ts"
  by (simp add: concurrent_inv_def underway.arrived)

text \<open>One request moves on, or is answered; the others stay where they are.\<close>

lemma concurrent_inv_move:
  assumes "concurrent_inv rnd out s C rs ps ans Ts" and "i \<notin> fst ` set ans" and "underway rnd out s C (rs ! i) Ts p"
  shows "concurrent_inv rnd out s C rs (ps[i := p]) ans Ts"
proof -
  have "(\<exists>x. ps[i := p] ! j = Answer (Some x) \<and> (j, x) \<in> set ans) \<or>
        j \<notin> fst ` set ans \<and> underway rnd out s C (rs ! j) Ts (ps[i := p] ! j)" if "j < length rs" for j
    by (cases "j = i") (use assms that in \<open>simp_all add: concurrent_inv_def\<close>)
  with assms(1) show ?thesis by (simp add: concurrent_inv_def)
qed

lemma concurrent_inv_answer:
  assumes "concurrent_inv rnd out s C rs ps ans Ts" and "i \<notin> fst ` set ans"
  shows "concurrent_inv rnd out s C rs (ps[i := Answer (Some resp)]) (ans @ [(i, resp)]) (T # Ts)"
proof -
  have "(\<exists>x. ps[i := Answer (Some resp)] ! j = Answer (Some x) \<and> (j, x) \<in> set (ans @ [(i, resp)])) \<or>
        j \<notin> fst ` set (ans @ [(i, resp)]) \<and> underway rnd out s C (rs ! j) (T # Ts) (ps[i := Answer (Some resp)] ! j)"
    if "j < length rs" for j
  proof (cases "j = i")
    case True
    with assms(1) that show ?thesis by (simp add: concurrent_inv_def)
  next
    case False
    with assms(1) that consider resp' where "ps ! j = Answer (Some resp')" "(j, resp') \<in> set ans"
      | "j \<notin> fst ` set ans" "underway rnd out s C (rs ! j) Ts (ps ! j)" unfolding concurrent_inv_def by blast
    then show ?thesis
    proof cases
      case 1
      with False show ?thesis by simp
    next
      case 2
      from underway_mono [OF 2(2), of "T # Ts"] 2(1) False show ?thesis by auto
    qed
  qed
  with assms(1) show ?thesis by (simp add: concurrent_inv_def)
qed

text \<open>A PUT that is answered before it stores is refused.\<close>

lemma put_answered_early:
  assumes "is_put r"
  shows "mux_prog out s r = reply resp \<Longrightarrow> 300 \<le> rs_Status resp"
    and "mux_prog out s r = Call f \<Longrightarrow> f w = (reply resp, w') \<Longrightarrow> 300 \<le> rs_Status resp"
  using assms
  by (auto simp: mux_prog_def guarded_prog_def clusters_prog_def update_prog_def store_prog_def reply_def is_put_def
      is_get_def call_def case_prod_beta split: if_splits option.splits list.splits sum.splits)

lemma with_id_recovered: "\<exists>resp'. with_id rid (recovered (Some resp)) = Some resp' \<and>
    (\<exists>h. resp' = resp\<lparr>rs_Headers := h\<rparr>)"
  by (auto simp: with_id_def recovered_def)

lemma on_answer_cases: "on_answer h p = Answer a \<longleftrightarrow> (\<exists>b. p = Answer b \<and> a = h b)"
  by (cases p) auto

context cluster_repo
begin

text \<open>The second call of a PUT.\<close>

lemma store_prog_served:
  assumes "inv w" and "holds_merge out s r Ts merged" and "store_prog R merged = Call f" and "f w = (p, w')"
  shows "inv w' \<and> (\<exists>resp Told. p = reply resp \<and> Told \<in> set Ts \<and> served_from out s r Told (clusters w) resp (clusters w'))"
proof -
  from assms(2) obtain cid req old Told where h: "is_put r" "authorised out s r" "hr_Path r = [''v1'', ''clusters'', cid]"
    "decode_update out (hr_Body r) = Some req" "Told \<in> set Ts" "Told cid = Some old" "merge_update req old = Inr merged"
    "c_ID merged = cid" unfolding holds_merge_def by blast
  obtain a w1 where u: "UpdateCluster R merged w = (a, w1)" by (rule that [OF surjective_pairing])
  show ?thesis
  proof (cases a)
    case (Inl e)
    with assms(3,4) u have "\<exists>resp. p = reply resp \<and> 300 \<le> rs_Status resp" "w' = w1"
      by (auto simp: store_prog_def call_def split: if_splits)
    with update_err [OF assms(1), of merged e w1] u Inl h(5) served_from_refused show ?thesis by metis
  next
    case (Inr d)
    with assms(3,4) u have p: "p = reply (writeJSON 200 (ClusterBody d))" "w' = w1"
      by (auto simp: store_prog_def call_def)
    from update_ok [OF assms(1), of merged d w1] u Inr obtain cur where d: "inv w1" "clusters w1 = (clusters w)(cid \<mapsto> d)"
      "cluster_data d = cluster_data merged" "clusters w cid = Some cur" "c_CreatedAt d = c_CreatedAt cur"
      unfolding h(8) by blast
    have "served_from out s r Told (clusters w) (writeJSON 200 (ClusterBody d)) (clusters w1)"
      using h d by (simp add: served_from_def writeJSON_def)
    with p d(1) h(5) show ?thesis by blast
  qed
qed

text \<open>The first call to the repository.\<close>

lemma mux_prog_served:
  assumes "inv w" and "sv_clusters s = Some R" and "mux_prog out s r = Call f" and "f w = (p, w')"
  shows "inv w' \<and> ((\<exists>resp. p = reply resp \<and> served out s r (clusters w) resp (clusters w')) \<or>
    clusters w' = clusters w \<and> (\<exists>merged. p = store_prog R merged \<and> holds_merge out s r [clusters w] merged))"
proof (cases p)
  case (Answer a)
  with assms(3,4) have "run (mux_prog out s r) w = (a, w')" by simp
  with mux_served [OF assms(1,2), of out r a w'] Answer show ?thesis by (auto simp: run_mux_prog reply_def)
next
  case (Call g)
  from mux_prog_continues [OF assms(3) _ assms(2), of w g w'] assms(4) Call obtain cid req old merged where
    r: "hr_Path r = [''v1'', ''clusters'', cid]" "is_put r" "authorised out s r" "decode_update out (hr_Body r) = Some req"
      "GetCluster R cid w = (Inr old, w')" "merge_update req old = Inr merged" "p = store_prog R merged" by metis
  have "clusters w cid = Some old" using get_ok [OF assms(1) r(5)] .
  moreover from this have "c_ID merged = cid" using merge_update_fields [OF r(6)] cluster_key [OF assms(1)] by simp
  ultimately have "holds_merge out s r [clusters w] merged" using r(1,2,3,4,6) by (simp add: holds_merge_def)
  with get_frame [OF assms(1) r(5)] r(7) show ?thesis by blast
qed

text \<open>One step keeps the invariant and is at most one effect.\<close>

lemma conc_step_served:
  assumes "inv w" and "sv_clusters s = Some R"
    and rnd: "\<And>w b w'. inv w \<Longrightarrow> rnd w = (b, w') \<Longrightarrow> inv w' \<and> clusters w' = clusters w"
    and "effects out s rs T0 ans (clusters w # Ts)" and "concurrent_inv rnd out s R rs ps ans (clusters w # Ts)"
    and "i < length ps" and "ps ! i = Call f" and "f w = (p, w')"
  shows "inv w' \<and> (\<exists>ans' Ts'. effects out s rs T0 ans' (clusters w' # Ts') \<and>
    concurrent_inv rnd out s R rs (ps[i := p]) ans' (clusters w' # Ts'))"
proof -
  let ?Ts = "clusters w # Ts"
  from assms(5-7) have i: "i < length rs" "i \<notin> fst ` set ans" and u: "underway rnd out s R (rs ! i) ?Ts (Call f)"
    by (auto simp: concurrent_inv_def)
  have moved: ?thesis if "inv w'" "clusters w' = clusters w" "underway rnd out s R (rs ! i) ?Ts p"
    using that assms(4) concurrent_inv_move [OF assms(5) i(2) that(3)] by auto
  have answered: ?thesis if "inv w'" "p = Answer (with_id rid (recovered (Some resp)))" "Told \<in> set ?Ts"
    "served_from out s (rs ! i) Told (clusters w) resp (clusters w')" for rid resp Told
  proof -
    obtain resp' h where resp': "with_id rid (recovered (Some resp)) = Some resp'" "resp' = resp\<lparr>rs_Headers := h\<rparr>"
      using with_id_recovered by blast
    with that(4) have "served_from out s (rs ! i) Told (clusters w) resp' (clusters w')" by simp
    from effects.one_more [OF assms(4) i that(3) this] concurrent_inv_answer [OF assms(5) i(2), of resp' "clusters w'"]
    show ?thesis using that(1,2) resp'(1) by auto
  qed
  from u show ?thesis
  proof cases
    case arrived
    obtain rid v where v: "(if hr_RequestID (rs ! i) = '''' then newRequestID rnd w else (hr_RequestID (rs ! i), w)) = (rid, v)"
      by (rule that [OF surjective_pairing])
    from v assms(1) rnd [OF assms(1)] have w': "inv v" "clusters v = clusters w"
      by (auto simp: newRequestID_def split: if_splits prod.splits sum.splits)
    from arrived assms(8) v have p: "p = on_answer (with_id rid) (on_answer recovered (mux_prog out s (rs ! i)))" "w' = v"
      by (auto simp: request_prog_def call_def)
    show ?thesis
    proof (cases "mux_prog out s (rs ! i)")
      case (Answer a)
      with mux_served [OF assms(1,2), of out "rs ! i" a w] run_mux_prog [of out s "rs ! i" w]
      obtain resp where resp: "a = Some resp" "served out s (rs ! i) (clusters w) resp (clusters w)" by auto
      moreover have "300 \<le> rs_Status resp \<or> \<not> is_put (rs ! i)"
        using put_answered_early(1) [of "rs ! i" out s resp] Answer resp(1) by (auto simp: reply_def)
      ultimately have "served_from out s (rs ! i) (clusters w) (clusters w) resp (clusters w')"
        using p(2) w'(2) by (auto simp: served_from_def)
      with answered [of rid resp "clusters w"] p w'(1) Answer resp(1) show ?thesis by simp
    next
      case (Call g)
      with moved p w' underway.first_call [OF Call] show ?thesis by metis
    qed
  next
    case (first_call g rid)
    then have "f = (\<lambda>v. map_prod (on_answer (with_id rid)) id (map_prod (on_answer recovered) id (g v)))" by simp
    with assms(8) obtain q where q: "g w = (q, w')" "p = on_answer (with_id rid) (on_answer recovered q)"
      by (cases "g w") simp
    from mux_prog_served [OF assms(1,2) first_call(2) q(1)] have w': "inv w'"
      and c: "(\<exists>resp. q = reply resp \<and> served out s (rs ! i) (clusters w) resp (clusters w')) \<or>
        clusters w' = clusters w \<and> (\<exists>merged. q = store_prog R merged \<and> holds_merge out s (rs ! i) [clusters w] merged)"
      by simp_all
    from c show ?thesis
    proof (elim disjE exE conjE)
      fix resp assume r: "q = reply resp" "served out s (rs ! i) (clusters w) resp (clusters w')"
      have "300 \<le> rs_Status resp \<or> \<not> is_put (rs ! i)"
        using put_answered_early(2) [of "rs ! i", OF _ first_call(2), of w resp w'] q(1) r(1) by blast
      with r(2) have "served_from out s (rs ! i) (clusters w) (clusters w) resp (clusters w')"
        by (cases "300 \<le> rs_Status resp") (auto simp: served_from_def)
      with answered [OF w', of rid resp "clusters w"] q(2) r(1) show ?thesis by simp
    next
      fix merged assume m: "clusters w' = clusters w" "q = store_prog R merged" "holds_merge out s (rs ! i) [clusters w] merged"
      with moved w' q(2) underway.storing [OF holds_merge_mono [OF m(3), of ?Ts]] show ?thesis by simp
    qed
  next
    case (storing merged rid)
    obtain g where g: "store_prog R merged = Call g" by (simp add: store_prog_def call_def)
    with storing(1) have "f = (\<lambda>v. map_prod (on_answer (with_id rid)) id (map_prod (on_answer recovered) id (g v)))" by simp
    with assms(8) obtain q where q: "g w = (q, w')" "p = on_answer (with_id rid) (on_answer recovered q)"
      by (cases "g w") simp
    from store_prog_served [OF assms(1) storing(2) g q(1)] obtain resp Told where
      "inv w'" "q = reply resp" "Told \<in> set ?Ts" "served_from out s (rs ! i) Told (clusters w) resp (clusters w')" by blast
    with answered q(2) show ?thesis by simp
  qed
qed

lemma schedule_served:
  assumes "inv w" and "sv_clusters s = Some R"
    and rnd: "\<And>w b w'. inv w \<Longrightarrow> rnd w = (b, w') \<Longrightarrow> inv w' \<and> clusters w' = clusters w"
    and "effects out s rs T0 ans (clusters w # Ts)" and "concurrent_inv rnd out s R rs ps ans (clusters w # Ts)"
    and "schedule is (w, ps) = (w', ps')"
  shows "inv w' \<and> (\<exists>ans' Ts'. effects out s rs T0 ans' (clusters w' # Ts') \<and>
    concurrent_inv rnd out s R rs ps' ans' (clusters w' # Ts'))"
  using assms(1,4-6)
proof (induction "is" "(w, ps)" arbitrary: w ps ans Ts rule: schedule.induct)
  case 1
  then show ?case by auto
next
  case (2 i "is" w ps)
  show ?case
  proof (cases "i < length ps \<and> (\<exists>f. ps ! i = Call f)")
    case True
    then obtain f p w1 where f: "i < length ps" "ps ! i = Call f" "f w = (p, w1)"
      by (metis surjective_pairing)
    have "inv w1 \<and> (\<exists>ans' Ts'. effects out s rs T0 ans' (clusters w1 # Ts') \<and>
      concurrent_inv rnd out s R rs (ps[i := p]) ans' (clusters w1 # Ts'))"
      by (rule conc_step_served [OF 2(4) assms(2) _ 2(5,6) f]) (rule rnd)
    then obtain ans' Ts' where "inv w1" "effects out s rs T0 ans' (clusters w1 # Ts')"
      "concurrent_inv rnd out s R rs (ps[i := p]) ans' (clusters w1 # Ts')" by blast
    from 2(2) [OF f(1,2) f(3) [symmetric] refl this] 2(7) f show ?thesis by simp
  next
    case False
    show ?thesis
    proof (cases "i < length ps")
      case True
      with False obtain a where a: "ps ! i = Answer a" by (cases "ps ! i") auto
      with 2(1) [OF True a 2(4,5,6)] 2(7) True show ?thesis by simp
    next
      case not: False
      with 2(3) [OF not 2(4,5,6)] 2(7) show ?thesis by simp
    qed
  qed
qed

end

lemma concurrent_inv_answered:
  assumes "concurrent_inv rnd out s C rs ps ans Ts" and "effects out s rs T0 ans Ts"
  shows "set ans = {(i, resp). i < length ps \<and> ps ! i = Answer (Some resp)}"
proof (intro set_eqI iffI)
  fix x assume x: "x \<in> set ans"
  obtain i resp where i: "x = (i, resp)" by (rule that [OF surjective_pairing])
  from effects_log [OF assms(2)] x i have "i < length rs" by fastforce
  with assms(1) x i obtain resp' where "ps ! i = Answer (Some resp')" "(i, resp') \<in> set ans"
    unfolding concurrent_inv_def by force
  with effects_log [OF assms(2)] x i have "ps ! i = Answer (Some resp)" by (metis eq_key_imp_eq_value)
  with \<open>i < length rs\<close> assms(1) i show "x \<in> {(i, resp). i < length ps \<and> ps ! i = Answer (Some resp)}"
    by (simp add: concurrent_inv_def)
next
  fix x assume "x \<in> {(i, resp). i < length ps \<and> ps ! i = Answer (Some resp)}"
  then obtain i resp where i: "x = (i, resp)" "i < length ps" "ps ! i = Answer (Some resp)" by blast
  with assms(1) consider "(i, resp) \<in> set ans" | "underway rnd out s C (rs ! i) Ts (Answer (Some resp))"
    unfolding concurrent_inv_def by auto
  then show "x \<in> set ans"
  proof cases
    case 2
    then have False by (cases rule: underway.cases) (auto simp: request_prog_def store_prog_def call_def)
    then show ?thesis ..
  qed (simp add: i(1))
qed

text \<open>Without a PUT the requests are served one after the other, each as if it were alone.\<close>

lemma table_run_snoc:
  "table_run out s events T resps T1 \<Longrightarrow> served out s r T1 resp T2 \<Longrightarrow>
     table_run out s (events @ [Request r]) T (resps @ [resp]) T2"
  by (induction rule: table_run.induct) (auto intro: table_run.intros)

lemma effects_sequential:
  assumes "effects out s rs T0 ans Ts" and "\<forall>r \<in> set rs. \<not> is_put r"
  shows "table_run out s (map (\<lambda>(i, _). Request (rs ! i)) ans) T0 (map snd ans) (hd Ts)"
  using assms
proof (induction rule: effects.induct)
  case none
  then show ?case by (simp add: table_run.ended)
next
  case (one_more ans T Ts i Told resp T')
  then have "served out s (rs ! i) T resp T'" by (simp add: served_from_def)
  with one_more show ?case by (simp add: table_run_snoc)
qed

section \<open>Two PUTs at once\<close>

lemma schedule_call:
  "i < length ps \<Longrightarrow> ps ! i = call m k \<Longrightarrow>
     schedule (i # is) (w, ps) = (let (a, w1) = m w in schedule is (w1, ps[i := k a]))"
  by (simp add: call_def split: prod.split)

lemma schedule_answered: "schedule is (w, ps) = (w', ps') \<Longrightarrow> i < length ps \<Longrightarrow> ps ! i = Answer a \<Longrightarrow> ps' ! i = Answer a"
proof (induction "is" "(w, ps)" arbitrary: w ps rule: schedule.induct)
  case (2 j "is" w ps)
  show ?case
  proof (cases "j < length ps \<and> (\<exists>f. ps ! j = Call f)")
    case True
    then obtain f p w1 where f: "j < length ps" "ps ! j = Call f" "f w = (p, w1)" by (metis surjective_pairing)
    with 2(6) have "j \<noteq> i" by auto
    with 2(2) [OF f(1,2) f(3) [symmetric] refl] 2(4-6) f show ?thesis by simp
  next
    case False
    show ?thesis
    proof (cases "j < length ps")
      case True
      with False obtain b where "ps ! j = Answer b" by (cases "ps ! j") auto
      with 2(1) [OF True this] 2(4-6) True show ?thesis by simp
    next
      case not: False
      with 2(3) [OF not] 2(4-6) show ?thesis by simp
    qed
  qed
qed simp

lemma data_status: "cluster_data c = cluster_data d \<Longrightarrow> c_Status c = c_Status d"
  by (cases c, cases d, simp add: cluster_data_def)

lemma merge_update_status:
  "merge_update req c = Inr d \<Longrightarrow> c_Status d = (case ur_Status req of None \<Rightarrow> c_Status c | Some x \<Rightarrow> x)"
  by (auto simp: merge_update_def merge_name_def merge_endpoint_def merge_rest_def split: option.splits if_splits)

text \<open>A successful PUT, alone, sets the status that it gives and leaves it otherwise.\<close>

lemma served_put_status:
  assumes "served out s r T resp T'" and "rs_Status resp = 200" and "is_put r" and "hr_Path r = [''v1'', ''clusters'', cid]"
    and "decode_update out (hr_Body r) = Some q"
  obtains old d where "T cid = Some old" and "T' cid = Some d"
    and "c_Status d = (case ur_Status q of None \<Rightarrow> c_Status old | Some x \<Rightarrow> x)"
  using assms by (auto simp: served_def is_put_def is_get_def dest!: data_status merge_update_status split: if_splits)

text \<open>Of two successful PUTs, one after the other, that give a status in the first only, the status given stays.\<close>

lemma puts_one_after_the_other:
  assumes put: "\<And>r. r \<in> {r1, r2} \<Longrightarrow> is_put r \<and> authorised out s r \<and> hr_Path r = [''v1'', ''clusters'', cid] \<and> hr_RequestID r \<noteq> ''''"
    and q: "decode_update out (hr_Body r1) = Some q1" "decode_update out (hr_Body r2) = Some q2"
      "ur_Status q1 = Some st" "ur_Status q2 = None"
    and x: "rs_Status x1 = 200" "rs_Status x2 = 200"
    and "table_run out s [Request r1, Request r2] T [x1, x2] T' \<or> table_run out s [Request r2, Request r1] T [x2, x1] T'"
  shows "\<exists>d. T' cid = Some d \<and> c_Status d = st"
proof -
  from put have p: "is_put r1" "hr_Path r1 = [''v1'', ''clusters'', cid]" "is_put r2" "hr_Path r2 = [''v1'', ''clusters'', cid]"
    by simp_all
  have first: "\<exists>d. U' cid = Some d \<and> c_Status d = st" if "served out s r1 U x1 U'" for U U'
    using served_put_status [OF that x(1) p(1,2) q(1)] q(3) by (metis option.simps(5))
  have second: "\<exists>old d. U cid = Some old \<and> U' cid = Some d \<and> c_Status d = c_Status old" if "served out s r2 U x2 U'" for U U'
    using served_put_status [OF that x(2) p(3,4) q(2)] q(4) by (metis option.simps(4))
  from assms(8) consider T1 where "served out s r1 T x1 T1" "served out s r2 T1 x2 T'"
    | T1 where "served out s r2 T x2 T1" "served out s r1 T1 x1 T'" by (auto simp: table_run_simps)
  then show ?thesis
  proof cases
    case 1
    with first [OF 1(1)] second [OF 1(2)] show ?thesis by auto
  next
    case 2
    with first [OF 2(2)] show ?thesis by simp
  qed
qed

text \<open>The program of a PUT, taken up and admitted.\<close>

definition put_prog :: "api_outside \<Rightarrow> 'w cluster_repository \<Rightarrow> string \<Rightarrow> string \<Rightarrow> string \<Rightarrow> 'w prog" where
  "put_prog out C rid cid body = on_answer (with_id rid) (on_answer recovered (update_prog out C cid body))"

definition put_store :: "'w cluster_repository \<Rightarrow> string \<Rightarrow> cluster \<Rightarrow> 'w prog" where
  "put_store C rid merged = on_answer (with_id rid) (on_answer recovered (store_prog C merged))"

lemma request_prog_put:
  assumes "sv_clusters s = Some C" and "is_put r" and "authorised out s r" and "hr_Path r = [''v1'', ''clusters'', cid]"
    and "cid \<noteq> ''''" and "hr_RequestID r \<noteq> ''''"
  shows "request_prog rnd out s r = call (\<lambda>w. (hr_RequestID r, w)) (\<lambda>rid. put_prog out C rid cid (hr_Body r))"
  using assms
  by (auto simp: request_prog_def put_prog_def mux_prog_def clusters_prog_def guarded_prog_def is_put_def is_get_def
      is_clusters_path_def authorised_def validateAPIKey_iff)

context cluster_repo
begin

text \<open>The two calls of a PUT that ends with 200, in any schedule.\<close>

lemma put_read:
  assumes "inv w" and "decode_update out body = Some req" and "i < length ps" and "ps ! i = put_prog out R rid cid body"
    and "schedule (i # is) (w, ps) = (w', ps')" and "ps' ! i = Answer (Some x)" and "rs_Status x = 200"
  obtains w1 old merged where "inv w1" and "clusters w1 = clusters w" and "clusters w cid = Some old"
    and "merge_update req old = Inr merged" and "c_ID merged = cid"
    and "schedule is (w1, ps[i := put_store R rid merged]) = (w', ps')"
proof -
  let ?h = "\<lambda>p. on_answer (with_id rid) (on_answer recovered p)"
  obtain a w1 where g: "GetCluster R cid w = (a, w1)" by (rule that [OF surjective_pairing])
  have put: "put_prog out R rid cid body = call (GetCluster R cid) (\<lambda>r. ?h (case r of
            Inl err \<Rightarrow>
              if errors_is err (PersistenceErr ErrNotFound)
              then reply (writeError 404 ''not_found'' ''cluster not found'')
              else reply writeInternalError
          | Inr existing \<Rightarrow>
              (case merge_update req existing of
                 Inl message \<Rightarrow> reply (validation_error message)
               | Inr merged \<Rightarrow> store_prog R merged)))"
    using assms(2) by (simp add: put_prog_def update_prog_def on_answer_call)
  have refused: False if "schedule is (w1, ps[i := Answer (with_id rid (recovered (Some resp)))]) = (w', ps')" "300 \<le> rs_Status resp" for resp
    using schedule_answered [OF that(1), of i "with_id rid (recovered (Some resp))"] assms(3,6,7) that(2)
    by (auto simp: with_id_def recovered_def)
  note run = assms(5) [unfolded schedule_call [OF assms(3) assms(4) [unfolded put]] g Let_def prod.case]
  show ?thesis
  proof (cases a)
    case (Inl e)
    with run show ?thesis by (auto split: if_splits dest: refused)
  next
    case (Inr old)
    show ?thesis
    proof (cases "merge_update req old")
      case (Inl m)
      with run refused Inr show ?thesis by fastforce
    next
      case m: (Inr merged)
      from get_ok [OF assms(1)] g Inr have old: "clusters w cid = Some old" by simp
      with merge_update_fields [OF m] cluster_key [OF assms(1)] have "c_ID merged = cid" by simp
      with that [of w1 old merged] get_frame [OF assms(1) g] old m run Inr show ?thesis by (simp add: put_store_def)
    qed
  qed
qed

lemma put_write:
  assumes "inv w" and "i < length ps" and "ps ! i = put_store R rid merged"
    and "schedule (i # is) (w, ps) = (w', ps')" and "ps' ! i = Answer (Some x)" and "rs_Status x = 200"
  obtains w1 d a where "inv w1" and "clusters w1 = (clusters w)(c_ID merged \<mapsto> d)" and "cluster_data d = cluster_data merged"
    and "schedule is (w1, ps[i := Answer a]) = (w', ps')"
proof -
  let ?h = "\<lambda>p. on_answer (with_id rid) (on_answer recovered p)"
  obtain a w1 where u: "UpdateCluster R merged w = (a, w1)" by (rule that [OF surjective_pairing])
  have put: "put_store R rid merged = call (UpdateCluster R merged) (\<lambda>r. ?h (case r of
       Inl err \<Rightarrow>
         if errors_is err (PersistenceErr ErrNotFound)
         then reply (writeError 404 ''not_found'' ''cluster not found'')
         else if errors_is err (PersistenceErr ErrConflict)
         then reply (writeError 409 ''conflict'' ''a cluster with that name already exists'')
         else reply writeInternalError
     | Inr updated \<Rightarrow> reply (writeJSON 200 (ClusterBody updated))))"
    by (simp add: put_store_def store_prog_def on_answer_call)
  have refused: False if "schedule is (w1, ps[i := Answer (with_id rid (recovered (Some resp)))]) = (w', ps')" "300 \<le> rs_Status resp" for resp
    using schedule_answered [OF that(1), of i "with_id rid (recovered (Some resp))"] assms(2,5,6) that(2)
    by (auto simp: with_id_def recovered_def)
  note run = assms(4) [unfolded schedule_call [OF assms(2) assms(3) [unfolded put]] u Let_def prod.case]
  show ?thesis
  proof (cases a)
    case (Inl e)
    with run show ?thesis by (auto split: if_splits dest: refused)
  next
    case (Inr d)
    with that [of w1 d] update_ok [OF assms(1), of merged d w1] u run show ?thesis by simp
  qed
qed

text \<open>Both PUTs read, then both store: what the first one stored is gone.\<close>

lemma put_race:
  assumes "inv w" and "sv_clusters s = Some R" and "cid \<noteq> ''''"
    and put: "\<And>r. r \<in> {r1, r2} \<Longrightarrow> is_put r \<and> authorised out s r \<and> hr_Path r = [''v1'', ''clusters'', cid] \<and> hr_RequestID r \<noteq> ''''"
    and q: "decode_update out (hr_Body r1) = Some q1" "decode_update out (hr_Body r2) = Some q2"
    and "schedule [0, 0, 1, 1, 0, 1] (w, map (request_prog rnd out s) [r1, r2]) = (w', [Answer (Some x1), Answer (Some x2)])"
    and "rs_Status x1 = 200" and "rs_Status x2 = 200"
  obtains old d c where "clusters w cid = Some old" and "merge_update q2 old = Inr c" and "clusters w' cid = Some d"
    and "cluster_data d = cluster_data c"
proof -
  let ?p1 = "put_prog out R (hr_RequestID r1) cid (hr_Body r1)" and ?p2 = "put_prog out R (hr_RequestID r2) cid (hr_Body r2)"
    and ?a = "[Answer (Some x1), Answer (Some x2)]" and ?s1 = "put_store R (hr_RequestID r1)" and ?s2 = "put_store R (hr_RequestID r2)"
  have r: "request_prog rnd out s r1 = call (\<lambda>w. (hr_RequestID r1, w)) (\<lambda>rid. put_prog out R rid cid (hr_Body r1))"
    "request_prog rnd out s r2 = call (\<lambda>w. (hr_RequestID r2, w)) (\<lambda>rid. put_prog out R rid cid (hr_Body r2))"
    using put assms(3) by (auto intro!: request_prog_put [OF assms(2)])
  from assms(7) have "schedule [0, 1, 1, 0, 1] (w, [?p1, request_prog rnd out s r2]) = (w', ?a)"
    by (simp only: list.map r(1) schedule_call nth_Cons_0 length_Cons zero_less_Suc Let_def prod.case list_update.simps nat.case)
  then obtain w1 old c1 where 1: "inv w1" "clusters w1 = clusters w" "clusters w cid = Some old" "merge_update q1 old = Inr c1"
    "c_ID c1 = cid" "schedule [1, 1, 0, 1] (w1, [?s1 c1, request_prog rnd out s r2]) = (w', ?a)"
    by (rule put_read [OF assms(1) q(1), rotated 2]) (use assms(8) in auto)
  from 1(6) have "schedule [1, 0, 1] (w1, [?s1 c1, ?p2]) = (w', ?a)"
    unfolding r(2) by (subst (asm) schedule_call) (auto simp: Let_def)
  then obtain w2 c2 where 2: "inv w2" "clusters w2 = clusters w" "merge_update q2 old = Inr c2" "c_ID c2 = cid"
    "schedule [0, 1] (w2, [?s1 c1, ?s2 c2]) = (w', ?a)"
    by (rule put_read [OF 1(1) q(2), rotated 2]) (use assms(9) 1(2,3) in auto)
  from 2(5) obtain w3 d1 a where 3: "inv w3" "schedule [1] (w3, [Answer a, ?s2 c2]) = (w', ?a)"
    by (rule put_write [OF 2(1), rotated 2]) (use assms(8) in auto)
  from 3(2) obtain w4 d b where "clusters w4 = (clusters w3)(c_ID c2 \<mapsto> d)" "cluster_data d = cluster_data c2"
    "schedule [] (w4, [Answer a, Answer b]) = (w', ?a)"
    by (rule put_write [OF 3(1), rotated 2]) (use assms(9) in auto)
  with that [of old c2 d] 1(3) 2(3,4) show ?thesis by simp
qed

end

section \<open>Properties\<close>


text \<open>C5. Two PUTs at the same time, on PostgreSQL, that both end with 200: when both read the cluster before either
  stores, the status that the first one set is gone, although the second left it out. No order of serving the two one
  after the other has these responses and this table, unless the status was set already.\<close>

theorem concurrent_puts_lose_update:
  assumes "sv_clusters s = Some (deployed_clusters pgo)" and "po_plain pgo" and "pg_ok (fst w)" and "cid \<noteq> ''''"
    and "\<And>r. r \<in> {r1, r2} \<Longrightarrow> is_put r \<and> authorised out s r \<and> hr_Path r = [''v1'', ''clusters'', cid] \<and> hr_RequestID r \<noteq> ''''"
    and "decode_update out (hr_Body r1) = Some q1" and "decode_update out (hr_Body r2) = Some q2"
    and "ur_Status q1 = Some st" and "ur_Status q2 = None"
    and "schedule [0, 0, 1, 1, 0, 1] (w, map (request_prog rnd out s) [r1, r2]) = (w', [Answer (Some x1), Answer (Some x2)])"
    and "rs_Status x1 = 200" and "rs_Status x2 = 200"
  defines "T \<equiv> row_of c_ID (pt_clusters (fst w))" and "T' \<equiv> row_of c_ID (pt_clusters (fst w'))"
  shows "\<exists>old d. T cid = Some old \<and> T' cid = Some d \<and> c_Status d = c_Status old \<and>
     (c_Status old \<noteq> st \<longrightarrow> \<not> table_run out s [Request r1, Request r2] T [x1, x2] T' \<and>
        \<not> table_run out s [Request r2, Request r1] T [x2, x1] T')"
proof -
  obtain old d c where c: "T cid = Some old" "merge_update q2 old = Inr c" "T' cid = Some d" "cluster_data d = cluster_data c"
    unfolding T_def T'_def
    by (rule pg_cluster.put_race [OF conjI [OF assms(2,3)] assms(1,4) assms(5) assms(6,7,10-12)])
  then have d: "c_Status d = c_Status old" using merge_update_status [OF c(2)] data_status [OF c(4)] assms(9) by simp
  have "c_Status old = st" if "table_run out s [Request r1, Request r2] T [x1, x2] T' \<or>
      table_run out s [Request r2, Request r1] T [x2, x1] T'"
    using puts_one_after_the_other [OF assms(5-9,11,12) that] c(3) d by simp
  with c(1,3) d show ?thesis by blast
qed

text \<open>No request waits for another. Whatever repository is behind the server and however the calls interleave,
  a request has its response, and did not panic, once it has made three calls: the request ID, the read and the store of a
  PUT.\<close>

theorem requests_never_wait:
  assumes "schedule is (w, map (request_prog rnd out s) rs) = (w', ps)" and "i < length rs"
    and "3 \<le> length (filter ((=) i) is)"
  shows "\<exists>resp. ps ! i = Answer (Some resp)"
  by (rule schedule_within [OF assms(1) _ _ assms(3)]) (simp_all add: assms(2) request_prog_within)

section \<open>Concrete requests\<close>

definition ex_conc_out :: api_outside where
  "ex_conc_out = ex_out\<lparr>decode_update := (\<lambda>b. Some \<lparr>ur_Name = (if b = ''status'' then None else Some b), ur_LXDEndpoint = None,
     ur_HyperscalerProvider = None, ur_HyperscalerConfig = None, ur_ScalingConfig = None,
     ur_Status = (if b = ''status'' then Some ''inactive'' else None)\<rparr>)\<rparr>"

definition ex_put :: "string \<Rightarrow> http_request" where
  "ex_put body = \<lparr>hr_Method = ''PUT'', hr_Path = [''v1'', ''clusters'', ''a''], hr_Authorization = ''Bearer k1'',
     hr_RequestID = ''r1'', hr_Body = body\<rparr>"

definition ex_pg_server :: "(pg \<times> nat) Server" where
  "ex_pg_server = \<lparr>sv_apiKeyHashes = [''k1''], sv_clusters = Some (deployed_clusters ex_pgo)\<rparr>"

definition ex_race :: "(pg \<times> nat) in_flight" where
  "ex_race = schedule [0, 0, 1, 1, 0, 1] ((ex_pg1, 0),
     map (request_prog (\<lambda>w. (Inr [], w)) ex_conc_out ex_pg_server) [ex_put ''status'', ex_put ''c2''])"

definition status_of :: "'w prog \<Rightarrow> nat" where
  "status_of p = (case p of Answer (Some x) \<Rightarrow> rs_Status x | _ \<Rightarrow> 0)"

lemma ex_race_eq:
  "map status_of (snd ex_race) = [200, 200]"
  by code_simp

lemma status_of_answer: "status_of p = m \<Longrightarrow> m \<noteq> 0 \<Longrightarrow> \<exists>x. p = Answer (Some x) \<and> rs_Status x = m"
  by (auto simp: status_of_def split: prog.splits option.splits)

lemma answers_of_statuses:
  assumes "map status_of ps = [m, n]" and "m \<noteq> 0" and "n \<noteq> 0"
  obtains x y where "ps = [Answer (Some x), Answer (Some y)]" and "rs_Status x = m" and "rs_Status y = n"
proof -
  from assms(1) obtain p q where ps: "ps = [p, q]" "status_of p = m" "status_of q = n" by (auto simp: map_eq_Cons_conv)
  with status_of_answer [OF ps(2) assms(2)] status_of_answer [OF ps(3) assms(3)] that show ?thesis by blast
qed

lemma ex_pg1_ok: "pg_ok ex_pg1"
  by (simp add: ex_pg1_eq pg_ok_def clusters_ok_def nodes_ok_def insts_ok_def cluster_check_def ex_pg_cluster_def)

lemma ex_pgo_plain: "po_plain ex_pgo"
  by (simp add: po_plain_def ex_pgo_def)

lemma ex_key_authorised: "authorised ex_conc_out ex_pg_server (ex_put body)" "authorised ex_conc_out ex_pg_server (ex_http ''Bearer k1'')"
proof -
  have "EqualFold ''Bearer'' ''bearer''" by code_simp
  then show "authorised ex_conc_out ex_pg_server (ex_put body)" "authorised ex_conc_out ex_pg_server (ex_http ''Bearer k1'')"
    by (simp_all add: authorised_def bearerToken_def ex_put_def ex_http_def ex_conc_out_def ex_out_def ex_pg_server_def)
qed

theorem concurrent_puts_lose_update_witness:
  "\<exists>w' x1 x2 d. ex_race = (w', [Answer (Some x1), Answer (Some x2)]) \<and> rs_Status x1 = 200 \<and> rs_Status x2 = 200 \<and>
     row_of c_ID (pt_clusters (fst w')) ''a'' = Some d \<and> c_Status d = ''active'' \<and>
     \<not> table_run ex_conc_out ex_pg_server [Request (ex_put ''status''), Request (ex_put ''c2'')]
         (row_of c_ID (pt_clusters ex_pg1)) [x1, x2] (row_of c_ID (pt_clusters (fst w')))"
proof -
  obtain x1 x2 where x: "snd ex_race = [Answer (Some x1), Answer (Some x2)]" "rs_Status x1 = 200" "rs_Status x2 = 200"
    by (rule answers_of_statuses [OF ex_race_eq]) simp_all
  then obtain w' where w': "ex_race = (w', [Answer (Some x1), Answer (Some x2)])" by (metis prod.collapse)
  have 1: "is_put r \<and> authorised ex_conc_out ex_pg_server r \<and> hr_Path r = [''v1'', ''clusters'', ''a''] \<and> hr_RequestID r \<noteq> ''''"
    if "r \<in> {ex_put ''status'', ex_put ''c2''}" for r
    using that ex_key_authorised by (auto simp: ex_put_def is_put_def)
  let ?q = "\<lambda>n st. \<lparr>ur_Name = n, ur_LXDEndpoint = None, ur_HyperscalerProvider = None, ur_HyperscalerConfig = None,
     ur_ScalingConfig = None, ur_Status = st\<rparr>"
  have q: "decode_update ex_conc_out (hr_Body (ex_put ''status'')) = Some (?q None (Some ''inactive''))"
    "decode_update ex_conc_out (hr_Body (ex_put ''c2'')) = Some (?q (Some ''c2'') None)"
    by (simp_all add: ex_conc_out_def ex_put_def)
  have s: "sv_clusters ex_pg_server = Some (deployed_clusters ex_pgo)" by (simp add: ex_pg_server_def)
  have "row_of c_ID (pt_clusters ex_pg1) ''a'' = Some (ex_pg_cluster\<lparr>c_ID := ''a''\<rparr>)" "c_Status ex_pg_cluster = ''active''"
    by (simp_all add: ex_pg1_eq ex_pg_cluster_def)
  with concurrent_puts_lose_update [OF s ex_pgo_plain _ _ 1 q _ _ w' [unfolded ex_race_def] x(2,3)] ex_pg1_ok
  obtain d where "row_of c_ID (pt_clusters (fst w')) ''a'' = Some d" "c_Status d = ''active''"
    "\<not> table_run ex_conc_out ex_pg_server [Request (ex_put ''status''), Request (ex_put ''c2'')]
         (row_of c_ID (pt_clusters ex_pg1)) [x1, x2] (row_of c_ID (pt_clusters (fst w')))" by auto
  with w' x(2,3) show ?thesis by blast
qed

definition ex_delete :: http_request where
  "ex_delete = (ex_put '''')\<lparr>hr_Method := ''DELETE''\<rparr>"

definition ex_reads :: "(pg \<times> nat) in_flight" where
  "ex_reads = schedule [0, 1, 1, 0] ((ex_pg1, 0),
     map (request_prog (\<lambda>w. (Inr [], w)) ex_conc_out ex_pg_server) [ex_http ''Bearer k1'', ex_delete])"

lemma ex_reads_eq:
  "map status_of (snd ex_reads) = [200, 204]"
  "pt_clusters (fst (fst ex_reads)) = []"
  by code_simp+


theorem requests_never_wait_witness:
  "\<exists>resp. snd (schedule [0, 1, 0, 1, 1, 0] ((ex_pg1, 0::nat),
     map (request_prog (\<lambda>w. (Inr [], w)) ex_conc_out ex_pg_server) [ex_put ''status'', ex_put ''c2''])) ! 1 = Answer (Some resp)"
  by (rule requests_never_wait [OF surjective_pairing]) simp_all

end
