(* ===== verification/Migration.thy ===== *)
theory Migration
  imports Go_Strings Sort_Slice
begin

section \<open>The migration runner (internal/migration)\<close>

text \<open>
  The runner over a file system and a PostgreSQL database. What a SQL script does to the data is the
  argument \<open>so_exec\<close>, the order of text in \<open>ORDER BY\<close> (the collation) is \<open>so_less\<close>, and \<open>so_fault\<close> tells which
  statement fails on the way to the server; a commit whose answer is lost may have happened
  (\<open>so_lost\<close>). The statements on the table \<open>schema_migrations\<close> are those of the source. Scripts do not
  touch that table.
\<close>

record 'd sql_outside =
  so_exec :: "string \<Rightarrow> 'd \<Rightarrow> 'd res"
  so_less :: "string \<Rightarrow> string \<Rightarrow> bool"
  so_fault :: "nat \<Rightarrow> go_error option"
  so_lost :: "nat \<Rightarrow> bool"
  so_now :: "nat \<Rightarrow> time"

text \<open>The file system: the entries in the order of \<open>WalkDir\<close> with a flag for directories, and how a file opens; an open
  file is what reading it to the end and closing it give.\<close>

record fs_file =
  ff_read :: "string res"
  ff_close :: "go_error option"

record migration_fs =
  fs_walk :: "(string \<times> bool) list res"
  fs_Open :: "string \<Rightarrow> fs_file res"

text \<open>The database: the data, the rows of \<open>schema_migrations\<close> once it exists, and a count of statements.\<close>

record 'd database =
  db_data :: 'd
  db_rows :: "(string \<times> time) list option"
  db_tick :: nat

record AppliedMigration =
  am_Version :: string
  am_AppliedAt :: time

subsection \<open>Paths\<close>

definition Base :: "string \<Rightarrow> string" where
  "Base path =
     (let p = rev (dropWhile (\<lambda>c. c = CHR ''/'') (rev path))
      in if path = '''' then ''.'' else if p = '''' then ''/''
         else rev (takeWhile (\<lambda>c. c \<noteq> CHR ''/'') (rev p)))"

definition Ext :: "string \<Rightarrow> string" where
  "Ext path =
     (let r = rev path; e = takeWhile (\<lambda>c. c \<noteq> CHR ''.'' \<and> c \<noteq> CHR ''/'') r; rest = drop (length e) r
      in if rest \<noteq> [] \<and> hd rest = CHR ''.'' then CHR ''.'' # rev e else '''')"

definition VersionFromPath :: "string \<Rightarrow> string" where
  "VersionFromPath path =
     (let base = Base path; withoutSQL = TrimSuffix base ''.sql''
      in TrimSuffix withoutSQL (Ext withoutSQL))"

definition listFiles :: "migration_fs \<Rightarrow> string \<Rightarrow> string list res" where
  "listFiles fsys direction =
     (case fs_walk fsys of
        Inl err \<Rightarrow> Inl err
      | Inr entries \<Rightarrow>
          Inr (sort (map fst (filter (\<lambda>(path, isDir). \<not> isDir \<and> HasSuffix path (''.'' @ direction @ ''.sql'')) entries))))"

subsection \<open>Statements\<close>

text \<open>One round trip to the server: the statement is counted, and fails when the connection does.\<close>

definition round_trip :: "'d sql_outside \<Rightarrow> 'd database \<Rightarrow> go_error option \<times> 'd database" where
  "round_trip out db = (so_fault out (db_tick db), db\<lparr>db_tick := Suc (db_tick db)\<rparr>)"

definition ensureTable :: "'d sql_outside \<Rightarrow> 'd database \<Rightarrow> go_error option \<times> 'd database" where
  "ensureTable out db =
     (case round_trip out db of
        (Some err, db1) \<Rightarrow> (Some err, db1)
      | (None, db1) \<Rightarrow> (None, db1\<lparr>db_rows := Some (case db_rows db1 of None \<Rightarrow> [] | Some rows \<Rightarrow> rows)\<rparr>))"

definition no_table :: go_error where
  "no_table = Errors_New ''relation schema_migrations does not exist''"

definition appliedVersions :: "'d sql_outside \<Rightarrow> 'd database \<Rightarrow> string list res \<times> 'd database" where
  "appliedVersions out db =
     (case round_trip out db of
        (Some err, db1) \<Rightarrow> (Inl err, db1)
      | (None, db1) \<Rightarrow>
          (case db_rows db1 of None \<Rightarrow> Inl no_table | Some rows \<Rightarrow> Inr (map fst rows), db1))"

text \<open>\<open>ORDER BY version DESC LIMIT 1\<close>; the empty string when there is no row.\<close>

definition latestVersion :: "'d sql_outside \<Rightarrow> 'd database \<Rightarrow> string res \<times> 'd database" where
  "latestVersion out db =
     (case round_trip out db of
        (Some err, db1) \<Rightarrow> (Inl err, db1)
      | (None, db1) \<Rightarrow>
          (case db_rows db1 of
             None \<Rightarrow> Inl no_table
           | Some rows \<Rightarrow>
               Inr (case sort_slice (\<lambda>x y. so_less out y x) (map fst rows) of [] \<Rightarrow> '''' | v # _ \<Rightarrow> v), db1))"

text \<open>
  A transaction: \<open>BeginTx\<close>, the script, one statement on \<open>schema_migrations\<close>, \<open>Commit\<close>, with the deferred
  rollback on every early return. \<open>change\<close> is the effect of the second statement on the rows.
\<close>

definition in_transaction ::
    "'d sql_outside \<Rightarrow> string \<Rightarrow> ((string \<times> time) list \<Rightarrow> nat \<Rightarrow> (string \<times> time) list res) \<Rightarrow>
     'd database \<Rightarrow> go_error option \<times> 'd database" where
  "in_transaction out script change db =
     (case round_trip out db of
        (Some err, db1) \<Rightarrow> (Some err, db1)
      | (None, db1) \<Rightarrow>
          (case round_trip out db1 of
             (Some err, db2) \<Rightarrow> (Some err, db2)
           | (None, db2) \<Rightarrow>
               (case so_exec out script (db_data db2) of
                  Inl err \<Rightarrow> (Some err, db2)
                | Inr d \<Rightarrow>
                    (case round_trip out db2 of
                       (Some err, db3) \<Rightarrow> (Some err, db3)
                     | (None, db3) \<Rightarrow>
                         (case db_rows db3 of
                            None \<Rightarrow> (Some no_table, db3)
                          | Some rows \<Rightarrow>
                              (case change rows (db_tick db2) of
                                 Inl err \<Rightarrow> (Some err, db3)
                               | Inr rows' \<Rightarrow>
                                   (case round_trip out db3 of
                                      (Some err, db4) \<Rightarrow>
                                        (Some err, if so_lost out (db_tick db3)
                                                   then db4\<lparr>db_data := d, db_rows := Some rows'\<rparr> else db4)
                                    | (None, db4) \<Rightarrow> (None, db4\<lparr>db_data := d, db_rows := Some rows'\<rparr>))))))))"

text \<open>\<open>INSERT INTO schema_migrations (version)\<close> with its primary key, and \<open>DELETE\<close>.\<close>

definition insert_version :: "'d sql_outside \<Rightarrow> string \<Rightarrow> (string \<times> time) list \<Rightarrow> nat \<Rightarrow> (string \<times> time) list res" where
  "insert_version out v rows t =
     (if v \<in> set (map fst rows) then Inl (Errors_New ''duplicate key value violates unique constraint'')
      else Inr (rows @ [(v, so_now out t)]))"

definition delete_version :: "string \<Rightarrow> (string \<times> time) list \<Rightarrow> nat \<Rightarrow> (string \<times> time) list res" where
  "delete_version v rows t = Inr (filter (\<lambda>(x, _). x \<noteq> v) rows)"

definition readFile :: "migration_fs \<Rightarrow> string \<Rightarrow> string res" where
  "readFile fsys path =
     (case fs_Open fsys path of
        Inl err \<Rightarrow> Inl (Wrapf ''open %s: %w'' [path] err)
      | Inr f \<Rightarrow>
          (case ff_read f of
             Inl err \<Rightarrow> Inl (Wrapf ''read %s: %w'' [path] err)
           | Inr b \<Rightarrow>
               (case ff_close f of
                  Some closeErr \<Rightarrow> Inl (Wrapf ''close %s: %w'' [path] closeErr)
                | None \<Rightarrow> Inr b)))"

definition applyFile ::
    "'d sql_outside \<Rightarrow> migration_fs \<Rightarrow> string \<Rightarrow> string \<Rightarrow> 'd database \<Rightarrow> go_error option \<times> 'd database" where
  "applyFile out fsys path version db =
     (case readFile fsys path of
        Inl err \<Rightarrow> (Some err, db)
      | Inr content \<Rightarrow> in_transaction out content (insert_version out version) db)"

definition rollbackFile ::
    "'d sql_outside \<Rightarrow> migration_fs \<Rightarrow> string \<Rightarrow> string \<Rightarrow> 'd database \<Rightarrow> go_error option \<times> 'd database" where
  "rollbackFile out fsys path version db =
     (case readFile fsys path of
        Inl err \<Rightarrow> (Some err, db)
      | Inr content \<Rightarrow> in_transaction out content (delete_version version) db)"

subsection \<open>The operations\<close>

fun apply_all ::
    "'d sql_outside \<Rightarrow> migration_fs \<Rightarrow> string list \<Rightarrow> string list \<Rightarrow> nat \<Rightarrow> 'd database \<Rightarrow>
     (nat \<times> go_error option) \<times> 'd database" where
  "apply_all out fsys applied [] cnt db = ((cnt, None), db)"
| "apply_all out fsys applied (f # fs) cnt db =
     (if VersionFromPath f \<in> set applied then apply_all out fsys applied fs cnt db
      else
        (case applyFile out fsys f (VersionFromPath f) db of
           (Some err, db1) \<Rightarrow> ((cnt, Some (Wrapf ''migration: apply %s: %w'' [f] err)), db1)
         | (None, db1) \<Rightarrow> apply_all out fsys applied fs (Suc cnt) db1))"

definition Runner_Up ::
    "'d sql_outside \<Rightarrow> migration_fs \<Rightarrow> 'd database \<Rightarrow> (nat \<times> go_error option) \<times> 'd database" where
  "Runner_Up out fsys db =
     (case ensureTable out db of
        (Some err, db1) \<Rightarrow> ((0, Some (Wrapf ''migration: ensure schema_migrations table: %w'' [] err)), db1)
      | (None, db1) \<Rightarrow>
          (case listFiles fsys ''up'' of
             Inl err \<Rightarrow> ((0, Some (Wrapf ''migration: list up-migration files: %w'' [] err)), db1)
           | Inr files \<Rightarrow>
               (case appliedVersions out db1 of
                  (Inl err, db2) \<Rightarrow> ((0, Some (Wrapf ''migration: load applied versions: %w'' [] err)), db2)
                | (Inr applied, db2) \<Rightarrow> apply_all out fsys applied files 0 db2)))"

definition Runner_Down ::
    "'d sql_outside \<Rightarrow> migration_fs \<Rightarrow> 'd database \<Rightarrow> (nat \<times> go_error option) \<times> 'd database" where
  "Runner_Down out fsys db =
     (case ensureTable out db of
        (Some err, db1) \<Rightarrow> ((0, Some (Wrapf ''migration: ensure schema_migrations table: %w'' [] err)), db1)
      | (None, db1) \<Rightarrow>
          (case latestVersion out db1 of
             (Inl err, db2) \<Rightarrow> ((0, Some (Wrapf ''migration: query latest version: %w'' [] err)), db2)
           | (Inr latest, db2) \<Rightarrow>
               if latest = '''' then ((0, None), db2)
               else
                 (case listFiles fsys ''down'' of
                    Inl err \<Rightarrow> ((0, Some (Wrapf ''migration: list down-migration files: %w'' [] err)), db2)
                  | Inr files \<Rightarrow>
                      (let target = (case List.find (\<lambda>f. VersionFromPath f = latest) files of
                                       None \<Rightarrow> '''' | Some f \<Rightarrow> f)
                       in if target = ''''
                          then ((0, Some (Errorf ''migration: no .down.sql file found for version %s'' [latest])), db2)
                          else
                            (case rollbackFile out fsys target latest db2 of
                               (Some err, db3) \<Rightarrow> ((0, Some (Wrapf ''migration: rollback %s: %w'' [target] err)), db3)
                             | (None, db3) \<Rightarrow> ((1, None), db3))))))"

definition Runner_Status ::
    "'d sql_outside \<Rightarrow> 'd database \<Rightarrow> AppliedMigration list res \<times> 'd database" where
  "Runner_Status out db =
     (case ensureTable out db of
        (Some err, db1) \<Rightarrow> (Inl (Wrapf ''migration: ensure schema_migrations table: %w'' [] err), db1)
      | (None, db1) \<Rightarrow>
          (case round_trip out db1 of
             (Some err, db2) \<Rightarrow> (Inl (Wrapf ''migration: query status: %w'' [] err), db2)
           | (None, db2) \<Rightarrow>
               (case db_rows db2 of
                  None \<Rightarrow> Inl (Wrapf ''migration: query status: %w'' [] no_table)
                | Some rows \<Rightarrow>
                    Inr (map (\<lambda>(v, t). \<lparr>am_Version = v, am_AppliedAt = t\<rparr>)
                           (sort_slice (\<lambda>x y. so_less out (fst x) (fst y)) rows)), db2)))"

subsection \<open>What a transaction leaves behind\<close>

text \<open>The versions recorded; a missing table records none.\<close>

definition recorded :: "'d database \<Rightarrow> (string \<times> time) list" where
  "recorded db = (case db_rows db of None \<Rightarrow> [] | Some rows \<Rightarrow> rows)"

abbreviation versions :: "'d database \<Rightarrow> string list" where
  "versions db \<equiv> map fst (recorded db)"

text \<open>All or nothing: a transaction either left data and rows as they were and failed, or made both changes.\<close>

lemma in_transaction_atomic:
  assumes "in_transaction out script change db = (err, db')"
  shows "err \<noteq> None \<and> db_data db' = db_data db \<and> db_rows db' = db_rows db \<or>
    (\<exists>rows rows' t. so_exec out script (db_data db) = Inr (db_data db') \<and> db_rows db = Some rows \<and>
       change rows t = Inr rows' \<and> db_rows db' = Some rows' \<and> (err \<noteq> None \<longrightarrow> (\<exists>k. so_lost out k)))"
proof -
  let ?k = "db_tick db"
  let ?f = "\<lambda>i. so_fault out i"
  note defs = in_transaction_def round_trip_def
  show ?thesis
  proof (cases "?f ?k = None \<and> ?f (Suc ?k) = None \<and> ?f (Suc (Suc ?k)) = None")
    case no_fault: True
    show ?thesis
    proof (cases "so_exec out script (db_data db)")
      case (Inl err)
      with no_fault assms show ?thesis by (auto simp: defs)
    next
      case d: (Inr d)
      show ?thesis
      proof (cases "db_rows db")
        case None
        with d no_fault assms show ?thesis by (auto simp: defs)
      next
        case (Some rows)
        with d no_fault assms show ?thesis
          by (cases "change rows (Suc (Suc ?k))"; cases "?f (Suc (Suc (Suc ?k)))")
            (auto simp: defs eq_commute [of "Some _" "so_fault _ _"] split: if_splits)
      qed
    qed
  next
    case False
    with assms show ?thesis
      by (cases "?f ?k"; cases "?f (Suc ?k)"; cases "so_exec out script (db_data db)")
        (auto simp: defs eq_commute [of "Some _" "so_fault _ _"] split: option.splits)
  qed
qed

lemma in_transaction_ok:
  assumes "in_transaction out script change db = (None, db')"
  shows "\<exists>rows rows' t. so_exec out script (db_data db) = Inr (db_data db') \<and> db_rows db = Some rows \<and>
       change rows t = Inr rows' \<and> db_rows db' = Some rows'"
  using in_transaction_atomic [OF assms] by blast

lemma ensureTable_frame:
  assumes "ensureTable out db = (err, db')"
  shows "db_data db' = db_data db" and "recorded db' = recorded db" and "err = None \<Longrightarrow> db_rows db' = Some (recorded db)"
  using assms unfolding ensureTable_def round_trip_def recorded_def by (auto split: option.splits)

lemma appliedVersions_frame:
  assumes "appliedVersions out db = (r, db')"
  shows "db_data db' = db_data db" and "db_rows db' = db_rows db" and "r = Inr vs \<Longrightarrow> vs = versions db"
  using assms unfolding appliedVersions_def round_trip_def recorded_def by (auto split: option.splits)

subsection \<open>What \<open>Up\<close> does\<close>

text \<open>
  The specification: the up-files in ascending order whose version is not recorded, and what running a
  list of files one after the other does to the data.
\<close>

definition pending :: "migration_fs \<Rightarrow> string list \<Rightarrow> string list" where
  "pending fsys vs =
     (case listFiles fsys ''up'' of Inl _ \<Rightarrow> [] | Inr files \<Rightarrow> filter (\<lambda>f. VersionFromPath f \<notin> set vs) files)"

fun exec_files :: "'d sql_outside \<Rightarrow> migration_fs \<Rightarrow> string list \<Rightarrow> 'd \<Rightarrow> 'd res" where
  "exec_files out fsys [] d = Inr d"
| "exec_files out fsys (f # fs) d =
     (case readFile fsys f of
        Inl err \<Rightarrow> Inl err
      | Inr script \<Rightarrow> (case so_exec out script d of Inl err \<Rightarrow> Inl err | Inr d' \<Rightarrow> exec_files out fsys fs d'))"

lemma exec_files_append:
  "exec_files out fsys (as @ bs) d =
     (case exec_files out fsys as d of Inl err \<Rightarrow> Inl err | Inr d' \<Rightarrow> exec_files out fsys bs d')"
  by (induction as arbitrary: d) (auto split: sum.split)

text \<open>\<open>ran fs db db'\<close>: the files \<open>fs\<close> took \<open>db\<close> to \<open>db'\<close>, scripts and records together.\<close>

definition files_ran ::
    "'d sql_outside \<Rightarrow> migration_fs \<Rightarrow> string list \<Rightarrow> 'd database \<Rightarrow> 'd database \<Rightarrow> bool" where
  "files_ran out fsys fs db db' \<longleftrightarrow>
     exec_files out fsys fs (db_data db) = Inr (db_data db') \<and>
     versions db' = versions db @ map VersionFromPath fs"

lemma files_ran_Nil: "files_ran out fsys [] db db' \<longleftrightarrow> db_data db' = db_data db \<and> versions db' = versions db"
  by (auto simp: files_ran_def)

lemma files_ran_append:
  "files_ran out fsys as db db1 \<Longrightarrow> files_ran out fsys bs db1 db2 \<Longrightarrow> files_ran out fsys (as @ bs) db db2"
  by (auto simp: files_ran_def exec_files_append)

lemma files_ran_shift:
  assumes "db_data db1 = db_data db" and "recorded db1 = recorded db"
  shows "files_ran out fsys fs db1 db' = files_ran out fsys fs db db'"
  by (simp add: files_ran_def assms)

lemma applyFile_atomic:
  assumes "applyFile out fsys f v db = (err, db')" and "v = VersionFromPath f"
  shows "err \<noteq> None \<and> db_data db' = db_data db \<and> db_rows db' = db_rows db \<or>
    files_ran out fsys [f] db db' \<and> (err \<noteq> None \<longrightarrow> (\<exists>k. so_lost out k))"
proof (cases "readFile fsys f")
  case (Inr script)
  with assms have "in_transaction out script (insert_version out v) db = (err, db')" by (simp add: applyFile_def)
  from in_transaction_atomic [OF this] Inr assms(2) show ?thesis
    by (auto simp: files_ran_def recorded_def insert_version_def split: if_splits)
qed (use assms in \<open>auto simp: applyFile_def\<close>)

text \<open>The count returned: one short only when the answer to the last commit was lost.\<close>

definition counted :: "'d sql_outside \<Rightarrow> go_error option \<Rightarrow> nat \<Rightarrow> nat \<Rightarrow> bool" where
  "counted out err n m \<longleftrightarrow> n = m \<or> err \<noteq> None \<and> (\<exists>k. so_lost out k) \<and> Suc n = m"

lemma apply_all_outcome:
  assumes "apply_all out fsys vs fs cnt db = ((n, err), db')"
  defines "todo \<equiv> filter (\<lambda>f. VersionFromPath f \<notin> set vs) fs"
  shows "\<exists>gs. prefix gs todo \<and> files_ran out fsys gs db db' \<and>
    (err = None \<longrightarrow> gs = todo) \<and> counted out err n (cnt + length gs)"
  using assms(1) unfolding todo_def
proof (induction fs arbitrary: cnt db)
  case (Cons f fs)
  show ?case
  proof (cases "VersionFromPath f \<in> set vs")
    case True
    with Cons show ?thesis by simp
  next
    case new: False
    obtain e db1 where a: "applyFile out fsys f (VersionFromPath f) db = (e, db1)" by fastforce
    note out = applyFile_atomic [OF a refl]
    show ?thesis
    proof (cases e)
      case None
      with out have r: "files_ran out fsys [f] db db1" by simp
      from None a new Cons.prems have "apply_all out fsys vs fs (Suc cnt) db1 = ((n, err), db')" by simp
      from Cons.IH [OF this] obtain gs where
        "prefix gs (filter (\<lambda>f. VersionFromPath f \<notin> set vs) fs)" "files_ran out fsys gs db1 db'"
        "err = None \<longrightarrow> gs = filter (\<lambda>f. VersionFromPath f \<notin> set vs) fs" "counted out err n (Suc cnt + length gs)"
        by blast
      with new files_ran_append [OF r] show ?thesis by (intro exI [of _ "f # gs"]) auto
    next
      case (Some x)
      with a new Cons.prems have s: "db' = db1" "n = cnt" "err \<noteq> None" by auto
      from out show ?thesis
      proof
        assume "e \<noteq> None \<and> db_data db1 = db_data db \<and> db_rows db1 = db_rows db"
        with s show ?thesis by (intro exI [of _ "[]"]) (auto simp: files_ran_Nil recorded_def counted_def)
      next
        assume "files_ran out fsys [f] db db1 \<and> (e \<noteq> None \<longrightarrow> (\<exists>k. so_lost out k))"
        with s Some new show ?thesis by (intro exI [of _ "[f]"]) (auto simp: counted_def)
      qed
    qed
  qed
qed (simp add: files_ran_Nil counted_def)

lemma Runner_Up_steps:
  assumes "Runner_Up out fsys db = ((n, err), db')"
  shows "\<exists>gs. prefix gs (pending fsys (versions db)) \<and> files_ran out fsys gs db db' \<and>
    (err = None \<longrightarrow> gs = pending fsys (versions db)) \<and> counted out err n (length gs)"
proof -
  obtain e db1 where t: "ensureTable out db = (e, db1)" by fastforce
  note f1 = ensureTable_frame [OF t]
  obtain r db2 where v: "appliedVersions out db1 = (r, db2)" by fastforce
  note f2 = appliedVersions_frame [OF v]
  have same: "db_data db2 = db_data db" "recorded db2 = recorded db"
    using f1 f2 by (auto simp: recorded_def)
  show ?thesis
  proof (cases "e = None \<and> (\<exists>files. listFiles fsys ''up'' = Inr files) \<and> (\<exists>vs. r = Inr vs)")
    case True
    then obtain files vs where *: "e = None" "listFiles fsys ''up'' = Inr files" "r = Inr vs" by blast
    with f1 f2(3) have vs: "vs = versions db" by auto
    from * t v assms have "apply_all out fsys vs files 0 db2 = ((n, err), db')" by (simp add: Runner_Up_def)
    from apply_all_outcome [OF this] * vs show ?thesis by (simp add: pending_def files_ran_shift [OF same])
  next
    case False
    with assms t v have "err \<noteq> None" "n = 0" "db' = db1 \<or> db' = db2"
      by (auto simp: Runner_Up_def split: option.splits sum.splits)
    with f1 same show ?thesis by (intro exI [of _ "[]"]) (auto simp: files_ran_Nil counted_def)
  qed
qed

lemma exec_files_frame:
  assumes "files_ran out fsys gs db db'"
  shows "set (versions db') = set (versions db) \<union> VersionFromPath ` set gs"
  using assms by (auto simp: files_ran_def)

text \<open>What is still pending after a prefix ran, when no two up-files carry the same version.\<close>

lemma pending_after_prefix:
  assumes "pending fsys (versions db) = gs @ hs" and "files_ran out fsys gs db db1"
    and "distinct (map VersionFromPath (pending fsys (versions db)))"
  shows "pending fsys (versions db1) = hs"
proof (cases "listFiles fsys ''up''")
  case (Inr files)
  let ?new = "\<lambda>f. VersionFromPath f \<notin> set (versions db)"
  from Inr assms(1) have f: "filter ?new files = gs @ hs" by (simp add: pending_def)
  have "pending fsys (versions db1) = filter (\<lambda>f. VersionFromPath f \<notin> VersionFromPath ` set gs) (filter ?new files)"
    using Inr exec_files_frame [OF assms(2)] by (simp add: pending_def conj_commute)
  also have "\<dots> = hs"
    unfolding f using assms(3) [unfolded assms(1)] by (auto simp: filter_id_conv filter_empty_conv)
  finally show ?thesis .
qed (use assms(1) in \<open>simp add: pending_def\<close>)

subsection \<open>What \<open>Down\<close> does\<close>

lemma latestVersion_frame:
  assumes "latestVersion out db = (r, db')"
  shows "db_data db' = db_data db" and "db_rows db' = db_rows db"
    and "r = Inr v \<Longrightarrow> v = (case sort_slice (\<lambda>x y. so_less out y x) (versions db) of [] \<Rightarrow> '''' | w # _ \<Rightarrow> w)"
  using assms unfolding latestVersion_def round_trip_def recorded_def by (auto split: option.splits)

lemma rollbackFile_atomic:
  assumes "rollbackFile out fsys f v db = (err, db')"
  shows "err \<noteq> None \<and> db_data db' = db_data db \<and> db_rows db' = db_rows db \<or>
    (\<exists>script. readFile fsys f = Inr script \<and> so_exec out script (db_data db) = Inr (db_data db')) \<and>
    recorded db' = filter (\<lambda>(x, _). x \<noteq> v) (recorded db) \<and> (err \<noteq> None \<longrightarrow> (\<exists>k. so_lost out k))"
proof (cases "readFile fsys f")
  case (Inr script)
  with assms have "in_transaction out script (delete_version v) db = (err, db')" by (simp add: rollbackFile_def)
  from in_transaction_atomic [OF this] Inr show ?thesis by (auto simp: recorded_def delete_version_def)
qed (use assms in \<open>auto simp: rollbackFile_def\<close>)

lemma filter_append_new: "w \<notin> set vs \<Longrightarrow> filter (\<lambda>x. x \<noteq> w) (vs @ [w]) = vs"
  by (induction vs) auto

lemma map_fst_filter_neq: "map fst (filter (\<lambda>(x, _). x \<noteq> w) rows) = filter (\<lambda>x. x \<noteq> w) (map fst rows)"
  by (induction rows) auto

text \<open>The version \<open>Down\<close> takes back and the script it runs.\<close>

definition latest_recorded :: "'d sql_outside \<Rightarrow> 'd database \<Rightarrow> string" where
  "latest_recorded out db = (case sort_slice (\<lambda>x y. so_less out y x) (versions db) of [] \<Rightarrow> '''' | w # _ \<Rightarrow> w)"

definition down_file :: "migration_fs \<Rightarrow> string \<Rightarrow> string option" where
  "down_file fsys v =
     (case listFiles fsys ''down'' of Inl _ \<Rightarrow> None | Inr files \<Rightarrow> List.find (\<lambda>f. VersionFromPath f = v) files)"

lemma Runner_Down_steps:
  assumes "Runner_Down out fsys db = ((n, err), db')"
  shows "db_data db' = db_data db \<and> recorded db' = recorded db \<and> n = 0 \<and>
      (err = None \<longrightarrow> latest_recorded out db = '''') \<or>
    (\<exists>f script. down_file fsys (latest_recorded out db) = Some f \<and> readFile fsys f = Inr script \<and>
       so_exec out script (db_data db) = Inr (db_data db') \<and>
       recorded db' = filter (\<lambda>(x, _). x \<noteq> latest_recorded out db) (recorded db) \<and> counted out err n 1)"
proof -
  obtain e db1 where t: "ensureTable out db = (e, db1)" by fastforce
  note f1 = ensureTable_frame [OF t]
  obtain r db2 where l: "latestVersion out db1 = (r, db2)" by fastforce
  note f2 = latestVersion_frame [OF l]
  have same: "db_data db2 = db_data db" "recorded db2 = recorded db" using f1 f2 by (auto simp: recorded_def)
  show ?thesis
  proof (cases "e = None \<and> r = Inr (latest_recorded out db) \<and> latest_recorded out db \<noteq> '''' \<and>
      (\<exists>f. down_file fsys (latest_recorded out db) = Some f \<and> f \<noteq> '''')")
    case True
    then obtain f where *: "e = None" "r = Inr (latest_recorded out db)" "latest_recorded out db \<noteq> ''''"
      "down_file fsys (latest_recorded out db) = Some f" "f \<noteq> ''''" by blast
    obtain e3 db3 where b: "rollbackFile out fsys f (latest_recorded out db) db2 = (e3, db3)" by fastforce
    from * t l b assms have "(err = None) = (e3 = None)" "n = (if e3 = None then 1 else 0)" "db' = db3"
      by (auto simp: Runner_Down_def down_file_def Let_def split: option.splits sum.splits)
    with rollbackFile_atomic [OF b] * same show ?thesis by (auto simp: recorded_def counted_def)
  next
    case False
    have r: "w = latest_recorded out db" if "r = Inr w" "e = None" for w
      using f2(3) [OF that(1)] f1(2) by (simp add: latest_recorded_def)
    have find: "f = ''''" if "listFiles fsys ''down'' = Inr files" "r = Inr w" "e = None" "w \<noteq> ''''"
        "List.find (\<lambda>f. VersionFromPath f = w) files = Some f" for files w f
      using False that r [OF that(2,3)] by (auto simp: down_file_def)
    from assms t l r find have "db' = db1 \<or> db' = db2" "n = 0" "err = None \<longrightarrow> latest_recorded out db = ''''"
      by (auto simp: Runner_Down_def Let_def split: option.splits sum.splits if_splits)
    with f1 same show ?thesis by auto
  qed
qed

subsection \<open>Properties\<close>

text \<open>A database that keeps the scripts it ran; the script \<open>undo\<close> takes the last one back.\<close>

definition ex_sql :: "string list sql_outside" where
  "ex_sql = \<lparr>so_exec = (\<lambda>s d. if s = ''undo'' then Inr (butlast d) else if s = ''bad'' then Inl (Errors_New ''syntax error'')
                              else Inr (d @ [s])),
     so_less = (<), so_fault = (\<lambda>k. if k = 9 then Some (Errors_New ''connection reset'') else None),
     so_lost = (\<lambda>_. False), so_now = (\<lambda>k. k)\<rparr>"

definition ex_file :: "string \<Rightarrow> fs_file" where
  "ex_file b = \<lparr>ff_read = Inr b, ff_close = None\<rparr>"

definition ex_fs :: migration_fs where
  "ex_fs = \<lparr>fs_walk = Inr [(''m'', True), (''m/2.up.sql'', False), (''m/2.down.sql'', False), (''m/1.up.sql'', False)],
     fs_Open = (\<lambda>f. if f = ''m/1.up.sql'' then Inr (ex_file ''one'') else if f = ''m/2.up.sql'' then Inr (ex_file ''two'') else Inr (ex_file ''undo''))\<rparr>"

definition ex_db :: "string list database" where
  "ex_db = \<lparr>db_data = [], db_rows = None, db_tick = 0\<rparr>"

text \<open>C28. \<open>Up\<close> under every fault. The migrations that took effect are a prefix of the pending ones in ascending
  order; the data is what exactly their scripts make of it, and exactly their versions are recorded
  after the old ones. Without an error all pending ones ran; the count is their number, one short only when
  the answer to a commit was lost.
\<close>

theorem up_atomic:
  assumes "Runner_Up out fsys db = ((n, err), db')"
  shows "\<exists>gs. prefix gs (pending fsys (versions db)) \<and> exec_files out fsys gs (db_data db) = Inr (db_data db') \<and>
    versions db' = versions db @ map VersionFromPath gs \<and> (err = None \<longrightarrow> gs = pending fsys (versions db)) \<and>
    (n = length gs \<or> err \<noteq> None \<and> (\<exists>k. so_lost out k) \<and> Suc n = length gs)"
  using Runner_Up_steps [OF assms] by (auto simp: files_ran_def counted_def)

theorem up_atomic_witness:
  "\<exists>err db'. Runner_Up ex_sql ex_fs ex_db = ((1, Some err), db') \<and>
    (\<exists>gs. prefix gs (pending ex_fs []) \<and> exec_files ex_sql ex_fs gs [] = Inr (db_data db'))"
proof -
  obtain n e db' where r: "Runner_Up ex_sql ex_fs ex_db = ((n, e), db')" by (metis prod.exhaust)
  have "fst (fst (Runner_Up ex_sql ex_fs ex_db)) = 1 \<and> snd (fst (Runner_Up ex_sql ex_fs ex_db)) \<noteq> None" by code_simp
  with r obtain err where "n = 1" "e = Some err" by auto
  with r up_atomic [OF r] show ?thesis by (auto simp: ex_db_def recorded_def)
qed

text \<open>Retrying \<open>Up\<close>. When no two up-files carry the same version, a run that failed anywhere followed by a run
  without error leaves the data and the records of one run that was never interrupted, and nothing pending.
\<close>

theorem up_resumes:
  assumes "Runner_Up out fsys db = (r1, db1)" and "Runner_Up out fsys db1 = ((n, None), db2)"
    and "distinct (map VersionFromPath (pending fsys (versions db)))"
  shows "exec_files out fsys (pending fsys (versions db)) (db_data db) = Inr (db_data db2) \<and>
    versions db2 = versions db @ map VersionFromPath (pending fsys (versions db)) \<and> pending fsys (versions db2) = []"
proof -
  obtain n1 err1 where "r1 = (n1, err1)" by fastforce
  with assms(1) Runner_Up_steps obtain gs where "prefix gs (pending fsys (versions db))" and g: "files_ran out fsys gs db db1"
    by metis
  then obtain hs where p: "pending fsys (versions db) = gs @ hs" by (auto simp: prefix_def)
  from pending_after_prefix [OF p g assms(3)] Runner_Up_steps [OF assms(2)] have "files_ran out fsys hs db1 db2" by auto
  with g have r: "files_ran out fsys (gs @ hs) db db2" by (rule files_ran_append)
  with pending_after_prefix [of _ _ "gs @ hs" "[]", OF _ r assms(3)] p show ?thesis by (simp add: files_ran_def)
qed

theorem up_resumes_witness:
  "snd (fst (Runner_Up ex_sql ex_fs ex_db)) \<noteq> None \<and>
   db_data (snd (Runner_Up ex_sql ex_fs (snd (Runner_Up ex_sql ex_fs ex_db)))) = [''one'', ''two'']"
proof -
  let ?r = "Runner_Up ex_sql ex_fs ex_db" and ?s = "Runner_Up ex_sql ex_fs (snd (Runner_Up ex_sql ex_fs ex_db))"
  have "snd (fst ?r) \<noteq> None" and s: "?s = ((fst (fst ?s), None), snd ?s)"
    and d: "distinct (map VersionFromPath (pending ex_fs (versions ex_db)))" by code_simp+
  moreover have "exec_files ex_sql ex_fs (pending ex_fs (versions ex_db)) (db_data ex_db) = Inr [''one'', ''two'']" by code_simp
  ultimately show ?thesis using up_resumes [OF prod.collapse [symmetric] s d] by simp
qed

text \<open>\<open>Down\<close> takes back what \<open>Up\<close> applied: if \<open>Up\<close> applied one migration, its version is the latest recorded one,
  and the script \<open>Down\<close> finds for it undoes the up-script, then \<open>Up\<close> and \<open>Down\<close> without errors restore the data and the records.
\<close>

theorem down_undoes_up:
  assumes "Runner_Up out fsys db = ((n, None), db1)" and "Runner_Down out fsys db1 = ((m, None), db2)"
    and "pending fsys (versions db) = [f]" and "latest_recorded out db1 = VersionFromPath f" and "VersionFromPath f \<noteq> ''''"
    and "readFile fsys f = Inr upscript" and "down_file fsys (VersionFromPath f) = Some g" and "readFile fsys g = Inr downscript"
    and "\<And>d d'. so_exec out upscript d = Inr d' \<Longrightarrow> so_exec out downscript d' = Inr d"
  shows "n = 1 \<and> m = 1 \<and> db_data db2 = db_data db \<and> versions db2 = versions db"
proof -
  from Runner_Up_steps [OF assms(1)] assms(3,6) have "n = 1" and d: "so_exec out upscript (db_data db) = Inr (db_data db1)"
    and v: "versions db1 = versions db @ [VersionFromPath f]"
    by (auto simp: files_ran_def counted_def split: sum.splits)
  from assms(3) have "VersionFromPath f \<notin> set (versions db)"
    by (auto simp: pending_def filter_eq_Cons_iff split: sum.splits)
  then have "filter (\<lambda>x. x \<noteq> VersionFromPath f) (versions db1) = versions db"
    by (subst v) (rule filter_append_new)
  moreover from Runner_Down_steps [OF assms(2)] assms(4,5,7,8)
  have "so_exec out downscript (db_data db1) = Inr (db_data db2)" "m = 1"
    "recorded db2 = filter (\<lambda>(x, _). x \<noteq> VersionFromPath f) (recorded db1)"
    by (auto simp: counted_def)
  ultimately show ?thesis using assms(9) [OF d] \<open>n = 1\<close> by (simp add: map_fst_filter_neq)
qed

definition ex_fs1 :: migration_fs where
  "ex_fs1 = \<lparr>fs_walk = Inr [(''m/2.up.sql'', False), (''m/2.down.sql'', False)],
     fs_Open = (\<lambda>f. if f = ''m/2.up.sql'' then Inr (ex_file ''two'') else Inr (ex_file ''undo''))\<rparr>"

definition ex_sql1 :: "string list sql_outside" where
  "ex_sql1 = ex_sql\<lparr>so_fault := \<lambda>_. None\<rparr>"

theorem down_undoes_up_witness:
  "let db = \<lparr>db_data = [''one''], db_rows = Some [(''1'', 0)], db_tick = 0\<rparr>;
     db1 = snd (Runner_Up ex_sql1 ex_fs1 db)
   in db_data db1 = [''one'', ''two''] \<and> db_data (snd (Runner_Down ex_sql1 ex_fs1 db1)) = [''one'']"
proof -
  let ?db = "\<lparr>db_data = [''one''], db_rows = Some [(''1'', 0)], db_tick = 0\<rparr> :: string list database"
  let ?u = "Runner_Up ex_sql1 ex_fs1 ?db" and ?d = "Runner_Down ex_sql1 ex_fs1 (snd (Runner_Up ex_sql1 ex_fs1 ?db))"
  have u: "?u = ((fst (fst ?u), None), snd ?u)" and d: "?d = ((fst (fst ?d), None), snd ?d)"
    and p: "pending ex_fs1 (versions ?db) = [''m/2.up.sql'']" and l: "latest_recorded ex_sql1 (snd ?u) = VersionFromPath ''m/2.up.sql''"
    and ne: "VersionFromPath ''m/2.up.sql'' \<noteq> ''''" and f: "down_file ex_fs1 (VersionFromPath ''m/2.up.sql'') = Some ''m/2.down.sql''"
    and one: "db_data (snd ?u) = [''one'', ''two'']"
    by code_simp+
  have "db_data (snd ?d) = db_data ?db"
    using down_undoes_up [OF u d p l ne _ f, of "''two''" "''undo''"] by (auto simp: readFile_def ex_file_def ex_fs1_def ex_sql1_def ex_sql_def)
  with one show ?thesis by (simp add: Let_def)
qed

text \<open>The version of a migration file is its name without the directory and the two suffixes, whatever dots the
  name itself holds.
\<close>

theorem VersionFromPath_name:
  assumes "CHR ''/'' \<notin> set v" and "direction \<in> {''up'', ''down''}"
  shows "VersionFromPath (dir @ ''/'' @ v @ ''.'' @ direction @ ''.sql'') = v"
proof -
  let ?name = "v @ ''.'' @ direction @ ''.sql''"
  have no: "CHR ''/'' \<notin> set ?name" using assms by auto
  have "Base (dir @ ''/'' @ ?name) = ?name"
    using no assms(2) by (auto simp: Base_def takeWhile_append)
  moreover have "?name = (v @ ''.'' @ direction) @ ''.sql''" by simp
  ultimately have "VersionFromPath (dir @ ''/'' @ ?name)
      = TrimSuffix (v @ ''.'' @ direction) (Ext (v @ ''.'' @ direction))"
    by (simp only: VersionFromPath_def Let_def TrimSuffix_append)
  moreover have "Ext (v @ ''.'' @ direction) = ''.'' @ direction" using assms(2) by (auto simp: Ext_def)
  ultimately show ?thesis by (simp del: append_assoc append_Cons)
qed

theorem VersionFromPath_name_witness: "VersionFromPath ''migrations/0001_v1.2.up.sql'' = ''0001_v1.2''"
  using VersionFromPath_name [of "''0001_v1.2''" "''up''" "''migrations''"] by simp

end
