(* ===== verification/Migrate_Command.thy ===== *)
theory Migrate_Command
  imports Migration Manager_Config
begin

section \<open>The migration program (cmd/migrate)\<close>

text \<open>
  \<open>main\<close> over the arguments, the environment and the database. The result is the exit status with what was printed:
  messages of the logger (their attributes left out, but the count, and the text after a dash), lines on standard output, the usage text on standard
  error. Opening the connection, and the format of a time, are arguments; the ping is a round trip.
\<close>

datatype migrate_line =
  LogInfo string
| LogCount string nat
| LogError string
| StdoutLine string
| UsageText

record 'd migrate_outside =
  mg_sql :: "'d sql_outside"
  mg_Migrations :: migration_fs
  mg_Open :: "string \<Rightarrow> go_error option"
  mg_Format :: "time \<Rightarrow> string"

text \<open>\<open>%-40s  %s\<close>\<close>

definition status_line :: "string \<Rightarrow> string \<Rightarrow> string" where
  "status_line version applied = version @ replicate (40 - length version) (CHR '' '') @ ''  '' @ applied"

definition migrate_up :: "'d migrate_outside \<Rightarrow> 'd database \<Rightarrow> (nat \<times> migrate_line list) \<times> 'd database" where
  "migrate_up out db =
     (case Runner_Up (mg_sql out) (mg_Migrations out) db of
        ((n, Some err), db1) \<Rightarrow> ((1, [LogError ''migration up failed'']), db1)
      | ((n, None), db1) \<Rightarrow>
          ((0, [if n = 0 then LogInfo ''no pending migrations'' else LogCount ''migrations applied successfully'' n]), db1))"

definition migrate_down :: "'d migrate_outside \<Rightarrow> 'd database \<Rightarrow> (nat \<times> migrate_line list) \<times> 'd database" where
  "migrate_down out db =
     (case Runner_Down (mg_sql out) (mg_Migrations out) db of
        ((n, Some err), db1) \<Rightarrow> ((1, [LogError ''migration down failed'']), db1)
      | ((n, None), db1) \<Rightarrow>
          ((0, [LogInfo (if n = 0 then ''no applied migrations to roll back'' else ''migration rolled back successfully'')]), db1))"

definition migrate_status :: "'d migrate_outside \<Rightarrow> 'd database \<Rightarrow> (nat \<times> migrate_line list) \<times> 'd database" where
  "migrate_status out db =
     (case Runner_Status (mg_sql out) db of
        (Inl err, db1) \<Rightarrow> ((1, [LogError ''failed to retrieve migration status'']), db1)
      | (Inr applied, db1) \<Rightarrow>
          ((0, if applied = [] then [StdoutLine ''No migrations applied.'']
               else [StdoutLine (status_line ''VERSION'' ''APPLIED AT''),
                     StdoutLine (status_line (replicate 40 (CHR ''-'')) (replicate 25 (CHR ''-'')))] @
                    map (\<lambda>m. StdoutLine (status_line (am_Version m) (mg_Format out (am_AppliedAt m)))) applied), db1))"

definition migrate_main ::
    "'d migrate_outside \<Rightarrow> string list \<Rightarrow> environ \<Rightarrow> 'd database \<Rightarrow> (nat \<times> migrate_line list) \<times> 'd database" where
  "migrate_main out args env db =
     (case args of
        program # command # _ \<Rightarrow>
          (let databaseURL = Getenv env ''DATABASE_URL''
           in if databaseURL = '''' then ((1, [LogError ''DATABASE_URL environment variable is required'']), db)
              else
                (case mg_Open out databaseURL of
                   Some err \<Rightarrow> ((1, [LogError ''failed to open database connection'']), db)
                 | None \<Rightarrow>
                     (case round_trip (mg_sql out) db of
                        (Some err, db1) \<Rightarrow> ((1, [LogError ''database connection check failed'']), db1)
                      | (None, db1) \<Rightarrow>
                          if command = ''up'' then migrate_up out db1
                          else if command = ''down'' then migrate_down out db1
                          else if command = ''status'' then migrate_status out db1
                          else ((1, [LogError ''unknown command'', UsageText]), db1))))
      | _ \<Rightarrow> ((1, [UsageText]), db))"

section \<open>Properties\<close>

text \<open>After one successful run of \<open>migrate up\<close> another one that does not fail finds nothing to do.\<close>

lemma up_again:
  assumes "Runner_Up out fsys db = ((n, None), db1)" and "Runner_Up out fsys db2 = ((m, None), db3)"
    and "db_data db2 = db_data db1" and "recorded db2 = recorded db1"
    and "distinct (map VersionFromPath (pending fsys (versions db)))"
  shows "m = 0 \<and> db_data db3 = db_data db1 \<and> versions db3 = versions db1"
proof -
  from Runner_Up_steps [OF assms(1)] have "files_ran out fsys (pending fsys (versions db)) db db1" by auto
  with pending_after_prefix [of fsys db "pending fsys (versions db)" "[]"] assms(5)
  have p: "pending fsys (versions db1) = []" by simp
  from Runner_Up_steps [OF assms(2)] p assms(3,4) show ?thesis by (auto simp: files_ran_def counted_def)
qed

text \<open>The program with \<open>up\<close> and a connection that works is a run of \<open>Up\<close>.\<close>

lemma migrate_main_up:
  assumes "migrate_main out [program, ''up''] env db = ((0, ls), db')"
  shows "\<exists>n db1. db_data db1 = db_data db \<and> recorded db1 = recorded db \<and>
     Runner_Up (mg_sql out) (mg_Migrations out) db1 = ((n, None), db') \<and>
     ls = [if n = 0 then LogInfo ''no pending migrations'' else LogCount ''migrations applied successfully'' n]"
proof -
  let ?db1 = "snd (round_trip (mg_sql out) db)"
  have "migrate_up out ?db1 = ((0, ls), db')"
    using assms by (auto simp: migrate_main_def Let_def split: if_splits option.splits prod.splits)
  then obtain n where "Runner_Up (mg_sql out) (mg_Migrations out) ?db1 = ((n, None), db')"
    "ls = [if n = 0 then LogInfo ''no pending migrations'' else LogCount ''migrations applied successfully'' n]"
    by (auto simp: migrate_up_def split: prod.splits option.splits)
  moreover have "db_data ?db1 = db_data db" "recorded ?db1 = recorded db" by (simp_all add: round_trip_def recorded_def)
  ultimately show ?thesis by blast
qed

text \<open>\<open>migrate up\<close> twice is \<open>migrate up\<close> once: when both runs end with status 0 the second prints that nothing is pending and
  leaves the data and the recorded versions as they are, while the first ran exactly the pending scripts.\<close>

theorem migrate_up_twice:
  assumes "migrate_main out [program, ''up''] env db = ((0, ls1), db1)" and "migrate_main out [program, ''up''] env db1 = ((0, ls2), db2)"
    and "distinct (map VersionFromPath (pending (mg_Migrations out) (versions db)))"
  shows "ls2 = [LogInfo ''no pending migrations''] \<and> db_data db2 = db_data db1 \<and> versions db2 = versions db1 \<and>
     exec_files (mg_sql out) (mg_Migrations out) (pending (mg_Migrations out) (versions db)) (db_data db) = Inr (db_data db1)"
proof -
  from migrate_main_up [OF assms(1)] obtain n dba where a: "db_data dba = db_data db" "recorded dba = recorded db"
    and u: "Runner_Up (mg_sql out) (mg_Migrations out) dba = ((n, None), db1)" by blast
  from migrate_main_up [OF assms(2)] obtain m dbb where b: "db_data dbb = db_data db1" "recorded dbb = recorded db1"
    and v: "Runner_Up (mg_sql out) (mg_Migrations out) dbb = ((m, None), db2)"
    and l: "ls2 = [if m = 0 then LogInfo ''no pending migrations'' else LogCount ''migrations applied successfully'' m]" by blast
  have "m = 0 \<and> db_data db2 = db_data db1 \<and> versions db2 = versions db1"
    using up_again [OF u v b] assms(3) a by simp
  moreover from Runner_Up_steps [OF u] a
  have "exec_files (mg_sql out) (mg_Migrations out) (pending (mg_Migrations out) (versions db)) (db_data db) = Inr (db_data db1)"
    by (auto simp: files_ran_def)
  ultimately show ?thesis using l by simp
qed

text \<open>The directory of two scripts, on a database whose connection works.\<close>

definition ex_migrate :: "string list migrate_outside" where
  "ex_migrate = \<lparr>mg_sql = ex_sql1, mg_Migrations = ex_fs, mg_Open = (\<lambda>_. None), mg_Format = (\<lambda>_. ''now'')\<rparr>"

definition ex_migrate_env :: environ where
  "ex_migrate_env = map_of [(''DATABASE_URL'', ''postgres://db'')]"

theorem migrate_up_twice_witness:
  "let run = migrate_main ex_migrate [''migrate'', ''up''] ex_migrate_env; db1 = snd (run ex_db)
   in fst (run ex_db) = (0, [LogCount ''migrations applied successfully'' 2]) \<and>
      fst (run db1) = (0, [LogInfo ''no pending migrations'']) \<and> db_data (snd (run db1)) = [''one'', ''two'']"
proof -
  let ?run = "migrate_main ex_migrate [''migrate'', ''up''] ex_migrate_env"
  have f: "fst (?run ex_db) = (0, [LogCount ''migrations applied successfully'' 2])" by code_simp
  have "fst (fst (?run (snd (?run ex_db)))) = 0" by code_simp
  then have s: "?run (snd (?run ex_db)) = ((0, snd (fst (?run (snd (?run ex_db))))), snd (?run (snd (?run ex_db))))"
    by (simp add: prod_eq_iff)
  have r: "?run ex_db = ((0, [LogCount ''migrations applied successfully'' 2]), snd (?run ex_db))" using f by (simp add: prod_eq_iff)
  have d: "distinct (map VersionFromPath (pending (mg_Migrations ex_migrate) (versions ex_db)))" by code_simp
  have e: "exec_files (mg_sql ex_migrate) (mg_Migrations ex_migrate) (pending (mg_Migrations ex_migrate) (versions ex_db)) (db_data ex_db)
      = Inr [''one'', ''two'']" by code_simp
  from migrate_up_twice [OF r s d] e f s show ?thesis unfolding Let_def by (metis Inr_inject fst_conv)
qed

end
