(* ===== verification/Gen_Api_Key.thy ===== *)
theory Gen_Api_Key
  imports Api Manager_Config
begin

section \<open>Generating an API key (tools/gen-api-key)\<close>

text \<open>
  The program over the random source and bcrypt, which are arguments, with the unpadded URL alphabet of base64 from the
  standard library. The result is the exit status with the lines on standard output. The end composes it with the
  configuration and the authentication of the API.
\<close>

subsection \<open>base64.RawURLEncoding\<close>

definition url_alphabet :: string where
  "url_alphabet = ''ABCDEFGHIJKLMNOPQRSTUVWXYZabcdefghijklmnopqrstuvwxyz0123456789-_''"

definition b64 :: "nat \<Rightarrow> char" where
  "b64 k = url_alphabet ! k"

fun RawURLEncoding :: "byte list \<Rightarrow> string" where
  "RawURLEncoding [] = []"
| "RawURLEncoding [x] = [b64 (unat x div 4), b64 (unat x mod 4 * 16)]"
| "RawURLEncoding [x, y] = [b64 (unat x div 4), b64 (unat x mod 4 * 16 + unat y div 16), b64 (unat y mod 16 * 4)]"
| "RawURLEncoding (x # y # z # bs) =
     b64 (unat x div 4) # b64 (unat x mod 4 * 16 + unat y div 16) # b64 (unat y mod 16 * 4 + unat z div 64) #
     b64 (unat z mod 64) # RawURLEncoding bs"

subsection \<open>main\<close>

definition gen_api_key ::
    "(nat \<Rightarrow> 'w \<Rightarrow> byte list res \<times> 'w) \<Rightarrow> (string \<Rightarrow> nat \<Rightarrow> 'w \<Rightarrow> string res \<times> 'w) \<Rightarrow> 'w \<Rightarrow>
     (nat \<times> string list) \<times> 'w" where
  "gen_api_key rnd bcrypt w =
     (case rnd 32 w of
        (Inl err, w1) \<Rightarrow> ((1, []), w1)
      | (Inr raw, w1) \<Rightarrow>
          (let key = RawURLEncoding raw
           in case bcrypt key 12 w1 of
                (Inl err, w2) \<Rightarrow> ((1, []), w2)
              | (Inr hash, w2) \<Rightarrow>
                  ((0, [''Raw key  : '' @ key, ''Bcrypt   : '' @ hash, '''', ''Add to API_KEYS in .env or export directly:'',
                        ''  export API_KEYS='' @ [CHR 39] @ hash @ [CHR 39]]), w2)))"

section \<open>Properties\<close>

lemma url_alphabet: "distinct url_alphabet" "length url_alphabet = 64" "CHR '' '' \<notin> set url_alphabet"
  by (simp_all add: url_alphabet_def)

lemma b64_inj: "j < 64 \<Longrightarrow> k < 64 \<Longrightarrow> b64 j = b64 k \<longleftrightarrow> j = k"
  using url_alphabet(1,2) by (simp add: b64_def nth_eq_iff_index_eq)

lemma RawURLEncoding_length: "length (RawURLEncoding bs) = (length bs * 4 + 2) div 3"
  by (induction bs rule: RawURLEncoding.induct) auto

lemma unat_byte: "unat (v :: byte) < 256"
  using unsigned_less [of v] by simp

lemma byte_parts: "unat (v :: byte) div 4 < 64" "unat v div 16 < 16" "unat v div 64 < 4"
  using unat_byte [of v] by (simp_all add: less_mult_imp_div_less)

lemma byte_bounds:
  fixes x y z :: byte
  shows "unat x div 4 < 64" "unat x mod 4 * 16 < 64" "unat x mod 4 * 16 + unat y div 16 < 64" "unat y mod 16 * 4 < 64"
    "unat y mod 16 * 4 + unat z div 64 < 64" "unat z mod 64 < 64"
proof -
  have "unat x mod 4 \<le> 3" "unat y mod 16 \<le> 15" "unat z mod 64 < 64" by simp_all
  moreover note byte_parts(1) [of x] byte_parts(2) [of y] byte_parts(3) [of z]
  ultimately show "unat x div 4 < 64" "unat x mod 4 * 16 < 64" "unat x mod 4 * 16 + unat y div 16 < 64"
    "unat y mod 16 * 4 < 64" "unat y mod 16 * 4 + unat z div 64 < 64" "unat z mod 64 < 64" by linarith+
qed

text \<open>The sextets determine the bytes.\<close>

lemma digit_pair:
  fixes a b k :: nat
  assumes "a * k + b = a' * k + b'" "b < k" "b' < k"
  shows "a = a' \<and> b = b'"
proof -
  have "(a * k + b) div k = a" "(a' * k + b') div k = a'" using assms(2,3) by simp_all
  with assms(1) show ?thesis by simp
qed

lemma byte_eqI:
  fixes x y :: byte
  assumes "unat x div m = unat y div m" "unat x mod m = unat y mod m"
  shows "x = y"
  using assms by (metis div_mult_mod_eq word_unat_eq_iff)

lemma sextets:
  fixes x y z x' y' z' :: byte
  shows "unat x div 4 = unat x' div 4 \<Longrightarrow> unat x mod 4 * 16 = unat x' mod 4 * 16 \<Longrightarrow> x = x'"
    and "unat x div 4 = unat x' div 4 \<Longrightarrow> unat x mod 4 * 16 + unat y div 16 = unat x' mod 4 * 16 + unat y' div 16 \<Longrightarrow>
      x = x' \<and> unat y div 16 = unat y' div 16"
    and "unat y div 16 = unat y' div 16 \<Longrightarrow> unat y mod 16 * 4 = unat y' mod 16 * 4 \<Longrightarrow> y = y'"
    and "unat y div 16 = unat y' div 16 \<Longrightarrow> unat y mod 16 * 4 + unat z div 64 = unat y' mod 16 * 4 + unat z' div 64 \<Longrightarrow>
      unat z mod 64 = unat z' mod 64 \<Longrightarrow> y = y' \<and> z = z'"
  using digit_pair [of "unat x mod 4" 16 "unat y div 16" "unat x' mod 4" "unat y' div 16"]
    digit_pair [of "unat y mod 16" 4 "unat z div 64" "unat y' mod 16" "unat z' div 64"]
  by (simp_all add: byte_parts byte_eqI [of _ 4] byte_eqI [of _ 16] byte_eqI [of _ 64])

lemma RawURLEncoding_inj:
  "length as = length bs \<Longrightarrow> RawURLEncoding as = RawURLEncoding bs \<Longrightarrow> as = bs"
proof (induction as arbitrary: bs rule: RawURLEncoding.induct)
  case (2 x)
  then obtain x' where "bs = [x']" by (cases bs) auto
  with 2 show ?case by (auto simp: b64_inj byte_bounds intro: sextets(1))
next
  case (3 x y)
  then obtain x' y' where "bs = [x', y']" by (cases bs rule: RawURLEncoding.cases) auto
  with 3 show ?case using sextets(2) [of x x' y y'] sextets(3) [of y y'] by (simp add: b64_inj byte_bounds)
next
  case (4 x y z as)
  then obtain x' y' z' bs' where bs: "bs = x' # y' # z' # bs'" by (cases bs rule: RawURLEncoding.cases) auto
  with 4 show ?case using sextets(2) [of x x' y y'] sextets(4) [of y y' z z'] by (simp add: b64_inj byte_bounds)
qed simp

lemma RawURLEncoding_no_space: "CHR '' '' \<notin> set (RawURLEncoding bs)"
proof -
  have "b64 k \<in> set url_alphabet" if "k < 64" for k using that url_alphabet(2) by (simp add: b64_def)
  then have "CHR '' '' \<noteq> b64 k" if "k < 64" for k using that url_alphabet(3) by metis
  then show ?thesis by (induction bs rule: RawURLEncoding.induct) (simp_all add: byte_bounds)
qed

lemma Split_whole: "sep \<notin> set s \<Longrightarrow> Split s sep = [s]"
  by (induction s) auto

lemma splitNonEmpty_single: "s \<noteq> '''' \<Longrightarrow> TrimSpace s = s \<Longrightarrow> sep \<notin> set s \<Longrightarrow> splitNonEmpty s sep = [s]"
  by (simp add: splitNonEmpty_def Split_whole)

lemma loaded_keys: "Load env = Some (Inr cfg) \<Longrightarrow> mc_APIKeys cfg = splitNonEmpty (Getenv env ''API_KEYS'') (CHR '','')"
  by (auto simp: Load_def Let_def config_of_env_def split: option.splits)

lemma bearer_generated:
  assumes "hr_Authorization r = ''Bearer '' @ RawURLEncoding raw" and "raw \<noteq> []"
  shows "bearerToken r = Some (RawURLEncoding raw)"
proof -
  have "Cut (''Bearer'' @ CHR '' '' # RawURLEncoding raw) (CHR '' '') = Some (''Bearer'', RawURLEncoding raw)"
    by (subst Cut_Some) simp
  moreover have "RawURLEncoding raw \<noteq> ''''" using assms(2) by (cases raw rule: RawURLEncoding.cases) simp_all
  moreover have "EqualFold ''Bearer'' ''bearer''" by code_simp
  ultimately show ?thesis using assms(1) by (simp add: bearerToken_def)
qed

text \<open>What bcrypt promises: a hash matches its password, and is printable text without a comma or a blank.\<close>

definition bcrypt_ok :: "(string \<Rightarrow> nat \<Rightarrow> 'w \<Rightarrow> string res \<times> 'w) \<Rightarrow> (string \<Rightarrow> string \<Rightarrow> bool) \<Rightarrow> bool" where
  "bcrypt_ok bcrypt compare \<longleftrightarrow>
     (\<forall>key cost v hash v'. bcrypt key cost v = (Inr hash, v') \<longrightarrow>
        compare hash key \<and> hash \<noteq> '''' \<and> TrimSpace hash = hash \<and> CHR '','' \<notin> set hash)"

text \<open>C15. A generated key opens the API: the program prints a key of 43 characters that determines the 32 random bytes, and a
  hash; a manager whose \<open>API_KEYS\<close> is that hash and whose configuration loads accepts every request that carries
  the key as its bearer token.\<close>

theorem generated_key_authorises:
  assumes "gen_api_key rnd bcrypt w = ((0, ls), w')" and "rnd 32 w = (Inr raw, w1)" and "length raw = 32"
    and "bcrypt_ok bcrypt (compare_hash out)"
  shows "\<exists>key hash. ls ! 0 = ''Raw key  : '' @ key \<and> ls ! 1 = ''Bcrypt   : '' @ hash \<and> length key = 43 \<and>
     (\<forall>raw'. length raw' = 32 \<longrightarrow> RawURLEncoding raw' = key \<longrightarrow> raw' = raw) \<and>
     (\<forall>env cfg r C. Getenv env ''API_KEYS'' = hash \<longrightarrow> Load env = Some (Inr cfg) \<longrightarrow>
        hr_Authorization r = ''Bearer '' @ key \<longrightarrow>
        authorised out \<lparr>sv_apiKeyHashes = mc_APIKeys cfg, sv_clusters = C\<rparr> r)"
proof -
  let ?key = "RawURLEncoding raw"
  obtain b w2 where b: "bcrypt ?key 12 w1 = (b, w2)" by (rule that [OF surjective_pairing])
  with assms(1,2) obtain hash where h: "b = Inr hash" and ls: "ls ! 0 = ''Raw key  : '' @ ?key" "ls ! 1 = ''Bcrypt   : '' @ hash"
    by (cases b) (auto simp: gen_api_key_def Let_def)
  from assms(4) [unfolded bcrypt_ok_def] b h
  have k: "compare_hash out hash ?key \<and> hash \<noteq> '''' \<and> TrimSpace hash = hash \<and> CHR '','' \<notin> set hash" by blast
  then have c: "compare_hash out hash ?key" "splitNonEmpty hash (CHR '','') = [hash]" by (simp_all add: splitNonEmpty_single)
  have "authorised out \<lparr>sv_apiKeyHashes = mc_APIKeys cfg, sv_clusters = C\<rparr> r"
    if "Getenv env ''API_KEYS'' = hash" "Load env = Some (Inr cfg)" "hr_Authorization r = ''Bearer '' @ ?key" for env cfg r C
  proof -
    from assms(3) have "raw \<noteq> []" by auto
    from bearer_generated [OF that(3) this] have "bearerToken r = Some ?key" .
    with loaded_keys [OF that(2)] that(1) c show ?thesis by (simp add: authorised_def)
  qed
  moreover have "length ?key = 43" using assms(3) by (simp add: RawURLEncoding_length)
  moreover have "raw' = raw" if "length raw' = 32" "RawURLEncoding raw' = ?key" for raw'
    using RawURLEncoding_inj [of raw' raw] that assms(3) by simp
  ultimately show ?thesis using ls by blast
qed

text \<open>A hash that remembers its password; it refuses passwords that would break the format.\<close>

definition ex_bcrypt :: "string \<Rightarrow> nat \<Rightarrow> unit \<Rightarrow> string res \<times> unit" where
  "ex_bcrypt key cost v =
     (let hash = ''$2a$12$'' @ key
      in (if TrimSpace hash = hash \<and> CHR '','' \<notin> set hash then Inr hash else Inl (Errors_New ''bcrypt''), v))"

definition ex_key_outside :: api_outside where
  "ex_key_outside = \<lparr>decode_create = (\<lambda>_. None), decode_update = (\<lambda>_. None), compare_hash = (\<lambda>hash key. hash = ''$2a$12$'' @ key)\<rparr>"

definition ex_rand32 :: "nat \<Rightarrow> unit \<Rightarrow> byte list res \<times> unit" where
  "ex_rand32 k v = (Inr (replicate k 0), v)"

lemma ex_gen_runs: "fst (fst (gen_api_key ex_rand32 ex_bcrypt ())) = 0"
  by code_simp

theorem generated_key_authorises_witness:
  "\<exists>ls key. gen_api_key ex_rand32 ex_bcrypt () = ((0, ls), ()) \<and> ls ! 0 = ''Raw key  : '' @ key \<and>
     length key = 43 \<and> (\<forall>raw'. length raw' = 32 \<longrightarrow> RawURLEncoding raw' = key \<longrightarrow> raw' = replicate 32 0)"
proof -
  let ?g = "gen_api_key ex_rand32 ex_bcrypt ()"
  have g: "?g = ((0, snd (fst ?g)), ())" using ex_gen_runs by (simp add: prod_eq_iff)
  have r: "ex_rand32 32 () = (Inr (replicate 32 0), ())" "length (replicate 32 (0 :: byte)) = 32"
    by (simp_all only: ex_rand32_def length_replicate)
  have b: "bcrypt_ok ex_bcrypt (compare_hash ex_key_outside)"
    by (auto simp: bcrypt_ok_def ex_bcrypt_def ex_key_outside_def Let_def split: if_splits)
  show ?thesis using generated_key_authorises [OF g r b] g by blast
qed

end
