(* ===== verification/Pulumi.thy ===== *)
theory Pulumi
  imports Prelude
begin

section \<open>The Pulumi runtime (internal/pulumi)\<close>

text \<open>
  \<open>Runtime\<close> over the automation SDK and the file system, which are a record of functions on the state. A stack
  is whatever the SDK returns; a program is an argument of the caller. The configuration map is a list of entries with
  the iteration order \<open>p\<close>; \<open>filepath.ToSlash\<close> is the identity on Linux.
\<close>

record pulumi_project =
  pj_Name :: string
  pj_Runtime :: string
  pj_Backend :: string

record 'v OutputValue =
  ov_Value :: 'v
  ov_Secret :: bool

record ('w, 'stack, 'program, 'v) pulumi_sdk =
  MkdirTemp :: "string \<Rightarrow> 'w \<Rightarrow> string res \<times> 'w"
  RemoveAll :: "string \<Rightarrow> 'w \<Rightarrow> go_error option \<times> 'w"
  UpsertStackInlineSource ::
    "string \<Rightarrow> string \<Rightarrow> 'program \<Rightarrow> pulumi_project \<Rightarrow> (string \<times> string) list \<Rightarrow> 'w \<Rightarrow> 'stack res \<times> 'w"
  Stack_SetConfig :: "'stack \<Rightarrow> string \<Rightarrow> string \<Rightarrow> 'w \<Rightarrow> go_error option \<times> 'w"
  Stack_Up :: "'stack \<Rightarrow> 'w \<Rightarrow> (string \<rightharpoonup> 'v OutputValue) res \<times> 'w"
  Stack_Destroy :: "'stack \<Rightarrow> 'w \<Rightarrow> go_error option \<times> 'w"

text \<open>A runtime is its project name.\<close>

definition Runtime_New :: "string \<Rightarrow> string res" where
  "Runtime_New projectName =
     (if projectName = '''' then Inl (Errors_New ''pulumi: project name must not be empty'') else Inr projectName)"

definition project_of :: "string \<Rightarrow> string \<Rightarrow> pulumi_project" where
  "project_of projectName tmpDir = \<lparr>pj_Name = projectName, pj_Runtime = ''go'', pj_Backend = ''file://'' @ tmpDir\<rparr>"

definition upsertStack ::
    "('w, 'stack, 'program, 'v) pulumi_sdk \<Rightarrow> string \<Rightarrow> string \<Rightarrow> 'program \<Rightarrow> string \<Rightarrow> 'w \<Rightarrow> 'stack res \<times> 'w" where
  "upsertStack sdk projectName stackName program tmpDir w =
     (case UpsertStackInlineSource sdk stackName projectName program (project_of projectName tmpDir)
             [(''PULUMI_CONFIG_PASSPHRASE'', '''')] w of
        (Inl err, w1) \<Rightarrow> (Inl (Wrapf ''pulumi: failed to create or select stack %q: %w'' [stackName] err), w1)
      | (Inr stack, w1) \<Rightarrow> (Inr stack, w1))"

definition applyConfig ::
    "('w, 'stack, 'program, 'v) pulumi_sdk \<Rightarrow> 'stack \<Rightarrow> (string \<times> string) list \<Rightarrow> 'w \<Rightarrow> go_error option \<times> 'w" where
  "applyConfig sdk stack cfg w =
     range_until_error (\<lambda>(k, v) w.
       case Stack_SetConfig sdk stack k v w of
         (Some err, w1) \<Rightarrow> (Some (Wrapf ''pulumi: failed to set config key %q: %w'' [k] err), w1)
       | (None, w1) \<Rightarrow> (None, w1)) cfg w"

definition outputsFromMap :: "(string \<rightharpoonup> 'v OutputValue) \<Rightarrow> (string \<rightharpoonup> 'v)" where
  "outputsFromMap m = (\<lambda>k. map_option ov_Value (m k))"

definition Runtime_Up ::
    "nat \<Rightarrow> ('w, 'stack, 'program, 'v) pulumi_sdk \<Rightarrow> string \<Rightarrow> string \<Rightarrow> 'program \<Rightarrow> (string \<times> string) list \<Rightarrow> 'w \<Rightarrow>
     (string \<rightharpoonup> 'v) res \<times> 'w" where
  "Runtime_Up p sdk projectName stackName program cfg w =
     (case MkdirTemp sdk ''lx-container-weaver-pulumi-*'' w of
        (Inl err, w1) \<Rightarrow> (Inl (Wrapf ''pulumi: failed to create workspace directory: %w'' [] err), w1)
      | (Inr tmpDir, w1) \<Rightarrow>
          (let (r, w5) =
             (case upsertStack sdk projectName stackName program tmpDir w1 of
                (Inl err, w2) \<Rightarrow> (Inl err, w2)
              | (Inr stack, w2) \<Rightarrow>
                  (case applyConfig sdk stack (reorder p cfg) w2 of
                     (Some err, w3) \<Rightarrow> (Inl err, w3)
                   | (None, w3) \<Rightarrow>
                       (case Stack_Up sdk stack w3 of
                          (Inl err, w4) \<Rightarrow> (Inl (Wrapf ''pulumi: stack %q up failed: %w'' [stackName] err), w4)
                        | (Inr outs, w4) \<Rightarrow> (Inr (outputsFromMap outs), w4))))
           in (r, snd (RemoveAll sdk tmpDir w5))))"

definition Runtime_Destroy ::
    "('w, 'stack, 'program, 'v) pulumi_sdk \<Rightarrow> string \<Rightarrow> string \<Rightarrow> 'program \<Rightarrow> 'w \<Rightarrow> go_error option \<times> 'w" where
  "Runtime_Destroy sdk projectName stackName program w =
     (case MkdirTemp sdk ''lx-container-weaver-pulumi-*'' w of
        (Inl err, w1) \<Rightarrow> (Some (Wrapf ''pulumi: failed to create workspace directory: %w'' [] err), w1)
      | (Inr tmpDir, w1) \<Rightarrow>
          (let (r, w4) =
             (case upsertStack sdk projectName stackName program tmpDir w1 of
                (Inl err, w2) \<Rightarrow> (Some err, w2)
              | (Inr stack, w2) \<Rightarrow>
                  (case Stack_Destroy sdk stack w2 of
                     (Some err, w3) \<Rightarrow> (Some (Wrapf ''pulumi: stack %q destroy failed: %w'' [stackName] err), w3)
                   | (None, w3) \<Rightarrow> (None, w3)))
           in (r, snd (RemoveAll sdk tmpDir w4))))"

section \<open>What the SDK promises\<close>

text \<open>
  What the documentation of Pulumi and of \<open>os\<close> says: a temporary directory is new; the state of a stack lies in the
  backend of its project, and a fresh directory holds none; selecting or creating a stack and setting its
  configuration do not touch resources; the file system removes what it is asked to remove; \<open>Destroy\<close> deletes resources that the state of its stack records. \<open>dirs\<close> are the
  temporary directories, \<open>resources\<close> what exists in the cloud, \<open>recorded\<close> what the state of a stack at a backend
  records, and \<open>home\<close> the backend and name of a stack.
\<close>

definition frame_keeps :: "('w \<Rightarrow> string set) \<Rightarrow> ('w \<Rightarrow> 'r set) \<Rightarrow> (string \<Rightarrow> string \<Rightarrow> 'w \<Rightarrow> 'r set) \<Rightarrow> 'w \<Rightarrow> 'w \<Rightarrow> bool" where
  "frame_keeps dirs resources recorded w w' \<longleftrightarrow>
     dirs w' = dirs w \<and> resources w' = resources w \<and> (\<forall>b s. recorded b s w' = recorded b s w)"

definition sdk_ok ::
    "('w \<Rightarrow> string set) \<Rightarrow> ('w \<Rightarrow> 'r set) \<Rightarrow> (string \<Rightarrow> string \<Rightarrow> 'w \<Rightarrow> 'r set) \<Rightarrow> ('stack \<Rightarrow> string \<times> string) \<Rightarrow>
     ('w, 'stack, 'program, 'v) pulumi_sdk \<Rightarrow> bool" where
  "sdk_ok dirs resources recorded home sdk \<longleftrightarrow>
     (\<forall>pattern w r w'. MkdirTemp sdk pattern w = (r, w') \<longrightarrow> resources w' = resources w \<and>
        (case r of Inl _ \<Rightarrow> dirs w' = dirs w
         | Inr d \<Rightarrow> d \<notin> dirs w \<and> dirs w' = insert d (dirs w) \<and> (\<forall>s. recorded (''file://'' @ d) s w' = {}))) \<and>
     (\<forall>d w r w'. RemoveAll sdk d w = (r, w') \<longrightarrow> resources w' = resources w \<and> dirs w' = dirs w - {d}) \<and>
     (\<forall>s n g proj env w r w'. UpsertStackInlineSource sdk s n g proj env w = (r, w') \<longrightarrow>
        frame_keeps dirs resources recorded w w' \<and> (\<forall>st. r = Inr st \<longrightarrow> home st = (pj_Backend proj, s))) \<and>
     (\<forall>st k v w r w'. Stack_SetConfig sdk st k v w = (r, w') \<longrightarrow> frame_keeps dirs resources recorded w w') \<and>
     (\<forall>st w r w'. Stack_Up sdk st w = (r, w') \<longrightarrow> dirs w' = dirs w \<and> resources w \<subseteq> resources w') \<and>
     (\<forall>st w r w'. Stack_Destroy sdk st w = (r, w') \<longrightarrow> dirs w' = dirs w \<and>
        resources w - recorded (fst (home st)) (snd (home st)) w \<subseteq> resources w' \<and> resources w' \<subseteq> resources w)"

lemma sdk_okD:
  assumes "sdk_ok dirs resources recorded home sdk"
  shows "MkdirTemp sdk pattern w = (Inl e, w') \<Longrightarrow> resources w' = resources w \<and> dirs w' = dirs w"
    and "MkdirTemp sdk pattern w = (Inr d, w') \<Longrightarrow> resources w' = resources w \<and> d \<notin> dirs w \<and> dirs w' = insert d (dirs w) \<and>
      recorded (''file://'' @ d) s w' = {}"
    and "RemoveAll sdk d w = (a, w') \<Longrightarrow> resources w' = resources w \<and> dirs w' = dirs w - {d}"
    and "UpsertStackInlineSource sdk s n g proj env w = (r, w') \<Longrightarrow> frame_keeps dirs resources recorded w w' \<and>
      (\<forall>st. r = Inr st \<longrightarrow> home st = (pj_Backend proj, s))"
    and "Stack_SetConfig sdk st k v w = (a, w') \<Longrightarrow> frame_keeps dirs resources recorded w w'"
    and "Stack_Up sdk st w = (u, w') \<Longrightarrow> dirs w' = dirs w \<and> resources w \<subseteq> resources w'"
    and "Stack_Destroy sdk st w = (a, w') \<Longrightarrow> dirs w' = dirs w \<and>
      resources w - recorded (fst (home st)) (snd (home st)) w \<subseteq> resources w' \<and> resources w' \<subseteq> resources w"
proof -
  note c = assms [unfolded sdk_ok_def]
  note mk = conjunct1 [OF c, rule_format] and c1 = conjunct2 [OF c]
  show "MkdirTemp sdk pattern w = (Inl e, w') \<Longrightarrow> resources w' = resources w \<and> dirs w' = dirs w"
    using mk [of pattern w "Inl e" w'] by simp
  show "MkdirTemp sdk pattern w = (Inr d, w') \<Longrightarrow> resources w' = resources w \<and> d \<notin> dirs w \<and> dirs w' = insert d (dirs w) \<and>
      recorded (''file://'' @ d) s w' = {}"
    using mk [of pattern w "Inr d" w'] by simp
  show "RemoveAll sdk d w = (a, w') \<Longrightarrow> resources w' = resources w \<and> dirs w' = dirs w - {d}"
    by (rule conjunct1 [OF c1, rule_format])
  note c2 = conjunct2 [OF c1]
  show "UpsertStackInlineSource sdk s n g proj env w = (r, w') \<Longrightarrow> frame_keeps dirs resources recorded w w' \<and>
      (\<forall>st. r = Inr st \<longrightarrow> home st = (pj_Backend proj, s))"
    using conjunct1 [OF c2] by simp
  note c3 = conjunct2 [OF c2]
  show "Stack_SetConfig sdk st k v w = (a, w') \<Longrightarrow> frame_keeps dirs resources recorded w w'"
    by (rule conjunct1 [OF c3, rule_format])
  note c4 = conjunct2 [OF c3]
  show "Stack_Up sdk st w = (u, w') \<Longrightarrow> dirs w' = dirs w \<and> resources w \<subseteq> resources w'"
    using conjunct1 [OF c4] by simp
  show "Stack_Destroy sdk st w = (a, w') \<Longrightarrow> dirs w' = dirs w \<and>
      resources w - recorded (fst (home st)) (snd (home st)) w \<subseteq> resources w' \<and> resources w' \<subseteq> resources w"
    using conjunct2 [OF c4] by simp
qed

lemma frame_keeps_refl [simp]: "frame_keeps dirs resources recorded w w"
  by (simp add: frame_keeps_def)

lemma frame_keeps_trans:
  "frame_keeps dirs resources recorded u v \<Longrightarrow> frame_keeps dirs resources recorded v w \<Longrightarrow> frame_keeps dirs resources recorded u w"
  by (simp add: frame_keeps_def)

lemma upsertStack_frame:
  assumes "sdk_ok dirs resources recorded home sdk" and "upsertStack sdk n s g d w = (r, w')"
  shows "frame_keeps dirs resources recorded w w' \<and> (\<forall>st. r = Inr st \<longrightarrow> home st = (''file://'' @ d, s))"
proof -
  obtain a v where "UpsertStackInlineSource sdk s n g (project_of n d) [(''PULUMI_CONFIG_PASSPHRASE'', '''')] w = (a, v)"
    by (rule that [OF surjective_pairing])
  with sdk_okD(4) [OF assms(1) this] assms(2) show ?thesis
    by (cases a) (auto simp: upsertStack_def project_of_def)
qed

lemma applyConfig_frame:
  assumes "sdk_ok dirs resources recorded home sdk" and "applyConfig sdk st cfg w = (r, w')"
  shows "frame_keeps dirs resources recorded w w'"
  using assms(2)
proof (induction cfg arbitrary: w)
  case (Cons e cfg)
  obtain k v where e: "e = (k, v)" by (cases e)
  obtain a w1 where a: "Stack_SetConfig sdk st k v w = (a, w1)" by (rule that [OF surjective_pairing])
  note f = sdk_okD(5) [OF assms(1) a]
  show ?case
  proof (cases a)
    case None
    with Cons.prems a e have "applyConfig sdk st cfg w1 = (r, w')" by (simp add: applyConfig_def)
    from Cons.IH [OF this] f show ?thesis by (blast intro: frame_keeps_trans)
  qed (use Cons.prems a e f in \<open>simp add: applyConfig_def\<close>)
qed (simp add: applyConfig_def)


section \<open>A concrete SDK\<close>

text \<open>Directories by name, the servers in the cloud, and the state files by backend and stack; \<open>Up\<close> creates one server.\<close>

record pulumi_world =
  pw_dirs :: "string list"
  pw_cloud :: "string set"
  pw_state :: "string \<Rightarrow> string \<Rightarrow> string set"

definition ex_sdk :: "(pulumi_world, string \<times> string, string, string) pulumi_sdk" where
  "ex_sdk =
     \<lparr>MkdirTemp = (\<lambda>pattern w. let d = ''x'' @ concat (pw_dirs w)
        in (Inr d, w\<lparr>pw_dirs := d # pw_dirs w, pw_state := (pw_state w)(''file://'' @ d := (\<lambda>_. {}))\<rparr>)),
      RemoveAll = (\<lambda>d w. (None, w\<lparr>pw_dirs := filter (\<lambda>e. e \<noteq> d) (pw_dirs w)\<rparr>)),
      UpsertStackInlineSource = (\<lambda>s n g proj env w. (Inr (pj_Backend proj, s), w)),
      Stack_SetConfig = (\<lambda>st k v w. (None, w)),
      Stack_Up = (\<lambda>st w. (Inr [''ip'' \<mapsto> \<lparr>ov_Value = ''10.0.0.1'', ov_Secret = False\<rparr>],
        w\<lparr>pw_cloud := insert ''server'' (pw_cloud w),
          pw_state := (pw_state w)(fst st := (pw_state w (fst st))(snd st := {''server''}))\<rparr>)),
      Stack_Destroy = (\<lambda>st w. (None, w\<lparr>pw_cloud := pw_cloud w - pw_state w (fst st) (snd st)\<rparr>))\<rparr>"

lemma fresh_dir: "''x'' @ concat ds \<notin> set ds"
proof
  assume "''x'' @ concat ds \<in> set ds"
  then have "length (''x'' @ concat ds) \<le> length (concat ds)"
    by (metis concat.simps(2) concat_append length_append le_add1 le_add2 order_trans split_list)
  then show False by simp
qed

lemma ex_sdk_ok: "sdk_ok (\<lambda>w. set (pw_dirs w)) pw_cloud (\<lambda>b s w. pw_state w b s) id ex_sdk"
  by (auto simp: sdk_ok_def ex_sdk_def frame_keeps_def Let_def fresh_dir [simplified])


end
